(* ===== verification/Prelude.thy ===== *)
theory Prelude
  imports Main "HOL-Library.List_Lexorder" "HOL-Library.Char_ord"
begin

text \<open>Shared vocabulary of the development.

  The collections \<open>step_simps\<close> (equations of the transition authority and of the
  functions that consult it) and \<open>guard_simps\<close> (the state predicates of the guards)
  are filled by the component theories, so that a component proof is usually one
  \<open>auto simp: step_simps\<close>.

  The JavaScript array operations the sources use are given their own names
  where HOL has no total counterpart with the same out-of-range behaviour:
  \<open>index_of\<close> for \<open>Array.prototype.indexOf\<close> (None for -1), \<open>at\<close> for
  \<open>Array.prototype.at\<close> and \<open>last_opt\<close> for \<open>.at(-1)\<close>.  \<open>List.find\<close>,
  \<open>list_all\<close>, \<open>list_ex\<close> and \<open>filter\<close> are \<open>find\<close>, \<open>every\<close>, \<open>some\<close> and
  \<open>filter\<close>.\<close>

named_theorems step_simps "equations of the transition authority"
named_theorems guard_simps "state predicates of the guards"

section \<open>Arrays\<close>

fun index_of :: "'a list \<Rightarrow> 'a \<Rightarrow> nat option" where
  "index_of [] _ = None"
| "index_of (x # xs) y = (if x = y then Some 0 else map_option Suc (index_of xs y))"

fun at :: "'a list \<Rightarrow> nat \<Rightarrow> 'a option" where
  "at [] _ = None"
| "at (x # _) 0 = Some x"
| "at (_ # xs) (Suc n) = at xs n"

definition last_opt :: "'a list \<Rightarrow> 'a option" where
  "last_opt xs = (if xs = [] then None else Some (last xs))"

definition opt_test :: "('a \<Rightarrow> bool) \<Rightarrow> 'a option \<Rightarrow> bool" where
  "opt_test P x = (case x of None \<Rightarrow> False | Some y \<Rightarrow> P y)"

lemma opt_test_simps [simp]:
  "opt_test P None = False" "opt_test P (Some x) = P x"
  by (simp_all add: opt_test_def)

lemma opt_test_iff: "opt_test P x \<longleftrightarrow> (\<exists>y. x = Some y \<and> P y)"
  by (cases x) auto

lemma last_opt_simps [simp]:
  "last_opt [] = None" "last_opt (xs @ [x]) = Some x"
  by (simp_all add: last_opt_def)

lemma last_opt_in_set: "last_opt xs = Some x \<Longrightarrow> x \<in> set xs"
  by (auto simp: last_opt_def split: if_splits)

lemma index_of_eq_None [simp]: "index_of xs y = None \<longleftrightarrow> y \<notin> set xs"
  by (induction xs) auto

lemma index_of_SomeD:
  "index_of xs y = Some i \<Longrightarrow> i < length xs \<and> xs ! i = y"
  by (induction xs arbitrary: i) (auto split: if_splits)

lemma at_eq: "at xs n = (if n < length xs then Some (xs ! n) else None)"
  by (induction xs n rule: at.induct) auto

section \<open>Lists\<close>

lemma find_SomeD: "List.find P xs = Some x \<Longrightarrow> x \<in> set xs \<and> P x"
  by (induction xs) (auto split: if_splits)

lemma find_None_iff_all: "List.find P xs = None \<longleftrightarrow> list_all (\<lambda>x. \<not> P x) xs"
  by (induction xs) auto

lemma list_all_set: "list_all P xs \<longleftrightarrow> (\<forall>x \<in> set xs. P x)"
  by (simp add: list_all_iff)

lemma list_ex_set: "list_ex P xs \<longleftrightarrow> (\<exists>x \<in> set xs. P x)"
  by (simp add: list_ex_iff)

lemma not_in_image: "k \<notin> f ` S \<longleftrightarrow> (\<forall>x \<in> S. f x \<noteq> k)"
  by auto

text \<open>A \<open>new Map\<close> built from a list keeps the last entry of a key.\<close>
definition last_by :: "('a \<Rightarrow> string) \<Rightarrow> 'a list \<Rightarrow> string \<Rightarrow> 'a option" where
  "last_by key xs k = List.find (\<lambda>x. key x = k) (rev xs)"

lemma last_by_SomeD: "last_by f xs i = Some x \<Longrightarrow> x \<in> set xs \<and> f x = i"
  by (auto simp: last_by_def dest: find_SomeD)

text \<open>JavaScript truthiness of an optional string.\<close>
definition truthy :: "string option \<Rightarrow> bool" where
  "truthy s = (case s of None \<Rightarrow> False | Some t \<Rightarrow> t \<noteq> [])"

text \<open>\<open>new Set(xs).size === xs.length\<close>.\<close>
definition has_duplicates :: "'a list \<Rightarrow> bool" where
  "has_duplicates xs = (\<not> distinct xs)"

end
