(* ===== verification/Event_Graph.thy ===== *)
theory Event_Graph
  imports Prelude "HOL-Library.Sublist"
begin

text \<open>Walks through an event graph, and the interface a transition authority offers
  to the components above it: a partial step function whose terminal states are
  stuck.  Two lemmas carry the path properties of the workflow: a walk never
  leaves a closed region (\<open>region_closed\<close>), and a walk that ends in a region it
  did not start in uses one of the region's entries, with all of the earlier part of
  the walk before it (\<open>region_entry\<close>); chained backwards from a goal, the latter
  lists the edges every walk to the goal takes, in order (\<open>entry_chain\<close>).\<close>

fun walk :: "('p \<Rightarrow> 'e \<Rightarrow> 'p option) \<Rightarrow> 'p \<Rightarrow> 'e list \<Rightarrow> 'p option" where
  "walk step p [] = Some p"
| "walk step p (e # es) = (case step p e of None \<Rightarrow> None | Some q \<Rightarrow> walk step q es)"

fun visits :: "('p \<Rightarrow> 'e \<Rightarrow> 'p option) \<Rightarrow> 'p \<Rightarrow> 'e list \<Rightarrow> ('p \<times> 'e \<times> 'p) list" where
  "visits step p [] = []"
| "visits step p (e # es) =
     (case step p e of None \<Rightarrow> [] | Some q \<Rightarrow> (p, e, q) # visits step q es)"

lemma walk_append:
  "walk step p (es @ fs) =
     (case walk step p es of None \<Rightarrow> None | Some q \<Rightarrow> walk step q fs)"
  by (induction es arbitrary: p) (auto split: option.splits)

lemma visits_append:
  "walk step p es = Some q \<Longrightarrow> visits step p (es @ fs) = visits step p es @ visits step q fs"
  by (induction es arbitrary: p) (auto split: option.splits)

lemma visits_step: "(p, e, q) \<in> set (visits step r es) \<Longrightarrow> step p e = Some q"
  by (induction es arbitrary: r) (auto split: option.splits)

locale event_graph =
  fixes step :: "'p \<Rightarrow> 'e \<Rightarrow> 'p option"
    and terminal :: "'p \<Rightarrow> bool"
  assumes terminal_stuck: "terminal p \<Longrightarrow> step p e = None"
begin

lemma walk_from_terminal:
  "terminal p \<Longrightarrow> walk step p es = Some q \<Longrightarrow> es = [] \<and> q = p"
  by (cases es) (auto simp: terminal_stuck)

lemma region_closed:
  assumes "\<And>p e q. R p \<Longrightarrow> step p e = Some q \<Longrightarrow> R q"
    and "R p" and "walk step p es = Some q"
  shows "R q"
  using assms(2,3)
  by (induction es arbitrary: p) (auto split: option.splits dest: assms(1))

lemma region_entry:
  assumes entries: "\<And>p e q. \<not> R p \<Longrightarrow> step p e = Some q \<Longrightarrow> R q \<Longrightarrow> (p, e, q) \<in> X"
    and "\<not> R p" and "walk step p es = Some q" and "R q"
  shows "\<exists>r e s es'. (r, e, s) \<in> X \<and> walk step p es' = Some r \<and>
           (\<exists>rest. visits step p es = visits step p es' @ (r, e, s) # rest)"
  using assms(2-4)
proof (induction es arbitrary: q rule: rev_induct)
  case Nil
  then show ?case by simp
next
  case (snoc e es)
  then obtain r where r: "walk step p es = Some r" "step r e = Some q"
    by (auto simp: walk_append split: option.splits)
  have v: "visits step p (es @ [e]) = visits step p es @ [(r, e, q)]"
    using r by (simp add: visits_append)
  show ?case
  proof (cases "R r")
    case True
    with snoc.IH [OF snoc.prems(1) r(1)] obtain r' e' s' es' rest where
      "(r', e', s') \<in> X" "walk step p es' = Some r'"
      "visits step p es = visits step p es' @ (r', e', s') # rest"
      by blast
    with v show ?thesis by (metis append.assoc append_Cons)
  next
    case False
    with entries [OF False r(2)] snoc.prems r v show ?thesis by blast
  qed
qed

text \<open>One link of a chain: the edges already known to come before the entry, then the entry.\<close>

lemma entry_chain:
  assumes "walk step p es = Some q" and "R q" and "\<not> R p"
    and "\<And>p e q. step p e = Some q \<Longrightarrow> R q \<Longrightarrow> \<not> R p \<Longrightarrow> (p, e, q) = t"
    and "\<And>es'. walk step p es' = Some (fst t) \<Longrightarrow> subseq L (visits step p es')"
  shows "subseq (L @ [t]) (visits step p es)"
proof -
  have "(p, e, q) \<in> {t}" if "\<not> R p" "step p e = Some q" "R q" for p e q
    using assms(4) [OF that(2,3,1)] by simp
  from region_entry [OF this assms(3,1,2)] obtain es' rest where
    "walk step p es' = Some (fst t)" and v: "visits step p es = visits step p es' @ t # rest"
    by fastforce
  with assms(5) have "subseq (L @ [t]) (visits step p es' @ ([t] @ rest))"
    by (intro list_emb_append_mono) simp_all
  with v show ?thesis by simp
qed

lemma terminal_only_last:
  assumes "walk step p es = Some q" and "(r, e, s) \<in> set (visits step p es)"
  shows "\<not> terminal r"
  using visits_step [OF assms(2)] terminal_stuck by auto

end

end
