(* ===== verification/Topology.thy ===== *)
theory Topology
  imports Event_Graph
begin

text \<open>The transition table of the workflow (\<open>machine/topology.ts\<close>) over the phase and
  event vocabularies of \<open>state/schema.ts\<close>, with the phase classifications and the
  flow progressions, and the command admissibility map (\<open>machine/commands.ts\<close>).\<close>

section \<open>Vocabulary\<close>

datatype phase =
    READY | TICKET | PLAN | PLAN_REVIEW | VALIDATION | IMPLEMENTATION
  | IMPL_VALIDATION | IMPL_REVIEW | EVIDENCE_REVIEW | EXPORT_READY | COMPLETE
  | ARCHITECTURE | ARCH_REVIEW | ARCH_COMPLETE | PEER_REVIEW
  | PEER_REVIEW_COMPLETE | REJECTED | ABORTED

datatype event =
    TICKET_SELECTED | ARCHITECTURE_SELECTED | PEER_REVIEW_SELECTED
  | PLAN_READY | SELF_REVIEW_MET | SELF_REVIEW_PENDING
  | APPROVE | CHANGES_REQUESTED | REJECT
  | ALL_PASSED | CHECK_FAILED | CHECK_ERRORED
  | IMPL_COMPLETE | REDUCED_CEREMONY
  | REVIEW_MET | REVIEW_PENDING | PEER_REVIEW_DONE | REVIEW_EXHAUSTED
  | EXPORT_MATERIALIZED | ERROR | ABORT

fun phase_name :: "phase \<Rightarrow> string" where
  "phase_name READY = ''READY''"
| "phase_name TICKET = ''TICKET''"
| "phase_name PLAN = ''PLAN''"
| "phase_name PLAN_REVIEW = ''PLAN_REVIEW''"
| "phase_name VALIDATION = ''VALIDATION''"
| "phase_name IMPLEMENTATION = ''IMPLEMENTATION''"
| "phase_name IMPL_VALIDATION = ''IMPL_VALIDATION''"
| "phase_name IMPL_REVIEW = ''IMPL_REVIEW''"
| "phase_name EVIDENCE_REVIEW = ''EVIDENCE_REVIEW''"
| "phase_name EXPORT_READY = ''EXPORT_READY''"
| "phase_name COMPLETE = ''COMPLETE''"
| "phase_name ARCHITECTURE = ''ARCHITECTURE''"
| "phase_name ARCH_REVIEW = ''ARCH_REVIEW''"
| "phase_name ARCH_COMPLETE = ''ARCH_COMPLETE''"
| "phase_name PEER_REVIEW = ''PEER_REVIEW''"
| "phase_name PEER_REVIEW_COMPLETE = ''PEER_REVIEW_COMPLETE''"
| "phase_name REJECTED = ''REJECTED''"
| "phase_name ABORTED = ''ABORTED''"

record transition =
  t_from :: phase
  t_to :: phase
  t_event :: event
  t_at :: string

instantiation phase :: enum
begin

definition enum_phase :: "phase list" where
  "enum_phase =
     [READY, TICKET, PLAN, PLAN_REVIEW, VALIDATION, IMPLEMENTATION,
      IMPL_VALIDATION, IMPL_REVIEW, EVIDENCE_REVIEW, EXPORT_READY, COMPLETE,
      ARCHITECTURE, ARCH_REVIEW, ARCH_COMPLETE, PEER_REVIEW,
      PEER_REVIEW_COMPLETE, REJECTED, ABORTED]"

definition enum_all_phase :: "(phase \<Rightarrow> bool) \<Rightarrow> bool" where
  "enum_all_phase P = list_all P enum_class.enum"

definition enum_ex_phase :: "(phase \<Rightarrow> bool) \<Rightarrow> bool" where
  "enum_ex_phase P = list_ex P enum_class.enum"

instance
proof
  have all: "x \<in> set (enum_class.enum :: phase list)" for x :: phase
    by (cases x) (simp_all add: enum_phase_def)
  show "(UNIV :: phase set) = set enum_class.enum" using all by auto
  show "distinct (enum_class.enum :: phase list)" by (simp add: enum_phase_def)
  show "enum_class.enum_all P \<longleftrightarrow> Ball UNIV P" for P :: "phase \<Rightarrow> bool"
    using all by (auto simp: enum_all_phase_def list_all_iff)
  show "enum_class.enum_ex P \<longleftrightarrow> Bex UNIV P" for P :: "phase \<Rightarrow> bool"
    using all by (auto simp: enum_ex_phase_def list_ex_iff)
qed

end

section \<open>Transition table\<close>

fun TRANSITIONS :: "phase \<Rightarrow> (event \<times> phase) list" where
  "TRANSITIONS READY =
     [(TICKET_SELECTED, TICKET), (ARCHITECTURE_SELECTED, ARCHITECTURE),
      (PEER_REVIEW_SELECTED, PEER_REVIEW), (ABORT, ABORTED)]"
| "TRANSITIONS TICKET = [(PLAN_READY, PLAN), (ERROR, TICKET), (ABORT, ABORTED)]"
| "TRANSITIONS PLAN =
     [(SELF_REVIEW_MET, PLAN_REVIEW), (SELF_REVIEW_PENDING, PLAN),
      (ERROR, PLAN), (ABORT, ABORTED)]"
| "TRANSITIONS PLAN_REVIEW =
     [(APPROVE, VALIDATION), (CHANGES_REQUESTED, PLAN), (REJECT, REJECTED),
      (ABORT, ABORTED)]"
| "TRANSITIONS VALIDATION =
     [(ALL_PASSED, IMPLEMENTATION), (CHECK_FAILED, PLAN),
      (CHECK_ERRORED, VALIDATION), (ERROR, VALIDATION), (ABORT, ABORTED)]"
| "TRANSITIONS IMPLEMENTATION =
     [(IMPL_COMPLETE, IMPL_VALIDATION), (ERROR, IMPLEMENTATION), (ABORT, ABORTED)]"
| "TRANSITIONS IMPL_VALIDATION =
     [(REDUCED_CEREMONY, EVIDENCE_REVIEW), (ALL_PASSED, IMPL_REVIEW),
      (CHECK_FAILED, IMPLEMENTATION), (CHECK_ERRORED, IMPL_VALIDATION),
      (ERROR, IMPL_VALIDATION), (ABORT, ABORTED)]"
| "TRANSITIONS IMPL_REVIEW =
     [(REVIEW_MET, EVIDENCE_REVIEW), (REVIEW_EXHAUSTED, EVIDENCE_REVIEW),
      (REVIEW_PENDING, IMPL_REVIEW), (CHANGES_REQUESTED, IMPLEMENTATION),
      (ERROR, IMPL_REVIEW), (ABORT, ABORTED)]"
| "TRANSITIONS EVIDENCE_REVIEW =
     [(APPROVE, EXPORT_READY), (CHANGES_REQUESTED, IMPLEMENTATION),
      (REJECT, REJECTED), (ABORT, ABORTED)]"
| "TRANSITIONS EXPORT_READY = [(EXPORT_MATERIALIZED, COMPLETE), (ABORT, ABORTED)]"
| "TRANSITIONS COMPLETE = []"
| "TRANSITIONS REJECTED = []"
| "TRANSITIONS ABORTED = []"
| "TRANSITIONS ARCHITECTURE =
     [(SELF_REVIEW_MET, ARCH_REVIEW), (SELF_REVIEW_PENDING, ARCHITECTURE),
      (ERROR, ARCHITECTURE), (ABORT, ABORTED)]"
| "TRANSITIONS ARCH_REVIEW =
     [(APPROVE, ARCH_COMPLETE), (CHANGES_REQUESTED, ARCHITECTURE),
      (REJECT, REJECTED), (ABORT, ABORTED)]"
| "TRANSITIONS ARCH_COMPLETE = []"
| "TRANSITIONS PEER_REVIEW =
     [(PEER_REVIEW_DONE, PEER_REVIEW_COMPLETE), (ERROR, PEER_REVIEW),
      (ABORT, ABORTED)]"
| "TRANSITIONS PEER_REVIEW_COMPLETE = []"

definition resolveTransition :: "phase \<Rightarrow> event \<Rightarrow> phase option" where
  "resolveTransition p e = map_of (TRANSITIONS p) e"

section \<open>Phase classifications\<close>

definition USER_GATES :: "phase list" where
  "USER_GATES = [PLAN_REVIEW, EVIDENCE_REVIEW, ARCH_REVIEW]"

definition TERMINAL :: "phase list" where
  "TERMINAL = [COMPLETE, ARCH_COMPLETE, PEER_REVIEW_COMPLETE, REJECTED, ABORTED]"

text \<open>\<open>isTerminalPhase\<close> takes an arbitrary string (an audit event's phase may be
  \<open>unknown\<close>); \<open>is_terminal\<close> is \<open>TERMINAL.has\<close> on a typed phase.\<close>

definition isTerminalPhase :: "string \<Rightarrow> bool" where
  "isTerminalPhase v = (v \<in> set (map phase_name TERMINAL))"

definition is_terminal :: "phase \<Rightarrow> bool" where
  "is_terminal p = (p \<in> set TERMINAL)"

definition is_user_gate :: "phase \<Rightarrow> bool" where
  "is_user_gate p = (p \<in> set USER_GATES)"

section \<open>Flow progressions\<close>

datatype flow_name = Flow_ticket | Flow_architecture | Flow_review

fun FLOW_PHASES :: "flow_name \<Rightarrow> phase list" where
  "FLOW_PHASES Flow_ticket =
     [TICKET, PLAN, PLAN_REVIEW, VALIDATION, IMPLEMENTATION, IMPL_VALIDATION,
      IMPL_REVIEW, EVIDENCE_REVIEW, EXPORT_READY, COMPLETE]"
| "FLOW_PHASES Flow_architecture = [ARCHITECTURE, ARCH_REVIEW, ARCH_COMPLETE]"
| "FLOW_PHASES Flow_review = [PEER_REVIEW, PEER_REVIEW_COMPLETE]"

definition isFlowPhase :: "flow_name \<Rightarrow> phase \<Rightarrow> bool" where
  "isFlowPhase f p = (p \<in> set (FLOW_PHASES f))"

definition isFlowPhaseAtOrAfter :: "flow_name \<Rightarrow> phase \<Rightarrow> phase \<Rightarrow> bool" where
  "isFlowPhaseAtOrAfter f current required =
     (case (index_of (FLOW_PHASES f) current, index_of (FLOW_PHASES f) required) of
        (Some i, Some j) \<Rightarrow> j \<le> i
      | _ \<Rightarrow> False)"

section \<open>Command admissibility\<close>

datatype command =
    Cmd_HYDRATE | Cmd_TICKET | Cmd_PLAN | Cmd_CONTINUE | Cmd_IMPLEMENT
  | Cmd_RESOLVE_IMPLEMENTATION_CHALLENGE | Cmd_REVIEW_DECISION
  | Cmd_OVERRIDE_APPROVE | Cmd_VALIDATE | Cmd_REVIEW | Cmd_ARCHITECTURE
  | Cmd_EXPORT | Cmd_ABORT

datatype allowed_in = Phases "phase list" | All_Phases | Non_Terminal

definition COMMAND_POLICY :: "(command \<times> allowed_in) list" where
  "COMMAND_POLICY =
     [(Cmd_HYDRATE, All_Phases),
      (Cmd_TICKET, Phases [READY, TICKET]),
      (Cmd_PLAN, Phases [TICKET, PLAN]),
      (Cmd_CONTINUE, Non_Terminal),
      (Cmd_IMPLEMENT, Phases [IMPLEMENTATION]),
      (Cmd_RESOLVE_IMPLEMENTATION_CHALLENGE, Phases [IMPL_REVIEW]),
      (Cmd_REVIEW_DECISION, Phases [PLAN_REVIEW, EVIDENCE_REVIEW, ARCH_REVIEW]),
      (Cmd_OVERRIDE_APPROVE, Phases [PLAN_REVIEW, EVIDENCE_REVIEW, ARCH_REVIEW]),
      (Cmd_VALIDATE, Phases [VALIDATION, IMPL_VALIDATION]),
      (Cmd_REVIEW, Phases [READY]),
      (Cmd_ARCHITECTURE, Phases [READY, ARCHITECTURE]),
      (Cmd_EXPORT, Phases [EXPORT_READY]),
      (Cmd_ABORT, All_Phases)]"

definition isCommandAllowed :: "phase \<Rightarrow> command \<Rightarrow> bool" where
  "isCommandAllowed p c =
     (case map_of COMMAND_POLICY c of
        None \<Rightarrow> False
      | Some All_Phases \<Rightarrow> True
      | Some Non_Terminal \<Rightarrow> \<not> is_terminal p
      | Some (Phases ps) \<Rightarrow> p \<in> set ps)"

section \<open>Lemmas\<close>

lemmas phase_class_defs = is_terminal_def TERMINAL_def is_user_gate_def USER_GATES_def

lemma resolveTransition_table [step_simps]:
  "resolveTransition p e = map_of (TRANSITIONS p) e"
  by (fact resolveTransition_def)

lemma resolveTransition_edge:
  "resolveTransition p e = Some q \<longleftrightarrow> (e, q) \<in> set (TRANSITIONS p)"
  by (cases p; cases e) (auto simp: resolveTransition_def)

lemma terminal_no_edge [simp]: "is_terminal p \<Longrightarrow> resolveTransition p e = None"
  by (cases p) (simp_all add: phase_class_defs resolveTransition_def)

lemma nonterminal_abort: "\<not> is_terminal p \<Longrightarrow> resolveTransition p ABORT = Some ABORTED"
  by (cases p) (simp_all add: phase_class_defs resolveTransition_def)

lemma phase_name_inj: "phase_name p = phase_name q \<longleftrightarrow> p = q"
  by (cases p; cases q) simp_all

interpretation topo: event_graph resolveTransition is_terminal
  by unfold_locales simp

text \<open>The entry edges of the governed phases: who leads there and by which event.\<close>

definition edges_into :: "phase \<Rightarrow> (phase \<times> event) list" where
  "edges_into q =
     concat (map (\<lambda>p. map (\<lambda>(e, r). (p, e)) (filter (\<lambda>(e, r). r = q) (TRANSITIONS p))) enum_class.enum)"

lemma edge_into: "resolveTransition p e = Some q \<longleftrightarrow> (p, e) \<in> set (edges_into q)"
proof -
  have "p \<in> set enum_class.enum" by (cases p) (simp_all add: enum_phase_def)
  then show ?thesis by (fastforce simp: resolveTransition_edge edges_into_def)
qed

lemma edge_into_COMPLETE:
  "resolveTransition p e = Some COMPLETE \<longleftrightarrow>
     p = EXPORT_READY \<and> e = EXPORT_MATERIALIZED"
  by (auto simp: edge_into edges_into_def enum_phase_def)

lemma edge_into_EXPORT_READY:
  "resolveTransition p e = Some EXPORT_READY \<longleftrightarrow>
     p = EVIDENCE_REVIEW \<and> e = APPROVE"
  by (auto simp: edge_into edges_into_def enum_phase_def)

lemma edge_into_VALIDATION:
  "resolveTransition p e = Some VALIDATION \<longleftrightarrow>
     p = PLAN_REVIEW \<and> e = APPROVE \<or>
     p = VALIDATION \<and> e = CHECK_ERRORED \<or>
     p = VALIDATION \<and> e = ERROR"
  by (auto simp: edge_into edges_into_def enum_phase_def)

lemma edge_into_ARCH_COMPLETE:
  "resolveTransition p e = Some ARCH_COMPLETE \<longleftrightarrow>
     p = ARCH_REVIEW \<and> e = APPROVE"
  by (auto simp: edge_into edges_into_def enum_phase_def)

lemma edge_into_TICKET:
  "resolveTransition p e = Some TICKET \<longleftrightarrow>
     p = READY \<and> e = TICKET_SELECTED \<or>
     p = TICKET \<and> e = ERROR"
  by (auto simp: edge_into edges_into_def enum_phase_def)

lemma edge_into_PLAN:
  "resolveTransition p e = Some PLAN \<longleftrightarrow>
     p = TICKET \<and> e = PLAN_READY \<or>
     p = PLAN \<and> e = SELF_REVIEW_PENDING \<or>
     p = PLAN \<and> e = ERROR \<or>
     p = PLAN_REVIEW \<and> e = CHANGES_REQUESTED \<or>
     p = VALIDATION \<and> e = CHECK_FAILED"
  by (auto simp: edge_into edges_into_def enum_phase_def)

lemma edge_into_PLAN_REVIEW:
  "resolveTransition p e = Some PLAN_REVIEW \<longleftrightarrow>
     p = PLAN \<and> e = SELF_REVIEW_MET"
  by (auto simp: edge_into edges_into_def enum_phase_def)

lemma edge_into_IMPLEMENTATION:
  "resolveTransition p e = Some IMPLEMENTATION \<longleftrightarrow>
     p = VALIDATION \<and> e = ALL_PASSED \<or>
     p = IMPLEMENTATION \<and> e = ERROR \<or>
     p = IMPL_VALIDATION \<and> e = CHECK_FAILED \<or>
     p = IMPL_REVIEW \<and> e = CHANGES_REQUESTED \<or>
     p = EVIDENCE_REVIEW \<and> e = CHANGES_REQUESTED"
  by (auto simp: edge_into edges_into_def enum_phase_def)

lemma edge_into_IMPL_VALIDATION:
  "resolveTransition p e = Some IMPL_VALIDATION \<longleftrightarrow>
     p = IMPLEMENTATION \<and> e = IMPL_COMPLETE \<or>
     p = IMPL_VALIDATION \<and> e = CHECK_ERRORED \<or>
     p = IMPL_VALIDATION \<and> e = ERROR"
  by (auto simp: edge_into edges_into_def enum_phase_def)

lemma edge_into_IMPL_REVIEW:
  "resolveTransition p e = Some IMPL_REVIEW \<longleftrightarrow>
     p = IMPL_VALIDATION \<and> e = ALL_PASSED \<or>
     p = IMPL_REVIEW \<and> e = REVIEW_PENDING \<or>
     p = IMPL_REVIEW \<and> e = ERROR"
  by (auto simp: edge_into edges_into_def enum_phase_def)

lemma edge_into_EVIDENCE_REVIEW:
  "resolveTransition p e = Some EVIDENCE_REVIEW \<longleftrightarrow>
     p = IMPL_VALIDATION \<and> e = REDUCED_CEREMONY \<or>
     p = IMPL_REVIEW \<and> e = REVIEW_MET \<or>
     p = IMPL_REVIEW \<and> e = REVIEW_EXHAUSTED"
  by (auto simp: edge_into edges_into_def enum_phase_def)

lemmas entry_edges [step_simps] =
  edge_into_COMPLETE
  edge_into_EXPORT_READY
  edge_into_VALIDATION
  edge_into_ARCH_COMPLETE
  edge_into_TICKET
  edge_into_PLAN
  edge_into_PLAN_REVIEW
  edge_into_IMPLEMENTATION
  edge_into_IMPL_VALIDATION
  edge_into_IMPL_REVIEW
  edge_into_EVIDENCE_REVIEW

section \<open>The edges on the way to a phase\<close>

text \<open>Each lemma names the one edge by which a walk from READY first comes to a phase that is
  not revisited from elsewhere, after the edges that lead to it.\<close>

definition ticket_edges :: "(phase \<times> event \<times> phase) list" where
  "ticket_edges =
     [(READY, TICKET_SELECTED, TICKET), (TICKET, PLAN_READY, PLAN),
      (PLAN, SELF_REVIEW_MET, PLAN_REVIEW), (PLAN_REVIEW, APPROVE, VALIDATION),
      (VALIDATION, ALL_PASSED, IMPLEMENTATION),
      (IMPLEMENTATION, IMPL_COMPLETE, IMPL_VALIDATION)]"

definition closing_edges :: "(phase \<times> event \<times> phase) list" where
  "closing_edges =
     [(EVIDENCE_REVIEW, APPROVE, EXPORT_READY), (EXPORT_READY, EXPORT_MATERIALIZED, COMPLETE)]"

definition review_edges :: "(phase \<times> event \<times> phase) list list" where
  "review_edges =
     [[(IMPL_VALIDATION, REDUCED_CEREMONY, EVIDENCE_REVIEW)],
      [(IMPL_VALIDATION, ALL_PASSED, IMPL_REVIEW), (IMPL_REVIEW, REVIEW_MET, EVIDENCE_REVIEW)],
      [(IMPL_VALIDATION, ALL_PASSED, IMPL_REVIEW), (IMPL_REVIEW, REVIEW_EXHAUSTED, EVIDENCE_REVIEW)]]"

lemma edges_to_TICKET:
  "walk resolveTransition READY es = Some TICKET \<Longrightarrow>
     subseq ([] @ [(READY, TICKET_SELECTED, TICKET)]) (visits resolveTransition READY es)"
  by (rule topo.entry_chain [where R = "\<lambda>p. p = TICKET"]) (auto simp: entry_edges)

lemma edges_to_PLAN:
  "walk resolveTransition READY es = Some PLAN \<Longrightarrow>
     subseq (take 1 ticket_edges @ [(TICKET, PLAN_READY, PLAN)]) (visits resolveTransition READY es)"
  by (rule topo.entry_chain [where R = "\<lambda>p. p \<in> set (tl (FLOW_PHASES Flow_ticket))"])
    (auto simp: ticket_edges_def entry_edges dest: edges_to_TICKET)

lemma edges_to_PLAN_REVIEW:
  "walk resolveTransition READY es = Some PLAN_REVIEW \<Longrightarrow>
     subseq (take 2 ticket_edges @ [(PLAN, SELF_REVIEW_MET, PLAN_REVIEW)]) (visits resolveTransition READY es)"
  by (rule topo.entry_chain [where R = "\<lambda>p. p = PLAN_REVIEW"])
    (auto simp: ticket_edges_def entry_edges dest: edges_to_PLAN)

lemma edges_to_VALIDATION:
  "walk resolveTransition READY es = Some VALIDATION \<Longrightarrow>
     subseq (take 3 ticket_edges @ [(PLAN_REVIEW, APPROVE, VALIDATION)]) (visits resolveTransition READY es)"
  by (rule topo.entry_chain [where R = "\<lambda>p. p = VALIDATION"])
    (auto simp: ticket_edges_def entry_edges dest: edges_to_PLAN_REVIEW)

lemma edges_to_IMPLEMENTATION:
  "walk resolveTransition READY es = Some IMPLEMENTATION \<Longrightarrow>
     subseq (take 4 ticket_edges @ [(VALIDATION, ALL_PASSED, IMPLEMENTATION)]) (visits resolveTransition READY es)"
  by (rule topo.entry_chain
        [where R = "\<lambda>p. p \<in> {IMPLEMENTATION, IMPL_VALIDATION, IMPL_REVIEW, EVIDENCE_REVIEW}"])
    (auto simp: ticket_edges_def entry_edges dest: edges_to_VALIDATION)

lemma edges_to_IMPL_VALIDATION:
  "walk resolveTransition READY es = Some IMPL_VALIDATION \<Longrightarrow>
     subseq (take 5 ticket_edges @ [(IMPLEMENTATION, IMPL_COMPLETE, IMPL_VALIDATION)])
       (visits resolveTransition READY es)"
  by (rule topo.entry_chain [where R = "\<lambda>p. p = IMPL_VALIDATION"])
    (auto simp: ticket_edges_def entry_edges dest: edges_to_IMPLEMENTATION)

lemma edges_to_IMPL_REVIEW:
  "walk resolveTransition READY es = Some IMPL_REVIEW \<Longrightarrow>
     subseq (ticket_edges @ [(IMPL_VALIDATION, ALL_PASSED, IMPL_REVIEW)])
       (visits resolveTransition READY es)"
  by (rule topo.entry_chain [where R = "\<lambda>p. p = IMPL_REVIEW"])
    (auto simp: ticket_edges_def entry_edges dest: edges_to_IMPL_VALIDATION)

lemma edges_to_EVIDENCE_REVIEW:
  assumes "walk resolveTransition READY es = Some EVIDENCE_REVIEW"
  shows "\<exists>m \<in> set review_edges. subseq (ticket_edges @ m) (visits resolveTransition READY es)"
proof -
  let ?X = "{(IMPL_VALIDATION, REDUCED_CEREMONY, EVIDENCE_REVIEW), (IMPL_REVIEW, REVIEW_MET, EVIDENCE_REVIEW),
             (IMPL_REVIEW, REVIEW_EXHAUSTED, EVIDENCE_REVIEW)}"
  have "(p, e, q) \<in> ?X" if "p \<noteq> EVIDENCE_REVIEW" "resolveTransition p e = Some q" "q = EVIDENCE_REVIEW" for p e q
    using that by (auto simp: entry_edges)
  from topo.region_entry [of "\<lambda>p. p = EVIDENCE_REVIEW", OF this _ assms]
  obtain r e s es' rest where x: "(r, e, s) \<in> ?X" "walk resolveTransition READY es' = Some r"
    and v: "visits resolveTransition READY es = visits resolveTransition READY es' @ (r, e, s) # rest"
    by blast
  have app: "subseq (L @ [(r, e, s)]) (visits resolveTransition READY es)"
    if "subseq L (visits resolveTransition READY es')" for L
    unfolding v by (rule list_emb_append_mono [OF that]) simp
  show ?thesis
  proof (cases "r = IMPL_REVIEW")
    case True
    then have "walk resolveTransition READY es' = Some IMPL_REVIEW" using x(2) by simp
    from app [OF edges_to_IMPL_REVIEW [OF this]] x(1) True show ?thesis
      by (auto simp: review_edges_def)
  next
    case False
    then have r: "r = IMPL_VALIDATION" "e = REDUCED_CEREMONY" "s = EVIDENCE_REVIEW" using x(1) by auto
    with x(2) have "subseq ticket_edges (visits resolveTransition READY es')"
      using edges_to_IMPL_VALIDATION [of es'] by (simp add: ticket_edges_def)
    from app [OF this] r show ?thesis by (auto simp: review_edges_def)
  qed
qed

text \<open>From each phase, events that lead to the flow's own end.\<close>

fun finishing_events :: "phase \<Rightarrow> event list" where
  "finishing_events READY = [PEER_REVIEW_SELECTED, PEER_REVIEW_DONE]"
| "finishing_events PEER_REVIEW = [PEER_REVIEW_DONE]"
| "finishing_events ARCHITECTURE = [SELF_REVIEW_MET, APPROVE]"
| "finishing_events ARCH_REVIEW = [APPROVE]"
| "finishing_events TICKET = [PLAN_READY, SELF_REVIEW_MET, REJECT]"
| "finishing_events PLAN = [SELF_REVIEW_MET, REJECT]"
| "finishing_events PLAN_REVIEW = [REJECT]"
| "finishing_events VALIDATION = [CHECK_FAILED, SELF_REVIEW_MET, REJECT]"
| "finishing_events IMPLEMENTATION = [IMPL_COMPLETE, ALL_PASSED, REVIEW_MET, REJECT]"
| "finishing_events IMPL_VALIDATION = [ALL_PASSED, REVIEW_MET, REJECT]"
| "finishing_events IMPL_REVIEW = [REVIEW_MET, REJECT]"
| "finishing_events EVIDENCE_REVIEW = [REJECT]"
| "finishing_events EXPORT_READY = [EXPORT_MATERIALIZED]"
| "finishing_events _ = []"

section \<open>Properties\<close>

text \<open>Every walk from READY to COMPLETE passes, in this order, ticket selection, the plan, its
  independent review, the human approval of the plan, validation, the implementation record, the
  implementation validation with its review (or the reduced-ceremony edge), the human approval of
  the evidence and the export. No edge of the table lets a run complete around a gate (C1).\<close>

theorem complete_passes_every_gate:
  assumes "walk resolveTransition READY es = Some COMPLETE"
  shows "\<exists>m \<in> set review_edges.
           subseq (ticket_edges @ m @ closing_edges) (visits resolveTransition READY es)"
proof -
  obtain es1 rest where e1: "walk resolveTransition READY es1 = Some EXPORT_READY"
    and v1: "visits resolveTransition READY es =
               visits resolveTransition READY es1 @ (EXPORT_READY, EXPORT_MATERIALIZED, COMPLETE) # rest"
    using topo.region_entry [of "\<lambda>p. p = COMPLETE" "{(EXPORT_READY, EXPORT_MATERIALIZED, COMPLETE)}", OF _ _ assms]
    by (auto simp: entry_edges)
  obtain es2 rest2 where e2: "walk resolveTransition READY es2 = Some EVIDENCE_REVIEW"
    and v2: "visits resolveTransition READY es1 =
               visits resolveTransition READY es2 @ (EVIDENCE_REVIEW, APPROVE, EXPORT_READY) # rest2"
    using topo.region_entry [of "\<lambda>p. p = EXPORT_READY" "{(EVIDENCE_REVIEW, APPROVE, EXPORT_READY)}", OF _ _ e1]
    by (auto simp: entry_edges)
  obtain m where m: "m \<in> set review_edges" "subseq (ticket_edges @ m) (visits resolveTransition READY es2)"
    using edges_to_EVIDENCE_REVIEW [OF e2] by blast
  have "subseq ((ticket_edges @ m) @ closing_edges)
          (visits resolveTransition READY es2 @ ([(EVIDENCE_REVIEW, APPROVE, EXPORT_READY)] @ rest2 @
             [(EXPORT_READY, EXPORT_MATERIALIZED, COMPLETE)] @ rest))"
    by (rule list_emb_append_mono [OF m(2)]) (simp add: closing_edges_def subseq_Cons2 list_emb_append2)
  with v1 v2 m(1) show ?thesis by auto
qed

theorem complete_passes_every_gate_witness:
  "\<exists>m \<in> set review_edges. subseq (ticket_edges @ m @ closing_edges)
     (visits resolveTransition READY
        [TICKET_SELECTED, PLAN_READY, SELF_REVIEW_PENDING, SELF_REVIEW_MET, CHANGES_REQUESTED, SELF_REVIEW_MET,
         APPROVE, ALL_PASSED, IMPL_COMPLETE, CHECK_FAILED, IMPL_COMPLETE, ALL_PASSED, REVIEW_MET, APPROVE,
         EXPORT_MATERIALIZED])"
  by (rule complete_passes_every_gate) (simp add: resolveTransition_def)

text \<open>A phase is terminal exactly when no event moves it, so a terminal phase is never left by
  any walk; and every other phase can be aborted in one event and can also reach a terminal phase
  other than ABORTED without an abort: no phase of the table is a dead end (C12).\<close>

theorem terminal_iff_stuck:
  "is_terminal p = (\<forall>e. resolveTransition p e = None) \<and>
   is_terminal p = (walk resolveTransition p [ABORT] \<noteq> Some ABORTED) \<and>
   (\<exists>es q. ABORT \<notin> set es \<and> walk resolveTransition p es = Some q \<and> is_terminal q)"
proof (intro conjI)
  show "is_terminal p = (\<forall>e. resolveTransition p e = None)"
    using nonterminal_abort [of p] by (cases "is_terminal p") auto
  show "is_terminal p = (walk resolveTransition p [ABORT] \<noteq> Some ABORTED)"
    by (cases "is_terminal p") (simp_all add: nonterminal_abort)
  show "\<exists>es q. ABORT \<notin> set es \<and> walk resolveTransition p es = Some q \<and> is_terminal q"
    by (intro exI [of _ "finishing_events p"] exI [of _ "the (walk resolveTransition p (finishing_events p))"])
      (cases p; simp add: resolveTransition_def phase_class_defs)
qed

text \<open>The decision commands are admitted exactly at the user gates, and these are exactly the
  phases whose table row has an APPROVE edge; at a terminal phase only hydrate and abort remain, and
  no command outside the policy map is ever admitted (C13).\<close>

theorem command_policy_matches_topology:
  "isCommandAllowed p Cmd_REVIEW_DECISION = is_user_gate p \<and>
   isCommandAllowed p Cmd_OVERRIDE_APPROVE = is_user_gate p \<and>
   is_user_gate p = (resolveTransition p APPROVE \<noteq> None) \<and>
   isCommandAllowed p Cmd_VALIDATE = (resolveTransition p CHECK_FAILED \<noteq> None) \<and>
   isCommandAllowed p Cmd_EXPORT = (resolveTransition p EXPORT_MATERIALIZED \<noteq> None) \<and>
   is_terminal p = (\<forall>c. isCommandAllowed p c = (c = Cmd_HYDRATE \<or> c = Cmd_ABORT))"
proof (intro conjI)
  show "is_terminal p = (\<forall>c. isCommandAllowed p c = (c = Cmd_HYDRATE \<or> c = Cmd_ABORT))"
  proof
    assume "is_terminal p"
    then show "\<forall>c. isCommandAllowed p c = (c = Cmd_HYDRATE \<or> c = Cmd_ABORT)"
      by (intro allI, cases p; case_tac c) (simp_all add: isCommandAllowed_def COMMAND_POLICY_def phase_class_defs)
  next
    assume "\<forall>c. isCommandAllowed p c = (c = Cmd_HYDRATE \<or> c = Cmd_ABORT)"
    then have "\<not> isCommandAllowed p Cmd_CONTINUE" by simp
    then show "is_terminal p" by (simp add: isCommandAllowed_def COMMAND_POLICY_def)
  qed
qed (cases p; simp add: isCommandAllowed_def COMMAND_POLICY_def phase_class_defs resolveTransition_def)+

text \<open>The three flows do not mix: once a walk has entered a flow it stays in that flow's phases,
  or ends in REJECTED or ABORTED. In particular no walk from the architecture or the review flow
  comes to an implementation phase (C14).\<close>

theorem flows_do_not_mix:
  assumes "isFlowPhase f p" and "walk resolveTransition p es = Some q"
  shows "isFlowPhase f q \<or> q = REJECTED \<or> q = ABORTED"
proof (rule topo.region_closed [OF _ _ assms(2)])
  show "isFlowPhase f p \<or> p = REJECTED \<or> p = ABORTED" using assms(1) by simp
  show "isFlowPhase f q \<or> q = REJECTED \<or> q = ABORTED"
    if "isFlowPhase f p \<or> p = REJECTED \<or> p = ABORTED" "resolveTransition p e = Some q" for p e q
    using that by (cases f; cases p) (auto simp: isFlowPhase_def resolveTransition_def split: if_splits)
qed

theorem flows_do_not_mix_witness:
  "isFlowPhase Flow_architecture ARCH_COMPLETE \<or> ARCH_COMPLETE = REJECTED \<or> ARCH_COMPLETE = ABORTED"
  by (rule flows_do_not_mix [of Flow_architecture ARCHITECTURE "[SELF_REVIEW_MET, CHANGES_REQUESTED, SELF_REVIEW_MET, APPROVE]"])
    (simp_all add: isFlowPhase_def resolveTransition_def)

end
