(* ===== verification/JS_Text.thy ===== *)
theory JS_Text
  imports Prelude
begin

text \<open>The JavaScript string operations the sources use.  A string is a list of
  \<open>char\<close>, one per UTF-16 code unit of the Latin-1 range: on that range code
  units, code points and characters coincide, sorting by \<open><\<close> is the
  lexicographic order of \<open>List_Lexorder\<close>, and NFC normalisation is the identity.

  \<open>is_ws\<close> is the \<open>\s\<close> of regular expressions, which is also the set
  \<open>String.prototype.trim\<close> removes: tab to carriage return, space and the
  no-break space.\<close>

definition is_ws :: "char \<Rightarrow> bool" where
  "is_ws c = (let n = (of_char c :: nat) in 9 \<le> n \<and> n \<le> 13 \<or> n = 32 \<or> n = 160)"

definition is_blank :: "char \<Rightarrow> bool" where
  "is_blank c = (c = CHR '' '' \<or> c = CHR 0x09)"

definition is_upper :: "char \<Rightarrow> bool" where
  "is_upper c = (let n = (of_char c :: nat) in 65 \<le> n \<and> n \<le> 90)"

definition is_lower :: "char \<Rightarrow> bool" where
  "is_lower c = (let n = (of_char c :: nat) in 97 \<le> n \<and> n \<le> 122)"

definition is_digit :: "char \<Rightarrow> bool" where
  "is_digit c = (let n = (of_char c :: nat) in 48 \<le> n \<and> n \<le> 57)"

text \<open>The \<open>\w\<close> of regular expressions.\<close>
definition is_word :: "char \<Rightarrow> bool" where
  "is_word c = (is_upper c \<or> is_lower c \<or> is_digit c \<or> c = CHR ''_'')"

text \<open>\<open>toLowerCase\<close> and \<open>toUpperCase\<close>.  The two letters whose upper case lies
  outside Latin-1 (the micro sign and y with diaeresis) are kept, and the sharp
  s becomes two letters.\<close>

definition lower_char :: "char \<Rightarrow> char" where
  "lower_char c =
     (let n = (of_char c :: nat)
      in if 65 \<le> n \<and> n \<le> 90 \<or> 192 \<le> n \<and> n \<le> 222 \<and> n \<noteq> 215
         then char_of (n + 32) else c)"

definition upper_char :: "char \<Rightarrow> string" where
  "upper_char c =
     (let n = (of_char c :: nat)
      in if 97 \<le> n \<and> n \<le> 122 \<or> 224 \<le> n \<and> n \<le> 254 \<and> n \<noteq> 247
         then [char_of (n - 32)] else if n = 223 then ''SS'' else [c])"

definition toLowerCase :: "string \<Rightarrow> string" where
  "toLowerCase s = map lower_char s"

definition toUpperCase :: "string \<Rightarrow> string" where
  "toUpperCase s = concat (map upper_char s)"

definition trim :: "string \<Rightarrow> string" where
  "trim s = rev (dropWhile is_ws (rev (dropWhile is_ws s)))"

text \<open>\<open>text.split(/\r?\n/)\<close>; the accumulator holds the current line reversed.\<close>
fun split_lines_acc :: "string \<Rightarrow> string \<Rightarrow> string list" where
  "split_lines_acc acc [] = [rev acc]"
| "split_lines_acc acc [c] =
     (if c = CHR 0x0A then [rev acc, []] else [rev (c # acc)])"
| "split_lines_acc acc (c # d # cs) =
     (if c = CHR 0x0A then rev acc # split_lines_acc [] (d # cs)
      else if c = CHR 0x0D \<and> d = CHR 0x0A then rev acc # split_lines_acc [] cs
      else split_lines_acc (c # acc) (d # cs))"

definition split_lines :: "string \<Rightarrow> string list" where
  "split_lines s = split_lines_acc [] s"

text \<open>\<open>s.split(c)\<close> on a one-character separator.\<close>
fun split_on :: "char \<Rightarrow> string \<Rightarrow> string list" where
  "split_on c [] = [[]]"
| "split_on c (x # xs) =
     (if x = c then [] # split_on c xs
      else (case split_on c xs of [] \<Rightarrow> [[x]] | w # ws \<Rightarrow> (x # w) # ws))"

fun join :: "string \<Rightarrow> string list \<Rightarrow> string" where
  "join sep [] = []"
| "join sep [w] = w"
| "join sep (w # v # ws) = w @ sep @ join sep (v # ws)"

fun strip_prefix :: "string \<Rightarrow> string \<Rightarrow> string option" where
  "strip_prefix [] s = Some s"
| "strip_prefix (_ # _) [] = None"
| "strip_prefix (p # ps) (c # cs) = (if p = c then strip_prefix ps cs else None)"

definition starts_with :: "string \<Rightarrow> string \<Rightarrow> bool" where
  "starts_with p s = (strip_prefix p s \<noteq> None)"

definition ends_with :: "string \<Rightarrow> string \<Rightarrow> bool" where
  "ends_with p s = starts_with (rev p) (rev s)"

fun includes_sub :: "string \<Rightarrow> string \<Rightarrow> bool" where
  "includes_sub p [] = (p = [])"
| "includes_sub p (c # cs) = (starts_with p (c # cs) \<or> includes_sub p cs)"

text \<open>\<open>[...].sort()\<close> on strings: code unit order.\<close>
definition sort_strings :: "string list \<Rightarrow> string list" where
  "sort_strings = sort"

text \<open>Decimal rendering of an integer (\<open>String(n)\<close>, \<open>JSON.stringify(n)\<close>).\<close>

definition digit_char :: "nat \<Rightarrow> char" where
  "digit_char d = char_of (48 + d)"

fun show_nat :: "nat \<Rightarrow> string" where
  "show_nat n = (if n < 10 then [digit_char n] else show_nat (n div 10) @ [digit_char (n mod 10)])"

declare show_nat.simps [simp del]

definition show_int :: "int \<Rightarrow> string" where
  "show_int i = (if i < 0 then CHR ''-'' # show_nat (nat (- i)) else show_nat (nat i))"

section \<open>Lemmas\<close>

lemma strip_prefix_iff: "strip_prefix p s = Some r \<longleftrightarrow> s = p @ r"
  by (induction p s rule: strip_prefix.induct) auto

lemma starts_with_iff: "starts_with p s \<longleftrightarrow> (\<exists>r. s = p @ r)"
  by (auto simp: starts_with_def strip_prefix_iff)

lemma split_on_nonempty [simp]: "split_on c s \<noteq> []"
  by (cases s) (auto split: list.splits)

lemma join_split_on: "join [c] (split_on c s) = s"
proof (induction s)
  case Nil
  then show ?case by simp
next
  case (Cons x s)
  then show ?case
    by (cases "split_on c s"; cases "tl (split_on c s)") (auto split: list.splits)
qed

lemma join_Cons: "join sep (w # ws) = w @ concat (map (\<lambda>v. sep @ v) ws)"
  by (induction ws arbitrary: w) simp_all

lemma join_around:
  "join sep (us @ w # ws) = concat (map (\<lambda>u. u @ sep) us) @ w @ concat (map (\<lambda>v. sep @ v) ws)"
proof (induction us)
  case (Cons u us)
  then show ?case by (cases us) (simp_all add: join_Cons)
qed (simp add: join_Cons)

text \<open>A segment of a split string sits between separators or ends of the string.\<close>

lemma split_on_segment:
  assumes "split_on c s = us @ w # vs"
  obtains pre post where "s = pre @ w @ post"
    and "pre = [] \<or> last pre = c" and "post = [] \<or> hd post = c" and "vs = [] \<Longrightarrow> post = []"
proof
  show "s = concat (map (\<lambda>u. u @ [c]) us) @ w @ concat (map (\<lambda>v. [c] @ v) vs)"
    using join_split_on [of c s] by (simp only: assms join_around)
  show "concat (map (\<lambda>u. u @ [c]) us) = [] \<or> last (concat (map (\<lambda>u. u @ [c]) us)) = c"
    by (cases us rule: rev_cases) simp_all
  show "concat (map (\<lambda>v. [c] @ v) vs) = [] \<or> hd (concat (map (\<lambda>v. [c] @ v) vs)) = c"
    by (cases vs) simp_all
qed simp

lemma digit_char_inj: "d < 10 \<Longrightarrow> e < 10 \<Longrightarrow> digit_char d = digit_char e \<longleftrightarrow> d = e"
  by (auto simp: digit_char_def char_of_eq_iff take_bit_eq_mod)

lemma is_digit_digit_char: "d < 10 \<Longrightarrow> is_digit (digit_char d)"
  by (simp add: is_digit_def digit_char_def Let_def of_char_of)

lemma show_nat_digits: "list_all is_digit (show_nat n)"
  by (induction n rule: show_nat.induct)
    (subst show_nat.simps, auto simp: is_digit_digit_char)

lemma show_nat_nonempty [simp]: "show_nat n \<noteq> []"
  by (subst show_nat.simps) simp

lemma show_nat_inj: "show_nat m = show_nat n \<longleftrightarrow> m = n"
proof (induction m arbitrary: n rule: show_nat.induct)
  case (1 m)
  show ?case
  proof (cases "m < 10 \<or> n < 10")
    case True
    then show ?thesis
      by (subst (1 2) show_nat.simps) (auto simp: digit_char_inj append_eq_Cons_conv Cons_eq_append_conv)
  next
    case False
    then have "show_nat m = show_nat n \<longleftrightarrow> m div 10 = n div 10 \<and> m mod 10 = n mod 10"
      using 1 [of "n div 10"] by (subst (1 2) show_nat.simps) (simp add: digit_char_inj)
    also have "\<dots> \<longleftrightarrow> m = n" by (metis div_mult_mod_eq)
    finally show ?thesis .
  qed
qed

lemma minus_not_digit [simp]: "\<not> is_digit CHR ''-''"
  by (simp add: is_digit_def Let_def)

lemma show_int_nonempty [simp]: "show_int i \<noteq> []"
  by (simp add: show_int_def)

lemma show_int_inj: "show_int i = show_int j \<longleftrightarrow> i = j"
proof -
  have hd: "is_digit (hd (show_nat n))" for n
    using show_nat_digits [of n] by (cases "show_nat n") auto
  have neq: "CHR ''-'' # show_nat m \<noteq> show_nat n" for m n
    using hd [of n] minus_not_digit by (metis list.sel(1))
  show ?thesis
    by (auto simp: show_int_def show_nat_inj neq neq [symmetric])
qed

end
