(* ===== verification/Canonical_Json.thy ===== *)
theory Canonical_Json
  imports JS_Text
begin

text \<open>The canonical JSON serialiser (\<open>shared/canonical-json.ts\<close>) over JSON-compatible
  values.  \<open>JUndef\<close> is \<open>undefined\<close>, which occurs as an array element and as a
  property value; an object is its own enumerable properties in enumeration
  order.  Numbers are the integers the governance records hold (safe integers,
  whose JSON form is the decimal numeral).

  \<open>json_text\<close> is \<open>JSON.stringify\<close>.  \<open>own_order\<close> is the enumeration order of the
  object that \<open>canonicalize\<close> fills: array-index keys first, in numeric order,
  then the remaining keys as inserted.  Assigning the key \<open>__proto__\<close> on that
  object sets its prototype and creates no property, so the key disappears.

  The main lemma, \<open>canonicalJsonStringify_eq_iff\<close>: two values have the same canonical
  text exactly when their canonical forms agree (array holes read as null).\<close>

datatype jsval =
    JUndef
  | JNull
  | JBool bool
  | JNum int
  | JStr string
  | JArr "jsval list"
  | JObj "(string \<times> jsval) list"

type_synonym jsobject = "(string \<times> jsval) list"

section \<open>Serialiser\<close>

definition hex_digit :: "nat \<Rightarrow> char" where
  "hex_digit d = (if d < 10 then char_of (48 + d) else char_of (87 + d))"

definition SHORT_ESCAPES :: "(char \<times> char) list" where
  "SHORT_ESCAPES =
     [(CHR 0x22, CHR 0x22), (CHR 0x5C, CHR 0x5C), (CHR 0x08, CHR ''b''),
      (CHR 0x0C, CHR ''f''), (CHR 0x0A, CHR ''n''), (CHR 0x0D, CHR ''r''),
      (CHR 0x09, CHR ''t'')]"

definition esc_char :: "char \<Rightarrow> string" where
  "esc_char c =
     (case map_of SHORT_ESCAPES c of
        Some e \<Rightarrow> [CHR 0x5C, e]
      | None \<Rightarrow>
          if (of_char c :: nat) < 32
          then [CHR 0x5C, CHR ''u'', CHR ''0'', CHR ''0'',
                hex_digit (of_char c div 16), hex_digit (of_char c mod 16)]
          else [c])"

definition quote :: "string \<Rightarrow> string" where
  "quote s = CHR 0x22 # concat (map esc_char s) @ [CHR 0x22]"

fun json_text :: "jsval \<Rightarrow> string"
  and json_items :: "jsval list \<Rightarrow> string"
  and json_members :: "(string \<times> jsval) list \<Rightarrow> string" where
  "json_text JUndef = ''null''"
| "json_text JNull = ''null''"
| "json_text (JBool b) = (if b then ''true'' else ''false'')"
| "json_text (JNum i) = show_int i"
| "json_text (JStr s) = quote s"
| "json_text (JArr vs) = CHR ''['' # json_items vs"
| "json_text (JObj kvs) = CHR ''{'' # json_members kvs"
| "json_items [] = '']''"
| "json_items [v] = json_text v @ '']''"
| "json_items (v # w # vs) = json_text v @ CHR '','' # json_items (w # vs)"
| "json_members [] = ''}''"
| "json_members [(k, v)] = quote k @ CHR '':'' # json_text v @ ''}''"
| "json_members ((k, v) # kv # kvs) =
     quote k @ CHR '':'' # json_text v @ CHR '','' # json_members (kv # kvs)"

section \<open>Canonical form\<close>

fun nat_of_digits :: "nat \<Rightarrow> string \<Rightarrow> nat" where
  "nat_of_digits acc [] = acc"
| "nat_of_digits acc (c # cs) = nat_of_digits (10 * acc + (of_char c - 48)) cs"

definition is_index_key :: "string \<Rightarrow> bool" where
  "is_index_key k =
     (k \<noteq> [] \<and> list_all is_digit k \<and> (hd k = CHR ''0'' \<longrightarrow> k = ''0'') \<and>
      nat_of_digits 0 k < 4294967295)"

definition own_order :: "(string \<times> jsval) list \<Rightarrow> (string \<times> jsval) list" where
  "own_order kvs =
     sort_key (nat_of_digits 0 \<circ> fst) (filter (is_index_key \<circ> fst) kvs) @
     filter (\<lambda>kv. \<not> is_index_key (fst kv)) kvs"

definition assign_sorted :: "(string \<times> jsval) list \<Rightarrow> (string \<times> jsval) list" where
  "assign_sorted kvs =
     own_order (filter (\<lambda>(k, v). v \<noteq> JUndef \<and> k \<noteq> ''__proto__'') (sort_key fst kvs))"

fun canonicalize :: "jsval \<Rightarrow> jsval"
  and canonicalize_items :: "jsval list \<Rightarrow> jsval list"
  and canonicalize_members :: "(string \<times> jsval) list \<Rightarrow> (string \<times> jsval) list" where
  "canonicalize (JArr vs) = JArr (canonicalize_items vs)"
| "canonicalize (JObj kvs) = JObj (assign_sorted (canonicalize_members kvs))"
| "canonicalize v = v"
| "canonicalize_items [] = []"
| "canonicalize_items (v # vs) = canonicalize v # canonicalize_items vs"
| "canonicalize_members [] = []"
| "canonicalize_members ((k, v) # kvs) = (k, canonicalize v) # canonicalize_members kvs"

definition canonicalJsonStringify :: "jsval \<Rightarrow> string" where
  "canonicalJsonStringify v = json_text (canonicalize v)"

text \<open>Array holes read as null: the two values \<open>JSON.stringify\<close> does not separate.\<close>

fun holes_null :: "jsval \<Rightarrow> jsval"
  and holes_null_items :: "jsval list \<Rightarrow> jsval list"
  and holes_null_members :: "(string \<times> jsval) list \<Rightarrow> (string \<times> jsval) list" where
  "holes_null JUndef = JNull"
| "holes_null (JArr vs) = JArr (holes_null_items vs)"
| "holes_null (JObj kvs) = JObj (holes_null_members kvs)"
| "holes_null v = v"
| "holes_null_items [] = []"
| "holes_null_items (v # vs) = holes_null v # holes_null_items vs"
| "holes_null_members [] = []"
| "holes_null_members ((k, v) # kvs) = (k, holes_null v) # holes_null_members kvs"

definition json_normal :: "jsval \<Rightarrow> jsval" where
  "json_normal v = holes_null (canonicalize v)"

section \<open>Unique readability of strings and numerals\<close>

lemma hex_digit_inj: "d < 16 \<Longrightarrow> e < 16 \<Longrightarrow> hex_digit d = hex_digit e \<longleftrightarrow> d = e"
  by (auto simp: hex_digit_def char_of_eq_iff take_bit_eq_mod of_char_of split: if_splits)

lemma short_escape_inj:
  "map_of SHORT_ESCAPES c = Some e \<Longrightarrow> map_of SHORT_ESCAPES d = Some e \<Longrightarrow> c = d"
  by (auto simp: SHORT_ESCAPES_def split: if_splits)

lemma short_escape_not_u: "map_of SHORT_ESCAPES c \<noteq> Some CHR ''u''"
  by (simp add: SHORT_ESCAPES_def)

lemma short_escape_None:
  "map_of SHORT_ESCAPES c = None \<Longrightarrow> c \<noteq> CHR 0x5C \<and> c \<noteq> CHR 0x22"
  by (auto simp: SHORT_ESCAPES_def split: if_splits)

lemma of_char_hex_inj:
  assumes "(of_char c :: nat) < 32" "(of_char d :: nat) < 32"
    and "hex_digit (of_char c div 16) = hex_digit (of_char d div 16)"
    and "hex_digit (of_char c mod 16) = hex_digit (of_char d mod 16)"
  shows "c = d"
proof -
  have lt: "(of_char c :: nat) div 16 < 16" "(of_char d :: nat) div 16 < 16"
    "(of_char c :: nat) mod 16 < 16" "(of_char d :: nat) mod 16 < 16"
    using assms(1,2) by simp_all
  have "(of_char c :: nat) = of_char d"
    using assms(3,4) hex_digit_inj [OF lt(1,2)] hex_digit_inj [OF lt(3,4)]
    by (metis div_mult_mod_eq)
  then show ?thesis by (simp only: of_char_eq_iff)
qed

lemma esc_char_cases:
  obtains (short) e where "map_of SHORT_ESCAPES c = Some e" "esc_char c = [CHR 0x5C, e]" "e \<noteq> CHR ''u''"
  | (control) "(of_char c :: nat) < 32" "esc_char c = [CHR 0x5C, CHR ''u'', CHR ''0'', CHR ''0'',
        hex_digit (of_char c div 16), hex_digit (of_char c mod 16)]"
  | (plain) "esc_char c = [c]" "c \<noteq> CHR 0x5C" "c \<noteq> CHR 0x22"
  using short_escape_not_u [of c] short_escape_None [of c]
  by (cases "map_of SHORT_ESCAPES c"; cases "(of_char c :: nat) < 32")
    (auto simp: esc_char_def)

lemma esc_char_unique:
  assumes "esc_char c @ s = esc_char d @ t"
  shows "c = d \<and> s = t"
proof -
  have "c = d"
    by (cases c rule: esc_char_cases; cases d rule: esc_char_cases)
      (use assms in \<open>simp_all add: short_escape_inj of_char_hex_inj\<close>)
  with assms show ?thesis by simp
qed

lemma esc_char_not_quote: "esc_char c @ s \<noteq> CHR 0x22 # t"
  by (cases c rule: esc_char_cases) simp_all

lemma quote_body_unique:
  "concat (map esc_char k) @ CHR 0x22 # s = concat (map esc_char l) @ CHR 0x22 # t
     \<Longrightarrow> k = l \<and> s = t"
proof (induction k arbitrary: l)
  case Nil
  show ?case
  proof (cases l)
    case Nil
    with Nil.prems show ?thesis by simp
  next
    case (Cons d l')
    with Nil.prems have "esc_char d @ (concat (map esc_char l') @ CHR 0x22 # t) = CHR 0x22 # s"
      by (simp only: list.map concat.simps append_Nil append_assoc)
    then show ?thesis by (rule notE [OF esc_char_not_quote])
  qed
next
  case (Cons c k)
  then show ?case
  proof (cases l)
    case Nil
    with Cons.prems show ?thesis by (simp add: esc_char_not_quote)
  next
    case (Cons d l')
    with Cons.prems have "esc_char c @ (concat (map esc_char k) @ CHR 0x22 # s) =
        esc_char d @ (concat (map esc_char l') @ CHR 0x22 # t)" by simp
    from esc_char_unique [OF this] have "c = d"
      and "concat (map esc_char k) @ CHR 0x22 # s = concat (map esc_char l') @ CHR 0x22 # t"
      by simp_all
    with Cons.IH [of l'] Cons show ?thesis by simp
  qed
qed

lemma quote_unique: "quote k @ s = quote l @ t \<longleftrightarrow> k = l \<and> s = t"
proof
  assume "quote k @ s = quote l @ t"
  then have "concat (map esc_char k) @ CHR 0x22 # s = concat (map esc_char l) @ CHR 0x22 # t"
    by (simp add: quote_def)
  then show "k = l \<and> s = t" by (rule quote_body_unique)
qed simp

lemma quote_inj: "quote k = quote l \<longleftrightarrow> k = l"
  using quote_unique [of k "[]" l "[]"] by simp

definition delimited :: "string \<Rightarrow> bool" where
  "delimited s = (s = [] \<or> hd s \<in> {CHR '','', CHR '']'', CHR ''}''})"

lemma delimited_simps [simp]:
  "delimited []" "delimited (CHR '','' # s)" "delimited (CHR '']'' # s)" "delimited (CHR ''}'' # s)"
  by (simp_all add: delimited_def)

lemma delimited_not_digit: "delimited (c # s) \<Longrightarrow> \<not> is_digit c"
  by (auto simp: delimited_def is_digit_def)

lemma digits_unique:
  "list_all is_digit xs \<Longrightarrow> list_all is_digit ys \<Longrightarrow> delimited s \<Longrightarrow> delimited t
     \<Longrightarrow> xs @ s = ys @ t \<Longrightarrow> xs = ys \<and> s = t"
proof (induction xs arbitrary: ys)
  case Nil
  then show ?case by (cases ys) (auto dest: delimited_not_digit)
next
  case (Cons x xs)
  then show ?case by (cases ys) (auto dest: delimited_not_digit)
qed

lemma show_int_unique:
  assumes "delimited s" "delimited t" "show_int i @ s = show_int j @ t"
  shows "i = j \<and> s = t"
proof -
  define bare where "bare = (\<lambda>i :: int. if i < 0 then show_nat (nat (- i)) else show_nat (nat i))"
  have split: "show_int i = (if i < 0 then CHR ''-'' # bare i else bare i)" for i
    by (simp add: show_int_def bare_def)
  have digits: "list_all is_digit (bare i)" and ne: "bare i \<noteq> []" for i
    by (simp_all add: bare_def show_nat_digits)
  have neq: "bare m @ u \<noteq> CHR ''-'' # v" for m u v
    using digits [of m] ne [of m] by (cases "bare m") auto
  have "(i < 0) = (j < 0)" and "bare i @ s = bare j @ t"
    using assms(3) neq [of i s] neq [of j t] by (auto simp: split split: if_splits) (metis neq)+
  with digits_unique [OF digits digits assms(1,2)] have "bare i = bare j" "s = t" by auto
  with \<open>(i < 0) = (j < 0)\<close> have "show_int i = show_int j" by (simp add: split)
  with \<open>s = t\<close> show ?thesis by (simp add: show_int_inj)
qed

section \<open>Unique readability of canonical text\<close>

lemma json_text_nonempty [simp]: "json_text v \<noteq> []"
  by (cases v) (simp_all add: quote_def)

text \<open>The first character tells the constructor of a hole-free value.\<close>

fun head_kind :: "jsval \<Rightarrow> char \<Rightarrow> bool" where
  "head_kind JUndef c = (c = CHR ''n'')"
| "head_kind JNull c = (c = CHR ''n'')"
| "head_kind (JBool b) c = (c = (if b then CHR ''t'' else CHR ''f''))"
| "head_kind (JNum i) c = (is_digit c \<or> c = CHR ''-'')"
| "head_kind (JStr s) c = (c = CHR 0x22)"
| "head_kind (JArr vs) c = (c = CHR ''['')"
| "head_kind (JObj kvs) c = (c = CHR ''{'')"

lemma hd_show_int: "is_digit (hd (show_int i)) \<or> hd (show_int i) = CHR ''-''"
  using show_nat_digits [of "nat i"] show_nat_nonempty [of "nat i"]
  by (cases "show_nat (nat i)") (auto simp: show_int_def)

lemma json_text_head: "head_kind v (hd (json_text v @ s))"
  using hd_show_int by (cases v) (auto simp: quote_def)

definition items_tail :: "jsval list \<Rightarrow> string" where
  "items_tail vs = (if vs = [] then '']'' else CHR '','' # json_items vs)"

definition members_tail :: "(string \<times> jsval) list \<Rightarrow> string" where
  "members_tail kvs = (if kvs = [] then ''}'' else CHR '','' # json_members kvs)"

lemma json_items_Cons: "json_items (v # vs) = json_text v @ items_tail vs"
  by (cases vs) (simp_all add: items_tail_def)

lemma json_members_Cons:
  "json_members ((k, v) # kvs) = quote k @ CHR '':'' # json_text v @ members_tail kvs"
  by (cases kvs) (simp_all add: members_tail_def)

lemma delimited_tails [simp]: "delimited (items_tail vs @ s)" "delimited (members_tail kvs @ s)"
  by (simp_all add: items_tail_def members_tail_def)

lemma json_items_not_Nil: "json_items (v # vs) @ s \<noteq> CHR '']'' # t"
proof
  assume "json_items (v # vs) @ s = CHR '']'' # t"
  then have "hd (json_text v @ (items_tail vs @ s)) = CHR '']''"
    by (simp only: json_items_Cons append_assoc list.sel)
  with json_text_head [of v "items_tail vs @ s"] show False
    by (cases v) (auto simp: is_digit_def split: if_splits)
qed

lemma json_members_not_Nil: "json_members (kv # kvs) @ s \<noteq> CHR ''}'' # t"
  by (cases kv) (simp add: json_members_Cons quote_def)

lemma tails_unique:
  "items_tail vs @ s = items_tail ws @ t
     \<Longrightarrow> vs = [] \<and> ws = [] \<and> s = t \<or> vs \<noteq> [] \<and> ws \<noteq> [] \<and> json_items vs @ s = json_items ws @ t"
  "members_tail kvs @ s = members_tail lws @ t
     \<Longrightarrow> kvs = [] \<and> lws = [] \<and> s = t
       \<or> kvs \<noteq> [] \<and> lws \<noteq> [] \<and> json_members kvs @ s = json_members lws @ t"
  by (auto simp: items_tail_def members_tail_def split: if_splits)

lemma json_items_unique:
  assumes item: "\<And>v w s t. v \<in> set vs \<Longrightarrow> json_text v @ s = json_text w @ t
      \<Longrightarrow> delimited s \<Longrightarrow> delimited t \<Longrightarrow> holes_null v = holes_null w \<and> s = t"
    and eq: "json_items vs @ s = json_items ws @ t"
  shows "holes_null_items vs = holes_null_items ws \<and> s = t"
  using assms
proof (induction vs arbitrary: ws)
  case Nil
  then show ?case
    by (cases ws) (simp, metis append_Cons append_Nil json_items.simps(1) json_items_not_Nil)
next
  case (Cons v vs)
  show ?case
  proof (cases ws)
    case Nil
    with Cons.prems(2) json_items_not_Nil [of v vs s t] show ?thesis by simp
  next
    case [simp]: (Cons w ws')
    have "json_text v @ (items_tail vs @ s) = json_text w @ (items_tail ws' @ t)"
      using Cons.prems(2) by (simp only: Cons json_items_Cons append_assoc)
    from Cons.prems(1) [OF _ this] have vw: "holes_null v = holes_null w"
      and tl: "items_tail vs @ s = items_tail ws' @ t" by simp_all
    have ih: "json_items vs @ s = json_items ws' @ t
        \<Longrightarrow> holes_null_items vs = holes_null_items ws' \<and> s = t"
      by (rule Cons.IH [OF Cons.prems(1)]) simp_all
    from tails_unique(1) [OF tl] ih vw show ?thesis
      by (elim disjE conjE) simp_all
  qed
qed

lemma json_members_unique:
  assumes item: "\<And>v w s t. v \<in> snd ` set kvs \<Longrightarrow> json_text v @ s = json_text w @ t
      \<Longrightarrow> delimited s \<Longrightarrow> delimited t \<Longrightarrow> holes_null v = holes_null w \<and> s = t"
    and eq: "json_members kvs @ s = json_members lws @ t"
  shows "holes_null_members kvs = holes_null_members lws \<and> s = t"
  using assms
proof (induction kvs arbitrary: lws)
  case Nil
  then show ?case
    by (cases lws) (simp, metis append_Cons append_Nil json_members.simps(1) json_members_not_Nil)
next
  case (Cons kv kvs)
  obtain k v where [simp]: "kv = (k, v)" by (cases kv)
  show ?case
  proof (cases lws)
    case Nil
    with Cons.prems(2) json_members_not_Nil [of kv kvs s t] show ?thesis by simp
  next
    case (Cons lw lws')
    obtain l w where [simp]: "lw = (l, w)" by (cases lw)
    have "quote k @ (CHR '':'' # json_text v @ (members_tail kvs @ s)) =
        quote l @ (CHR '':'' # json_text w @ (members_tail lws' @ t))"
      using Cons.prems(2) by (simp only: Cons \<open>kv = _\<close> \<open>lw = _\<close> json_members_Cons append_assoc append_Cons)
    then have kl: "k = l"
      and "json_text v @ (members_tail kvs @ s) = json_text w @ (members_tail lws' @ t)"
      by (simp_all add: quote_unique)
    from Cons.prems(1) [OF _ this(2)] have vw: "holes_null v = holes_null w"
      and tl: "members_tail kvs @ s = members_tail lws' @ t" by simp_all
    have ih: "json_members kvs @ s = json_members lws' @ t
        \<Longrightarrow> holes_null_members kvs = holes_null_members lws' \<and> s = t"
      by (rule Cons.IH [OF Cons.prems(1)]) simp_all
    from tails_unique(2) [OF tl] ih vw kl Cons show ?thesis
      by (elim disjE conjE) simp_all
  qed
qed

lemma same_head: "json_text v @ s = json_text w @ t \<Longrightarrow> head_kind w (hd (json_text v @ s))"
  by (simp only: json_text_head)

lemma head_kind_cases:
  "head_kind w CHR ''['' \<longleftrightarrow> (\<exists>ws. w = JArr ws)"
  "head_kind w CHR ''{'' \<longleftrightarrow> (\<exists>lws. w = JObj lws)"
  "head_kind w CHR 0x22 \<longleftrightarrow> (\<exists>y. w = JStr y)"
  "head_kind w CHR ''n'' \<longleftrightarrow> w = JNull \<or> w = JUndef"
  "head_kind w CHR ''t'' \<longleftrightarrow> w = JBool True"
  "head_kind w CHR ''f'' \<longleftrightarrow> w = JBool False"
  by (cases w; auto simp: is_digit_def)+

lemma json_text_unique:
  "json_text v @ s = json_text w @ t \<Longrightarrow> delimited s \<Longrightarrow> delimited t
     \<Longrightarrow> holes_null v = holes_null w \<and> s = t"
proof (induction v arbitrary: w s t)
  case (JNum i)
  obtain j where w: "w = JNum j"
    using same_head [OF JNum.prems(1)] hd_show_int [of i] 
    by (cases w) (auto simp: is_digit_def split: if_splits)
  with JNum.prems show_int_unique [OF JNum.prems(2,3), of i j] show ?case by simp
next
  case (JArr vs)
  from same_head [OF JArr.prems(1)] obtain ws where w: "w = JArr ws"
    by (auto simp: head_kind_cases)
  with JArr.prems(1) have "json_items vs @ s = json_items ws @ t" by simp
  with json_items_unique [OF JArr.IH this] w show ?case by simp
next
  case (JObj kvs)
  from same_head [OF JObj.prems(1)] obtain lws where w: "w = JObj lws"
    by (auto simp: head_kind_cases)
  with JObj.prems(1) have eq: "json_members kvs @ s = json_members lws @ t" by simp
  have "holes_null_members kvs = holes_null_members lws \<and> s = t"
    by (rule json_members_unique [OF _ eq], erule imageE, rule JObj.IH) (simp_all add: prod_set_defs)
  with w show ?case by simp
next
  case (JStr x)
  from same_head [OF JStr.prems(1)] obtain y where "w = JStr y"
    by (auto simp: head_kind_cases quote_def)
  with JStr.prems(1) show ?case by (simp add: quote_unique)
next
  case JUndef
  from same_head [OF JUndef.prems(1)] JUndef.prems(1) show ?case
    by (auto simp: head_kind_cases)
next
  case JNull
  from same_head [OF JNull.prems(1)] JNull.prems(1) show ?case
    by (auto simp: head_kind_cases)
next
  case (JBool b)
  from same_head [OF JBool.prems(1)] JBool.prems(1) show ?case
    by (auto simp: head_kind_cases split: if_splits)
qed

lemma canonicalize_members_map:
  "canonicalize_members kvs = map (\<lambda>(k, v). (k, canonicalize v)) kvs"
  by (induction kvs) auto

lemma canonicalize_items_map: "canonicalize_items vs = map canonicalize vs"
  by (induction vs) auto

lemma holes_null_items_map: "holes_null_items vs = map holes_null vs"
  by (induction vs) auto

lemma holes_null_members_map:
  "holes_null_members kvs = map (\<lambda>(k, v). (k, holes_null v)) kvs"
  by (induction kvs) auto

lemma json_text_holes_null:
  "json_text (holes_null v) = json_text v"
  "json_items (holes_null_items vs) = json_items vs"
  "json_members (holes_null_members kvs) = json_members kvs"
  by (induction v and vs and kvs rule: holes_null_holes_null_items_holes_null_members.induct)
    (simp_all add: json_items_Cons json_members_Cons items_tail_def members_tail_def
      holes_null_items_map holes_null_members_map
      del: json_items.simps(2,3) json_members.simps(2,3))

lemma canonicalJsonStringify_eq_iff:
  "canonicalJsonStringify v = canonicalJsonStringify w \<longleftrightarrow> json_normal v = json_normal w"
proof
  assume "canonicalJsonStringify v = canonicalJsonStringify w"
  then show "json_normal v = json_normal w"
    using json_text_unique [of "canonicalize v" "[]" "canonicalize w" "[]"]
    by (simp add: canonicalJsonStringify_def json_normal_def)
next
  assume "json_normal v = json_normal w"
  then show "canonicalJsonStringify v = canonicalJsonStringify w"
    unfolding canonicalJsonStringify_def json_normal_def
    by (metis json_text_holes_null(1))
qed

section \<open>Property lookup\<close>

text \<open>The value a property contributes to the canonical text: none when it is absent,
  undefined, or the key \<open>__proto__\<close>.\<close>

definition json_field :: "(string \<times> jsval) list \<Rightarrow> string \<Rightarrow> jsval option" where
  "json_field kvs k =
     (case map_of kvs k of
        None \<Rightarrow> None
      | Some v \<Rightarrow> if v = JUndef \<or> k = ''__proto__'' then None else Some (json_normal v))"

lemma json_normal_JStr [simp]: "json_normal (JStr s) = JStr s"
  by (simp add: json_normal_def)

lemma json_normal_JArr [simp]: "json_normal (JArr vs) = JArr (map json_normal vs)"
  by (simp add: json_normal_def canonicalize_items_map holes_null_items_map)

lemma json_normal_atoms [simp]:
  "json_normal JNull = JNull" "json_normal (JBool b) = JBool b" "json_normal (JNum n) = JNum n"
  by (simp_all add: json_normal_def)

lemma json_field_Nil: "json_field [] q = None"
  by (simp add: json_field_def)

lemma json_field_Cons:
  "json_field ((k, v) # kvs) q =
     (if k = q then (if v = JUndef \<or> q = ''__proto__'' then None else Some (json_normal v))
      else json_field kvs q)"
  by (simp add: json_field_def)

lemma json_field_append:
  "json_field (kvs @ lws) q = (if map_of kvs q = None then json_field lws q else json_field kvs q)"
  by (simp add: json_field_def map_add_def split: option.split)

lemma canonicalize_JUndef [simp]: "canonicalize v = JUndef \<longleftrightarrow> v = JUndef"
  by (cases v) auto

lemma set_own_order [simp]: "set (own_order kvs) = set kvs"
  by (auto simp: own_order_def)

lemma distinct_own_order: "distinct (map fst kvs) \<Longrightarrow> distinct (map fst (own_order kvs))"
  by (auto simp: own_order_def distinct_map comp_def inj_on_def)

lemma map_of_same_set:
  "distinct (map fst xs) \<Longrightarrow> distinct (map fst ys) \<Longrightarrow> set xs = set ys \<Longrightarrow> map_of xs = map_of ys"
  by (metis map_of_inject_set)

lemma set_json_members:
  "set (holes_null_members (assign_sorted (canonicalize_members kvs))) =
     {(k, json_normal v) | k v. (k, v) \<in> set kvs \<and> v \<noteq> JUndef \<and> k \<noteq> ''__proto__''}"
  by (force simp: holes_null_members_map assign_sorted_def canonicalize_members_map json_normal_def)

lemma json_normal_field:
  assumes "json_normal (JObj kvs) = json_normal (JObj lws)"
    and "distinct (map fst kvs)" and "distinct (map fst lws)"
  shows "json_field kvs k = json_field lws k"
proof -
  let ?S = "\<lambda>kvs. {(k, json_normal v) | k v. (k, v) \<in> set kvs \<and> v \<noteq> JUndef \<and> k \<noteq> ''__proto__''}"
  have field: "json_field kvs k = Some u \<longleftrightarrow> (k, u) \<in> ?S kvs" if "distinct (map fst kvs)" for kvs u
    using that by (auto simp: json_field_def split: option.splits dest: eq_key_imp_eq_value)
  have "?S kvs = ?S lws"
    using assms(1) unfolding set_json_members [symmetric] by (simp add: json_normal_def)
  then have "json_field kvs k = Some u \<longleftrightarrow> json_field lws k = Some u" for u
    by (simp only: field [OF assms(2)] field [OF assms(3)])
  then show ?thesis by (metis not_Some_eq)
qed

section \<open>Independence of the key order\<close>

lemma insort_key_map:
  "(\<And>x. f (g x) = f x) \<Longrightarrow> insort_key f (g x) (map g xs) = map g (insort_key f x xs)"
  by (induction xs) simp_all

lemma sort_key_map: "(\<And>x. f (g x) = f x) \<Longrightarrow> sort_key f (map g xs) = map g (sort_key f xs)"
  by (induction xs) (simp_all add: insort_key_map)

lemma own_order_map: "(\<And>x. fst (g x) = fst x) \<Longrightarrow> own_order (map g xs) = map g (own_order xs)"
  by (simp add: own_order_def filter_map comp_def sort_key_map)

lemma sort_key_same_set:
  assumes "distinct (map fst xs)" and "distinct (map fst ys)" and "set xs = set ys"
  shows "sort_key fst xs = sort_key fst ys"
proof (rule map_sorted_distinct_set_unique [where f = fst])
  show "inj_on fst (set (sort_key fst xs) \<union> set (sort_key fst ys))"
    using assms by (simp add: distinct_map)
qed (use assms in \<open>simp_all add: distinct_map\<close>)

definition live_members :: "(string \<times> jsval) list \<Rightarrow> (string \<times> jsval) list" where
  "live_members kvs =
     map (\<lambda>(k, v). (k, json_normal v)) (filter (\<lambda>(k, v). v \<noteq> JUndef \<and> k \<noteq> ''__proto__'') kvs)"

lemma json_normal_JObj: "json_normal (JObj kvs) = JObj (own_order (sort_key fst (live_members kvs)))"
proof -
  let ?can = "\<lambda>(k, v). (k :: string, canonicalize v)" and ?hol = "\<lambda>(k, v). (k :: string, holes_null v)"
    and ?live = "\<lambda>(k, v). v \<noteq> JUndef \<and> k \<noteq> ''__proto__''"
  have fst [simp]: "fst (?can x) = fst x" "fst (?hol y) = fst y" for x y by (simp_all split: prod.split)
  have live: "filter ?live (map ?can kvs) = map ?can (filter ?live kvs)"
    by (induction kvs) auto
  have "assign_sorted (map ?can kvs) = own_order (sort_key fst (filter ?live (map ?can kvs)))"
    by (simp only: assign_sorted_def filter_sort)
  also have "\<dots> = map ?can (own_order (sort_key fst (filter ?live kvs)))"
    by (simp only: live sort_key_map own_order_map fst)
  finally have "map ?hol (assign_sorted (map ?can kvs)) =
      own_order (sort_key fst (map ?hol (map ?can (filter ?live kvs))))"
    by (simp only: sort_key_map own_order_map fst)
  moreover have "map ?hol (map ?can (filter ?live kvs)) = live_members kvs"
    by (auto simp: live_members_def json_normal_def)
  ultimately show ?thesis
    by (simp add: json_normal_def canonicalize_members_map holes_null_members_map)
qed

lemma distinct_live: "distinct (map fst kvs) \<Longrightarrow> distinct (map fst (live_members kvs))"
  by (induction kvs) (force simp: live_members_def)+

lemma live_members_field:
  "distinct (map fst kvs) \<Longrightarrow> (k, u) \<in> set (live_members kvs) \<longleftrightarrow> json_field kvs k = Some u"
  by (force simp: live_members_def json_field_def split: option.splits dest: eq_key_imp_eq_value)

lemma json_normal_objects:
  assumes "distinct (map fst kvs)" and "distinct (map fst lws)"
    and "\<And>k. json_field kvs k = json_field lws k"
  shows "json_normal (JObj kvs) = json_normal (JObj lws)"
proof -
  have "set (live_members kvs) = set (live_members lws)"
    using assms by (auto simp: live_members_field)
  then show ?thesis
    unfolding json_normal_JObj
    by (simp only: sort_key_same_set [OF distinct_live [OF assms(1)] distinct_live [OF assms(2)]])
qed

section \<open>Properties\<close>

text \<open>Two objects have the same canonical text exactly when they have the same properties: the
  same keys with values that are themselves canonically equal, whatever order the keys were written
  in, a property that is undefined counting as absent. A digest of canonical JSON therefore stands for
  the content of the object and for nothing else; the one key it does not see is \<open>__proto__\<close>
  (C15).\<close>

theorem canonical_text_is_content:
  assumes "distinct (map fst kvs)" and "distinct (map fst lws)"
  shows "canonicalJsonStringify (JObj kvs) = canonicalJsonStringify (JObj lws)
     \<longleftrightarrow> (\<forall>k. json_field kvs k = json_field lws k)"
  using assms by (auto simp: canonicalJsonStringify_eq_iff intro: json_normal_objects dest: json_normal_field)

theorem canonical_text_is_content_witness:
  "canonicalJsonStringify (JObj [(''b'', JNum 1), (''10'', JUndef), (''a'', JArr [JStr ''x'', JObj []])])
   = canonicalJsonStringify (JObj [(''a'', JArr [JStr ''x'', JObj []]), (''b'', JNum 1)])"
  by (subst canonical_text_is_content) (auto simp: json_field_def)

end
