(* ===== verification/Hashing.thy ===== *)
theory Hashing
  imports Canonical_Json
begin

text \<open>The hash primitives of \<open>shared/hashing.ts\<close> and the candidate identity built on
  them (\<open>state/candidate-identity.ts\<close>).  SHA-256 itself is code of the platform:
  every definition takes it as the argument \<open>hash\<close>, a function from the hashed
  text (or bytes) to its hex digest.\<close>

definition pad_end :: "nat \<Rightarrow> char \<Rightarrow> string \<Rightarrow> string" where
  "pad_end n c s = s @ replicate (n - length s) c"

definition slice :: "nat \<Rightarrow> nat \<Rightarrow> string \<Rightarrow> string" where
  "slice i j s = drop i (take j s)"

definition is_hex :: "char \<Rightarrow> bool" where
  "is_hex c = (is_digit c \<or> (let n = (of_char c :: nat) in 97 \<le> n \<and> n \<le> 102))"

definition digestToId :: "string \<Rightarrow> nat \<Rightarrow> string" where
  "digestToId digest version =
     (let hex = slice 0 32 (pad_end 32 CHR ''0'' (filter is_hex (toLowerCase digest)))
      in slice 0 8 hex @ ''-'' @ slice 8 12 hex @ ''-'' @ show_nat version @ slice 13 16 hex
         @ ''-8'' @ slice 17 20 hex @ ''-'' @ drop 20 hex)"

definition hashTextShort :: "(string \<Rightarrow> string) \<Rightarrow> string \<Rightarrow> nat \<Rightarrow> string" where
  "hashTextShort hash t n = slice 0 n (hash t)"

text \<open>\<open>hashParts\<close> feeds the platform hash incrementally; the hashed bytes are
  \<open>frame_parts\<close>, each part preceded by its byte length and a colon.\<close>

definition frame_part :: "string \<Rightarrow> string" where
  "frame_part p = show_nat (length p) @ CHR '':'' # p"

definition frame_parts :: "string list \<Rightarrow> string" where
  "frame_parts ps = concat (map frame_part ps)"

definition hashParts :: "(string \<Rightarrow> string) \<Rightarrow> string list \<Rightarrow> string" where
  "hashParts hash ps = hash (frame_parts ps)"

definition deriveVerificationCandidateId :: "(string \<Rightarrow> string) \<Rightarrow> jsobject \<Rightarrow> string" where
  "deriveVerificationCandidateId hash candidate =
     ''vc_'' @ hash (canonicalJsonStringify (JObj candidate))"

section \<open>Framing\<close>

lemma digits_colon_unique:
  "list_all is_digit xs \<Longrightarrow> list_all is_digit ys
     \<Longrightarrow> xs @ CHR '':'' # s = ys @ CHR '':'' # t \<Longrightarrow> xs = ys \<and> s = t"
proof (induction xs arbitrary: ys)
  case Nil
  then show ?case by (cases ys) (auto simp: is_digit_def)
next
  case (Cons x xs)
  then show ?case by (cases ys) (auto simp: is_digit_def)
qed

lemma frame_part_unique: "frame_part p @ s = frame_part q @ t \<Longrightarrow> p = q \<and> s = t"
proof -
  assume "frame_part p @ s = frame_part q @ t"
  then have "show_nat (length p) @ CHR '':'' # (p @ s) = show_nat (length q) @ CHR '':'' # (q @ t)"
    by (simp add: frame_part_def)
  from digits_colon_unique [OF show_nat_digits show_nat_digits this]
  have "length p = length q" and "p @ s = q @ t" by (simp_all add: show_nat_inj)
  then show ?thesis by simp
qed

lemma frame_parts_inj: "frame_parts ps = frame_parts qs \<longleftrightarrow> ps = qs"
proof (induction ps arbitrary: qs)
  case Nil
  show ?case by (cases qs) (simp_all add: frame_parts_def frame_part_def)
next
  case (Cons p ps)
  show ?case
  proof (cases qs)
    case Nil
    then show ?thesis by (simp add: frame_parts_def frame_part_def)
  next
    case (Cons q qs')
    with Cons.IH [of qs'] frame_part_unique [of p "frame_parts ps" q "frame_parts qs'"]
    show ?thesis by (auto simp: frame_parts_def)
  qed
qed

lemma length_digestToId: "version < 10 \<Longrightarrow> length (digestToId d version) = 36"
proof -
  assume "version < 10"
  then obtain v where v: "show_nat version = [v]" by (simp add: show_nat.simps [of version])
  define h where "h = slice 0 32 (pad_end 32 CHR ''0'' (filter is_hex (toLowerCase d)))"
  have "length h = 32" by (simp add: h_def slice_def pad_end_def min_def)
  then have "length (slice 0 8 h @ ''-'' @ slice 8 12 h @ ''-'' @ [v] @ slice 13 16 h
      @ ''-8'' @ slice 17 20 h @ ''-'' @ drop 20 h) = 36"
    by (simp add: slice_def)
  then show ?thesis by (simp only: digestToId_def Let_def v h_def)
qed

section \<open>Properties\<close>





end
