(* ===== verification/Risk_Declaration.thy ===== *)
theory Risk_Declaration
  imports Hashing
begin

text \<open>Task classes (\<open>state/task-class.ts\<close>) and the ticket risk declaration
  (\<open>state/risk-declaration.ts\<close>): the line grammar, the fence scanner, the parser,
  the declared floor, the effective class and the integrity check.

  The regular expressions of the source are anchored at the start of the line and
  need no search: each is written as the chain of optional and mandatory pieces it
  consumes.  Where a piece is optional, the greedy choice is the only one that can
  succeed, since a skipped bullet, emphasis marker or \<open>class\<close> word never starts
  with a character the next piece accepts.\<close>

section \<open>Task classes\<close>

datatype task_class = TRIVIAL | STANDARD | HIGH_RISK

fun TASK_CLASS_ORDER :: "task_class \<Rightarrow> nat" where
  "TASK_CLASS_ORDER TRIVIAL = 0"
| "TASK_CLASS_ORDER STANDARD = 1"
| "TASK_CLASS_ORDER HIGH_RISK = 2"

fun task_class_name :: "task_class \<Rightarrow> string" where
  "task_class_name TRIVIAL = ''TRIVIAL''"
| "task_class_name STANDARD = ''STANDARD''"
| "task_class_name HIGH_RISK = ''HIGH-RISK''"

definition maxTaskClass :: "task_class \<Rightarrow> task_class \<Rightarrow> task_class" where
  "maxTaskClass a b = (if TASK_CLASS_ORDER b \<le> TASK_CLASS_ORDER a then a else b)"

instantiation task_class :: linorder
begin

definition less_eq_task_class :: "task_class \<Rightarrow> task_class \<Rightarrow> bool" where
  "less_eq_task_class a b = (TASK_CLASS_ORDER a \<le> TASK_CLASS_ORDER b)"

definition less_task_class :: "task_class \<Rightarrow> task_class \<Rightarrow> bool" where
  "less_task_class a b = (TASK_CLASS_ORDER a < TASK_CLASS_ORDER b)"

instance
proof
  show "x = y" if "x \<le> y" "y \<le> x" for x y :: task_class
    using that by (cases x; cases y) (simp_all add: less_eq_task_class_def)
qed (auto simp: less_eq_task_class_def less_task_class_def)

end

section \<open>Declarations\<close>

datatype risk_declaration =
    Absent
  | Declared task_class
  | Conflict "task_class list"
  | Invalid string

datatype declaration_kind = Kind_absent | Kind_declared | Kind_conflict | Kind_invalid

fun declaration_kind_of :: "risk_declaration \<Rightarrow> declaration_kind" where
  "declaration_kind_of Absent = Kind_absent"
| "declaration_kind_of (Declared _) = Kind_declared"
| "declaration_kind_of (Conflict _) = Kind_conflict"
| "declaration_kind_of (Invalid _) = Kind_invalid"

fun declaration_members :: "risk_declaration \<Rightarrow> jsobject" where
  "declaration_members Absent = [(''kind'', JStr ''absent'')]"
| "declaration_members (Declared c) =
     [(''kind'', JStr ''declared''), (''taskClass'', JStr (task_class_name c))]"
| "declaration_members (Conflict cs) =
     [(''kind'', JStr ''conflict''), (''values'', JArr (map (JStr \<circ> task_class_name) cs))]"
| "declaration_members (Invalid raw) = [(''kind'', JStr ''invalid''), (''raw'', JStr raw)]"

definition declaration_json :: "risk_declaration \<Rightarrow> jsval" where
  "declaration_json d = JObj (declaration_members d)"

section \<open>Line grammar\<close>

definition skip_ws :: "string \<Rightarrow> string" where
  "skip_ws s = dropWhile is_ws s"

definition strip_ws1 :: "string \<Rightarrow> string option" where
  "strip_ws1 s = (case s of [] \<Rightarrow> None | c # cs \<Rightarrow> if is_ws c then Some (skip_ws cs) else None)"

text \<open>\<open>(?:[-*+]\s+|#{1,6}\s+)?\<close>\<close>
definition opt_bullet :: "string \<Rightarrow> string" where
  "opt_bullet s =
     (case s of
        [] \<Rightarrow> s
      | c # cs \<Rightarrow>
          if c \<in> {CHR ''-'', CHR ''*'', CHR ''+''}
          then (case strip_ws1 cs of Some r \<Rightarrow> r | None \<Rightarrow> s)
          else if c = CHR ''#'' \<and> length (takeWhile (\<lambda>d. d = CHR ''#'') s) \<le> 6
          then (case strip_ws1 (dropWhile (\<lambda>d. d = CHR ''#'') s) of Some r \<Rightarrow> r | None \<Rightarrow> s)
          else s)"

text \<open>\<open>(?:\*\*|__)?\<close>\<close>
definition opt_emphasis :: "string \<Rightarrow> string" where
  "opt_emphasis s =
     (case strip_prefix ''**'' s of
        Some r \<Rightarrow> r
      | None \<Rightarrow> (case strip_prefix ''__'' s of Some r \<Rightarrow> r | None \<Rightarrow> s))"

definition ascii_lower :: "char \<Rightarrow> char" where
  "ascii_lower c = (if is_upper c then char_of ((of_char c :: nat) + 32) else c)"

text \<open>A literal under the \<open>i\<close> flag: on Latin-1 text only ASCII letters fold to the
  ASCII letters of the literal.\<close>
definition strip_ci :: "string \<Rightarrow> string \<Rightarrow> string option" where
  "strip_ci p s =
     (if map ascii_lower (take (length p) s) = p then Some (drop (length p) s) else None)"

text \<open>\<open>(?:risk(?:\s*class)?|risikoklasse)\<close>\<close>
definition strip_key :: "string \<Rightarrow> string option" where
  "strip_key s =
     (case strip_ci ''risk'' s of
        Some r \<Rightarrow> Some (case strip_ci ''class'' (skip_ws r) of Some r' \<Rightarrow> r' | None \<Rightarrow> r)
      | None \<Rightarrow> strip_ci ''risikoklasse'' s)"

definition strip_separator :: "string \<Rightarrow> string option" where
  "strip_separator s =
     (case s of [] \<Rightarrow> None | c # cs \<Rightarrow> if c = CHR '':'' \<or> c = CHR ''='' then Some cs else None)"

text \<open>The group of \<open>DECLARATION_LINE\<close>: None when the line does not match.  The dot does
  not match a carriage return, the one line terminator a split line can hold.\<close>
definition match_declaration_line :: "string \<Rightarrow> string option" where
  "match_declaration_line line =
     (case strip_key (skip_ws (opt_emphasis (opt_bullet (skip_ws line)))) of
        None \<Rightarrow> None
      | Some r \<Rightarrow>
          (case strip_separator (skip_ws (opt_emphasis (skip_ws r))) of
             None \<Rightarrow> None
           | Some v \<Rightarrow>
               let g = dropWhile is_blank v
               in if CHR 0x0D \<in> set g \<or> CHR 0x0A \<in> set g then None else Some g))"

text \<open>The fence token of \<open>OPEN_FENCE\<close> and \<open>CLOSE_FENCE\<close>, with the text after it.\<close>
definition match_fence :: "string \<Rightarrow> (string \<times> string) option" where
  "match_fence line =
     (let ind = takeWhile (\<lambda>c. c = CHR '' '') line; r = drop (length ind) line
      in if 3 < length ind then None
         else (case r of
                 [] \<Rightarrow> None
               | c # _ \<Rightarrow>
                   let tok = takeWhile (\<lambda>d. d = c) r
                   in if (c = CHR 0x60 \<or> c = CHR ''~'') \<and> 3 \<le> length tok
                      then Some (tok, drop (length tok) r) else None))"

definition OPEN_FENCE :: "string \<Rightarrow> string option" where
  "OPEN_FENCE line = map_option fst (match_fence line)"

definition CLOSE_FENCE :: "string \<Rightarrow> string option" where
  "CLOSE_FENCE line =
     (case match_fence line of
        Some (tok, r) \<Rightarrow> if list_all is_blank r then Some tok else None
      | None \<Rightarrow> None)"

definition isClosingFence :: "string \<Rightarrow> string \<Rightarrow> bool" where
  "isClosingFence line fence =
     (case CLOSE_FENCE line of
        None \<Rightarrow> False
      | Some tok \<Rightarrow> at tok 0 = at fence 0 \<and> length fence \<le> length tok)"

text \<open>\<open>/^\s*>/\<close> and \<open>/^(?: {4,}|\t)/\<close>\<close>
definition is_quote_line :: "string \<Rightarrow> bool" where
  "is_quote_line line = starts_with ''>'' (skip_ws line)"

definition is_indented_code :: "string \<Rightarrow> bool" where
  "is_indented_code line = (starts_with ''    '' line \<or> starts_with [CHR 0x09] line)"

definition scanDeclarationLine :: "string \<Rightarrow> string option \<Rightarrow> string option \<times> bool" where
  "scanDeclarationLine line fence =
     (case fence of
        Some f \<Rightarrow> (if isClosingFence line f then None else Some f, True)
      | None \<Rightarrow>
          (case OPEN_FENCE line of
             Some tok \<Rightarrow> (Some tok, True)
           | None \<Rightarrow>
               if is_quote_line line then (None, True)
               else if is_indented_code line then (None, True)
               else (None, False)))"

section \<open>Parser\<close>

text \<open>A class token ends where no word character or hyphen follows.\<close>
definition token_ends :: "string \<Rightarrow> bool" where
  "token_ends r = (case r of [] \<Rightarrow> True | c # _ \<Rightarrow> \<not> is_word c \<and> c \<noteq> CHR ''-'')"

definition has_token :: "string \<Rightarrow> string \<Rightarrow> bool" where
  "has_token p s = (case strip_prefix p s of Some r \<Rightarrow> token_ends r | None \<Rightarrow> False)"

definition has_high_risk_token :: "string \<Rightarrow> bool" where
  "has_high_risk_token s =
     (case strip_prefix ''HIGH'' s of
        Some (c # r) \<Rightarrow> (is_ws c \<or> c = CHR ''-'') \<and> has_token ''RISK'' r
      | _ \<Rightarrow> False)"

definition parseDeclarationValue :: "string \<Rightarrow> task_class option" where
  "parseDeclarationValue raw =
     (let blanked = map (\<lambda>c. if c \<in> {CHR ''*'', CHR ''_'', CHR 0x60} then CHR '' '' else c) raw;
          cleaned = toUpperCase (trim blanked)
      in if has_high_risk_token cleaned then Some HIGH_RISK
         else if has_token ''TRIVIAL'' cleaned then Some TRIVIAL
         else if has_token ''STANDARD'' cleaned then Some STANDARD
         else None)"

definition EMPTY_DECLARATION_RAW :: string where
  "EMPTY_DECLARATION_RAW = ''(no value)''"

fun collect_lines ::
  "string list \<Rightarrow> string option \<Rightarrow> task_class list \<times> string list" where
  "collect_lines [] fence = ([], [])"
| "collect_lines (line # rest) fence =
     (let (fence', skip) = scanDeclarationLine line fence;
          (values, invalid_raw) = collect_lines rest fence'
      in if skip then (values, invalid_raw)
         else (case match_declaration_line line of
                 None \<Rightarrow> (values, invalid_raw)
               | Some grp \<Rightarrow>
                   let raw = trim grp
                   in (case parseDeclarationValue raw of
                         None \<Rightarrow> (values, (if raw = [] then EMPTY_DECLARATION_RAW else raw) # invalid_raw)
                       | Some c \<Rightarrow> (c # values, invalid_raw))))"

definition collectDeclarationLines :: "string \<Rightarrow> task_class list \<times> string list" where
  "collectDeclarationLines txt = collect_lines (split_lines txt) None"

text \<open>\<open>[...new Set(values)].sort((a, b) => ORDER[b] - ORDER[a])\<close>: the distinct classes,
  highest first.\<close>
definition unique_descending :: "task_class list \<Rightarrow> task_class list" where
  "unique_descending cs = rev (sorted_list_of_set (set cs))"

definition parseTicketRiskDeclaration :: "string \<Rightarrow> risk_declaration" where
  "parseTicketRiskDeclaration txt =
     (let (values, invalid_raw) = collectDeclarationLines txt
      in if invalid_raw \<noteq> [] then Invalid (join ''; '' invalid_raw)
         else if values = [] then Absent
         else (let unique = unique_descending values
               in (case unique of [c] \<Rightarrow> Declared c | _ \<Rightarrow> Conflict unique)))"

section \<open>Floor, effective class and integrity\<close>

text \<open>\<open>values.reduce(max)\<close> without an initial value throws on the empty array; the schema
  admits conflicts of at least two values.\<close>
fun reduce_max :: "task_class list \<Rightarrow> task_class option" where
  "reduce_max [] = None"
| "reduce_max (c # cs) = Some (foldl maxTaskClass c cs)"

fun ticketRiskDeclarationFloor :: "risk_declaration \<Rightarrow> task_class option" where
  "ticketRiskDeclarationFloor (Declared c) = Some c"
| "ticketRiskDeclarationFloor (Conflict cs) = reduce_max cs"
| "ticketRiskDeclarationFloor Absent = None"
| "ticketRiskDeclarationFloor (Invalid _) = None"

definition resolveEffectiveTaskClass ::
  "task_class \<Rightarrow> risk_declaration \<Rightarrow> task_class option \<Rightarrow> task_class" where
  "resolveEffectiveTaskClass computed declaration escalated =
     (let e1 = (case ticketRiskDeclarationFloor declaration of
                  None \<Rightarrow> computed
                | Some f \<Rightarrow> maxTaskClass computed f)
      in (case escalated of None \<Rightarrow> e1 | Some c \<Rightarrow> maxTaskClass e1 c))"

record ticket_evidence =
  tk_text :: string
  tk_digest :: string
  tk_source :: string
  tk_createdAt :: string
  tk_inputOrigin :: "string option"
  tk_references :: "jsval list option"
  tk_riskDeclaration :: risk_declaration

definition verifyTicketRiskDeclarationIntegrity ::
  "(string \<Rightarrow> string) \<Rightarrow> ticket_evidence \<Rightarrow> bool" where
  "verifyTicketRiskDeclarationIntegrity hash t =
     (if tk_digest t \<noteq> hash (tk_text t) then False
      else canonicalJsonStringify (declaration_json (parseTicketRiskDeclaration (tk_text t)))
         = canonicalJsonStringify (declaration_json (tk_riskDeclaration t)))"

section \<open>Lemmas\<close>

lemma maxTaskClass_max: "maxTaskClass a b = max a b"
  by (cases a; cases b) (simp_all add: maxTaskClass_def max_def less_eq_task_class_def)

lemma foldl_max: "foldl maxTaskClass c cs = Max (insert c (set cs))"
proof (induction cs arbitrary: c)
  case (Cons d cs)
  have "Max (insert (max c d) (set cs)) = Max (insert c (insert d (set cs)))"
    by (cases "cs = []") (auto simp: Max_insert max.assoc)
  with Cons show ?case by (simp add: maxTaskClass_max)
qed simp

lemma floor_Conflict: "cs \<noteq> [] \<Longrightarrow> ticketRiskDeclarationFloor (Conflict cs) = Some (Max (set cs))"
  by (cases cs) (simp_all add: foldl_max)

lemma effective_eq_Max:
  "resolveEffectiveTaskClass computed d esc =
     Max ({computed} \<union> set_option (ticketRiskDeclarationFloor d) \<union> set_option esc)"
  by (cases "ticketRiskDeclarationFloor d"; cases esc)
    (simp_all add: resolveEffectiveTaskClass_def maxTaskClass_max max.commute max.left_commute max.assoc)

lemma effective_TRIVIAL:
  assumes "resolveEffectiveTaskClass computed d esc = TRIVIAL"
  shows "computed = TRIVIAL \<and> (\<forall>f \<in> set_option (ticketRiskDeclarationFloor d). f = TRIVIAL)
      \<and> (\<forall>e \<in> set_option esc. e = TRIVIAL)"
proof -
  have bot: "c \<le> TRIVIAL \<Longrightarrow> c = TRIVIAL" for c
    by (cases c) (simp_all add: less_eq_task_class_def)
  have "x \<le> TRIVIAL"
    if "x \<in> {computed} \<union> set_option (ticketRiskDeclarationFloor d) \<union> set_option esc" for x
    using Max_ge [OF _ that] assms unfolding effective_eq_Max by simp
  with bot show ?thesis by auto
qed

lemma task_class_name_inj: "task_class_name a = task_class_name b \<longleftrightarrow> a = b"
  by (cases a; cases b) simp_all

lemma unique_descending_sorted: "sorted_wrt (>) (unique_descending cs)"
  using strict_sorted_list_of_set [of "set cs"]
  by (simp add: unique_descending_def sorted_wrt_rev)

lemma set_unique_descending: "set (unique_descending cs) = set cs"
  by (simp add: unique_descending_def)

fun kind_name :: "risk_declaration \<Rightarrow> string" where
  "kind_name Absent = ''absent''"
| "kind_name (Declared _) = ''declared''"
| "kind_name (Conflict _) = ''conflict''"
| "kind_name (Invalid _) = ''invalid''"

lemma declaration_fields:
  "json_field (declaration_members d) ''kind'' = Some (JStr (kind_name d))"
  "json_field (declaration_members (Declared c)) ''taskClass'' = Some (JStr (task_class_name c))"
  "json_field (declaration_members (Conflict cs)) ''values'' =
     Some (JArr (map (JStr \<circ> task_class_name) cs))"
  "json_field (declaration_members (Invalid raw)) ''raw'' = Some (JStr raw)"
  by (cases d) (simp_all add: json_field_def comp_def)

lemma task_class_names_inj:
  "map (JStr \<circ> task_class_name) cs = map (JStr \<circ> task_class_name) ds \<longleftrightarrow> cs = ds"
  by (rule inj_map_eq_map, rule injI) (simp add: task_class_name_inj)

lemma declaration_json_inj:
  assumes "json_normal (declaration_json d) = json_normal (declaration_json e)"
  shows "d = e"
proof -
  have "distinct (map fst (declaration_members d))" for d by (cases d) simp_all
  with assms have field: "json_field (declaration_members d) k = json_field (declaration_members e) k" for k
    unfolding declaration_json_def by (intro json_normal_field)
  from field [of "''kind''"] have kind: "kind_name d = kind_name e"
    by (simp add: declaration_fields)
  show ?thesis
  proof (cases d)
    case Absent
    with kind show ?thesis by (cases e) simp_all
  next
    case (Declared c)
    with kind obtain c' where e: "e = Declared c'" by (cases e) simp_all
    from field [of "''taskClass''"] show ?thesis
      by (simp only: Declared e declaration_fields option.inject jsval.inject task_class_name_inj)
  next
    case (Conflict cs)
    with kind obtain cs' where e: "e = Conflict cs'" by (cases e) simp_all
    from field [of "''values''"] show ?thesis
      by (simp only: Conflict e declaration_fields option.inject jsval.inject task_class_names_inj)
  next
    case (Invalid raw)
    with kind obtain raw' where e: "e = Invalid raw'" by (cases e) simp_all
    from field [of "''raw''"] show ?thesis
      by (simp only: Invalid e declaration_fields option.inject jsval.inject)
  qed
qed

lemma declaration_integrity_iff:
  "verifyTicketRiskDeclarationIntegrity hash t \<longleftrightarrow>
     tk_digest t = hash (tk_text t) \<and>
     tk_riskDeclaration t = parseTicketRiskDeclaration (tk_text t)"
  by (auto simp: verifyTicketRiskDeclarationIntegrity_def canonicalJsonStringify_eq_iff
      dest: declaration_json_inj)

text \<open>What the parser can return: a conflict always lists at least two classes, strictly
  descending, and an invalid declaration always shows a reason.\<close>

fun declaration_wf :: "risk_declaration \<Rightarrow> bool" where
  "declaration_wf Absent = True"
| "declaration_wf (Declared _) = True"
| "declaration_wf (Conflict cs) = (2 \<le> length cs \<and> sorted_wrt (>) cs)"
| "declaration_wf (Invalid raw) = (raw \<noteq> [])"

lemma invalid_raw_nonempty: "collect_lines ls fence = (vs, raws) \<Longrightarrow> [] \<notin> set raws"
proof (induction ls arbitrary: fence vs raws)
  case (Cons line ls)
  show ?case
  proof (cases "scanDeclarationLine line fence")
    case (Pair fence' skip)
    obtain vs' raws' where rec: "collect_lines ls fence' = (vs', raws')" by fastforce
    with Cons.IH have "[] \<notin> set raws'" by blast
    with Cons.prems Pair rec show ?thesis
      by (auto simp: Let_def EMPTY_DECLARATION_RAW_def split: if_splits option.splits)
  qed
qed simp

lemma join_nonempty: "ws \<noteq> [] \<Longrightarrow> [] \<notin> set ws \<Longrightarrow> join sep ws \<noteq> []"
  by (induction sep ws rule: join.induct) auto

lemma parse_declaration_wf: "declaration_wf (parseTicketRiskDeclaration txt)"
proof -
  obtain vs raws where c: "collectDeclarationLines txt = (vs, raws)" by fastforce
  then have raws: "[] \<notin> set raws"
    using invalid_raw_nonempty by (auto simp: collectDeclarationLines_def)
  have len: "2 \<le> length us" if "us = unique_descending vs" "us \<noteq> []" "\<nexists>c. us = [c]" for us
    using that(2,3) by (cases us rule: remdups_adj.cases) simp_all
  have ne: "vs \<noteq> [] \<Longrightarrow> unique_descending vs \<noteq> []"
    using set_unique_descending [of vs] by auto
  show ?thesis
    using raws ne unique_descending_sorted [of vs] len
    by (auto simp: parseTicketRiskDeclaration_def c join_nonempty Let_def split: list.splits)
qed

lemma floor_parse:
  assumes "snd (collectDeclarationLines txt) = []"
  shows "ticketRiskDeclarationFloor (parseTicketRiskDeclaration txt) =
     (let vs = fst (collectDeclarationLines txt) in if vs = [] then None else Some (Max (set vs)))"
proof -
  obtain vs where c: "collectDeclarationLines txt = (vs, [])" using assms by (metis prod.collapse)
  show ?thesis
  proof (cases "unique_descending vs")
    case Nil
    then show ?thesis
      using set_unique_descending [of vs] by (simp add: c parseTicketRiskDeclaration_def)
  next
    case (Cons u us)
    then have "set vs = set (u # us)" "vs \<noteq> []"
      using set_unique_descending [of vs] by auto
    then show ?thesis
      using Cons floor_Conflict [of "u # us"]
      by (cases us) (simp_all add: c parseTicketRiskDeclaration_def Let_def)
  qed
qed

section \<open>Properties\<close>

text \<open>The effective task class is the highest of the computed class, every class the ticket text
  declares, and the escalated class; a ticket with an unreadable declaration has no floor at all and is
  reported as invalid with its text (C18).\<close>

theorem effective_class_is_highest:
  "resolveEffectiveTaskClass computed (parseTicketRiskDeclaration txt) escalated =
     (if snd (collectDeclarationLines txt) = []
      then Max ({computed} \<union> set (fst (collectDeclarationLines txt)) \<union> set_option escalated)
      else Max ({computed} \<union> set_option escalated)) \<and>
   (snd (collectDeclarationLines txt) \<noteq> []) = (declaration_kind_of (parseTicketRiskDeclaration txt) = Kind_invalid)"
proof (cases "snd (collectDeclarationLines txt) = []")
  case True
  have "declaration_kind_of (parseTicketRiskDeclaration txt) \<noteq> Kind_invalid"
    using True by (auto simp: parseTicketRiskDeclaration_def Let_def split: prod.splits list.splits)
  moreover have "Max ({computed} \<union> set_option (ticketRiskDeclarationFloor (parseTicketRiskDeclaration txt)) \<union> set_option escalated)
      = Max ({computed} \<union> set (fst (collectDeclarationLines txt)) \<union> set_option escalated)"
  proof (cases "fst (collectDeclarationLines txt) = []")
    case False
    then have "Max (insert (Max (set (fst (collectDeclarationLines txt)))) ({computed} \<union> set_option escalated))
        = Max (set (fst (collectDeclarationLines txt)) \<union> ({computed} \<union> set_option escalated))"
      by (subst Max_Un) (simp_all add: Max_insert)
    then show ?thesis
      using False by (simp add: floor_parse [OF True] Let_def insert_commute Un_commute)
  qed (simp add: floor_parse [OF True])
  ultimately show ?thesis using True by (simp add: effective_eq_Max)
next
  case False
  then have inv: "parseTicketRiskDeclaration txt = Invalid (join ''; '' (snd (collectDeclarationLines txt)))"
    by (auto simp: parseTicketRiskDeclaration_def Let_def split: prod.splits)
  show ?thesis using False by (simp add: inv effective_eq_Max)
qed

text \<open>A stored declaration passes the integrity check exactly when the stored digest is the
  digest of the stored text and the stored declaration is what the parser reads from that text: no other
  declaration survives, whatever was written to the session (C19).\<close>

theorem declaration_integrity:
  "verifyTicketRiskDeclarationIntegrity hash t =
     (tk_digest t = hash (tk_text t) \<and> tk_riskDeclaration t = parseTicketRiskDeclaration (tk_text t))"
  by (rule declaration_integrity_iff)

text \<open>What the parser returns satisfies the schema: a conflict lists at least two classes,
  strictly descending and without repeats, and an invalid declaration always shows some text (C20).\<close>

theorem parsed_declaration_valid:
  "declaration_wf (parseTicketRiskDeclaration txt)"
  by (rule parse_declaration_wf)

end
