(* ===== verification/Regex.thy ===== *)
theory Regex
  imports JS_Text
begin

text \<open>The regular expressions of the path classifier as data, with an executable
  matcher.  A tested string is read between two sentinels, so that the anchors are
  ordinary symbols: \<open>^\<close> is the atom \<open>Bol\<close> that only the first sentinel satisfies and
  \<open>$\<close> is \<open>Eol\<close>.  \<open>test\<close> is \<open>RegExp.prototype.test\<close> (search anywhere), computed with
  derivatives; \<open>test_iff\<close> says it decides the language.

  \<open>Dot\<close> is any character but a line terminator, \<open>NoSlash\<close> is \<open>[^/]\<close>.\<close>

datatype sym = Beg | End | Ch char

datatype atom =
    Lit char
  | Dot
  | NoSlash
  | OneOf "char list"
  | Bol
  | Eol

fun atom_ok :: "atom \<Rightarrow> sym \<Rightarrow> bool" where
  "atom_ok (Lit c) x = (x = Ch c)"
| "atom_ok Dot x = (case x of Ch c \<Rightarrow> c \<noteq> CHR 0x0A \<and> c \<noteq> CHR 0x0D | _ \<Rightarrow> False)"
| "atom_ok NoSlash x = (case x of Ch c \<Rightarrow> c \<noteq> CHR ''/'' | _ \<Rightarrow> False)"
| "atom_ok (OneOf cs) x = (case x of Ch c \<Rightarrow> c \<in> set cs | _ \<Rightarrow> False)"
| "atom_ok Bol x = (x = Beg)"
| "atom_ok Eol x = (x = End)"

datatype rx = Fail | Empty | At atom | Alt rx rx | Cat rx rx | Rep rx

section \<open>Language\<close>

inductive rx_lang :: "rx \<Rightarrow> sym list \<Rightarrow> bool" where
  lang_Empty: "rx_lang Empty []"
| lang_At: "atom_ok a x \<Longrightarrow> rx_lang (At a) [x]"
| lang_Alt1: "rx_lang r w \<Longrightarrow> rx_lang (Alt r s) w"
| lang_Alt2: "rx_lang s w \<Longrightarrow> rx_lang (Alt r s) w"
| lang_Cat: "rx_lang r u \<Longrightarrow> rx_lang s v \<Longrightarrow> rx_lang (Cat r s) (u @ v)"
| lang_Rep0: "rx_lang (Rep r) []"
| lang_Rep: "rx_lang r u \<Longrightarrow> rx_lang (Rep r) v \<Longrightarrow> rx_lang (Rep r) (u @ v)"

inductive_simps lang_Fail_iff [simp]: "rx_lang Fail w"
inductive_simps lang_Empty_iff [simp]: "rx_lang Empty w"
inductive_simps lang_At_iff: "rx_lang (At a) w"
inductive_simps lang_Alt_iff [simp]: "rx_lang (Alt r s) w"
inductive_simps lang_Cat_iff: "rx_lang (Cat r s) w"
inductive_cases lang_RepE: "rx_lang (Rep r) w"

section \<open>Matcher\<close>

fun nullable :: "rx \<Rightarrow> bool" where
  "nullable Fail = False"
| "nullable Empty = True"
| "nullable (At _) = False"
| "nullable (Alt r s) = (nullable r \<or> nullable s)"
| "nullable (Cat r s) = (nullable r \<and> nullable s)"
| "nullable (Rep _) = True"

text \<open>Smart constructors keep the derivatives small.\<close>

fun alt :: "rx \<Rightarrow> rx \<Rightarrow> rx" where
  "alt Fail s = s"
| "alt r Fail = r"
| "alt r s = Alt r s"

fun cat :: "rx \<Rightarrow> rx \<Rightarrow> rx" where
  "cat Fail s = Fail"
| "cat Empty s = s"
| "cat r s = Cat r s"

fun residue :: "sym \<Rightarrow> rx \<Rightarrow> rx" where
  "residue x Fail = Fail"
| "residue x Empty = Fail"
| "residue x (At a) = (if atom_ok a x then Empty else Fail)"
| "residue x (Alt r s) = alt (residue x r) (residue x s)"
| "residue x (Cat r s) =
     (let d = cat (residue x r) s in if nullable r then alt d (residue x s) else d)"
| "residue x (Rep r) = cat (residue x r) (Rep r)"

definition accepts :: "rx \<Rightarrow> sym list \<Rightarrow> bool" where
  "accepts r w = nullable (foldl (\<lambda>q x. residue x q) r w)"

text \<open>Search: some prefix of the remaining symbols matches.\<close>

fun accepts_prefix :: "rx \<Rightarrow> sym list \<Rightarrow> bool" where
  "accepts_prefix r [] = nullable r"
| "accepts_prefix r (x # xs) = (nullable r \<or> (r \<noteq> Fail \<and> accepts_prefix (residue x r) xs))"

fun search :: "rx \<Rightarrow> sym list \<Rightarrow> bool" where
  "search r [] = nullable r"
| "search r (x # xs) = (accepts_prefix r (x # xs) \<or> search r xs)"

definition bracket :: "string \<Rightarrow> sym list" where
  "bracket s = Beg # map Ch s @ [End]"

definition test :: "rx \<Rightarrow> string \<Rightarrow> bool" where
  "test r s = search r (bracket s)"

section \<open>Building blocks\<close>

fun word :: "string \<Rightarrow> rx" where
  "word [] = Empty"
| "word [c] = At (Lit c)"
| "word (c # d # cs) = Cat (At (Lit c)) (word (d # cs))"

fun one_of :: "rx list \<Rightarrow> rx" where
  "one_of [] = Fail"
| "one_of [r] = r"
| "one_of (r # s # rs) = Alt r (one_of (s # rs))"

fun seq_of :: "rx list \<Rightarrow> rx" where
  "seq_of [] = Empty"
| "seq_of [r] = r"
| "seq_of (r # s # rs) = Cat r (seq_of (s # rs))"

definition opt :: "rx \<Rightarrow> rx" where
  "opt r = Alt r Empty"

definition words :: "string list \<Rightarrow> rx" where
  "words ws = one_of (map word ws)"

definition dots :: rx where
  "dots = Rep (At Dot)"

text \<open>\<open>(^|\/)\<close>\<close>
definition seg_start :: rx where
  "seg_start = Alt (At Bol) (At (Lit CHR ''/''))"

section \<open>Correctness\<close>

lemma nullable_iff: "nullable r \<longleftrightarrow> rx_lang r []"
  by (induction r) (auto simp: lang_At_iff lang_Cat_iff intro: lang_Rep0)

lemma lang_alt [simp]: "rx_lang (alt r s) w \<longleftrightarrow> rx_lang r w \<or> rx_lang s w"
  by (induction r s rule: alt.induct) auto

lemma lang_cat [simp]: "rx_lang (cat r s) w \<longleftrightarrow> rx_lang (Cat r s) w"
  by (induction r s rule: cat.induct) (auto simp: lang_Cat_iff)

lemma lang_Rep_Cons:
  "rx_lang (Rep r) (x # w) \<longleftrightarrow> (\<exists>u v. w = u @ v \<and> rx_lang r (x # u) \<and> rx_lang (Rep r) v)"
proof
  have "\<exists>u v. w = u @ v \<and> rx_lang r (x # u) \<and> rx_lang (Rep r) v"
    if "rx_lang q y" "q = Rep r" "y = x # w" for q y
    using that
  proof (induction arbitrary: w rule: rx_lang.induct)
    case (lang_Rep r' u v)
    then show ?case by (cases u) auto
  qed auto
  then show "rx_lang (Rep r) (x # w) \<Longrightarrow>
      \<exists>u v. w = u @ v \<and> rx_lang r (x # u) \<and> rx_lang (Rep r) v" by blast
next
  assume "\<exists>u v. w = u @ v \<and> rx_lang r (x # u) \<and> rx_lang (Rep r) v"
  then show "rx_lang (Rep r) (x # w)" using lang_Rep [of r "x # _"] by fastforce
qed

lemma residue_iff: "rx_lang (residue x r) w \<longleftrightarrow> rx_lang r (x # w)"
proof (induction r arbitrary: w)
  case (Cat r s)
  then show ?case
    by (auto simp: Let_def lang_Cat_iff nullable_iff Cons_eq_append_conv)
next
  case (Rep r)
  then show ?case by (auto simp: lang_Rep_Cons lang_Cat_iff)
qed (auto simp: lang_At_iff)

lemma accepts_iff: "accepts r w \<longleftrightarrow> rx_lang r w"
  by (induction w arbitrary: r) (simp_all add: accepts_def nullable_iff residue_iff)

lemma accepts_prefix_iff: "accepts_prefix r w \<longleftrightarrow> (\<exists>u v. w = u @ v \<and> rx_lang r u)"
proof (induction w arbitrary: r)
  case Nil
  then show ?case by (simp add: nullable_iff)
next
  case (Cons x w)
  have "(\<exists>u v. x # w = u @ v \<and> rx_lang r u) \<longleftrightarrow>
      rx_lang r [] \<or> (\<exists>u v. w = u @ v \<and> rx_lang r (x # u))"
    by (auto simp: Cons_eq_append_conv)
  with Cons show ?case by (auto simp: nullable_iff residue_iff)
qed

lemma search_iff: "search r w \<longleftrightarrow> (\<exists>t u v. w = t @ u @ v \<and> rx_lang r u)"
proof (induction w)
  case Nil
  then show ?case by (simp add: nullable_iff)
next
  case (Cons x w)
  have "(\<exists>t u v. x # w = t @ u @ v \<and> rx_lang r u) \<longleftrightarrow>
      (\<exists>u v. x # w = u @ v \<and> rx_lang r u) \<or> (\<exists>t u v. w = t @ u @ v \<and> rx_lang r u)"
  proof
    assume "\<exists>t u v. x # w = t @ u @ v \<and> rx_lang r u"
    then obtain t u v where *: "x # w = t @ u @ v" "rx_lang r u" by blast
    then show "(\<exists>u v. x # w = u @ v \<and> rx_lang r u) \<or> (\<exists>t u v. w = t @ u @ v \<and> rx_lang r u)"
      by (cases t) auto
  next
    assume "(\<exists>u v. x # w = u @ v \<and> rx_lang r u) \<or> (\<exists>t u v. w = t @ u @ v \<and> rx_lang r u)"
    then show "\<exists>t u v. x # w = t @ u @ v \<and> rx_lang r u"
      by (metis append_Cons append_Nil)
  qed
  with Cons.IH show ?case by (simp only: search.simps accepts_prefix_iff)
qed

lemma test_iff: "test r s \<longleftrightarrow> (\<exists>t u v. bracket s = t @ u @ v \<and> rx_lang r u)"
  by (simp add: test_def search_iff)

lemma lang_word: "rx_lang (word w) (map Ch w)"
  by (induction w rule: word.induct)
    (auto simp: lang_At_iff lang_Cat_iff intro!: exI [of _ "[Ch _]"])

lemma lang_word_iff: "rx_lang (word w) u \<longleftrightarrow> u = map Ch w"
  by (induction w arbitrary: u rule: word.induct) (auto simp: lang_At_iff lang_Cat_iff)

lemma lang_one_of: "rx_lang (one_of rs) u \<longleftrightarrow> (\<exists>r \<in> set rs. rx_lang r u)"
  by (induction rs rule: one_of.induct) auto

lemma lang_words: "rx_lang (words ws) u \<longleftrightarrow> (\<exists>w \<in> set ws. u = map Ch w)"
  by (simp add: words_def lang_one_of lang_word_iff)

lemma lang_seq_of2: "rx_lang (seq_of [r, s]) u \<longleftrightarrow> (\<exists>a b. u = a @ b \<and> rx_lang r a \<and> rx_lang s b)"
  by (simp add: lang_Cat_iff)

text \<open>A whole path segment anywhere in the string: between a start (or slash) and an
  end (or slash).\<close>

lemma bracket_segment:
  assumes "s = pre @ w @ post"
    and "pre = [] \<or> last pre = CHR ''/''" and "post = [] \<or> hd post = CHR ''/''"
  obtains t a v where "bracket s = t @ (a # map Ch w @ [if post = [] then End else Ch CHR ''/'']) @ v"
    and "rx_lang seg_start [a]"
proof -
  define t where "t = (if pre = [] then [] else Beg # map Ch (butlast pre))"
  define a where "a = (if pre = [] then Beg else Ch CHR ''/'')"
  define b where "b = (if post = [] then End else Ch CHR ''/'')"
  define v where "v = (if post = [] then [] else map Ch (tl post) @ [End])"
  have front: "Beg # map Ch pre = t @ [a]"
  proof (cases pre rule: rev_cases)
    case (snoc pre' c)
    with assms(2) show ?thesis by (simp add: t_def a_def)
  qed (simp add: t_def a_def)
  have rear: "map Ch post @ [End] = b # v"
    using assms(3) by (cases post) (auto simp: b_def v_def)
  have "bracket s = (Beg # map Ch pre) @ map Ch w @ (map Ch post @ [End])"
    by (simp add: bracket_def assms(1))
  also have "\<dots> = t @ [a] @ map Ch w @ [b] @ v"
    by (simp only: front rear) simp
  finally have "bracket s = t @ [a] @ map Ch w @ [b] @ v" .
  moreover have "rx_lang seg_start [a]"
    by (simp add: seg_start_def a_def lang_At_iff)
  ultimately show thesis using that [of t a v] by (simp add: b_def)
qed

text \<open>A search that starts at a segment: the expression after \<open>seg_start\<close> has to accept
  the segment and what closes it.\<close>

lemma test_segment:
  assumes "s = pre @ w @ post"
    and "pre = [] \<or> last pre = CHR ''/''" and "post = [] \<or> hd post = CHR ''/''"
    and "rx_lang r (map Ch w @ [if post = [] then End else Ch CHR ''/''])"
  shows "test (Cat seg_start r) s"
proof -
  obtain t a v where "bracket s = t @ (a # map Ch w @ [if post = [] then End else Ch CHR ''/'']) @ v"
    and a: "rx_lang seg_start [a]"
    using bracket_segment [OF assms(1-3)] by metis
  moreover have "rx_lang (Cat seg_start r) (a # map Ch w @ [if post = [] then End else Ch CHR ''/''])"
    using lang_Cat [OF a assms(4)] by simp
  ultimately show ?thesis unfolding test_iff by blast
qed

end
