(* ===== verification/Repo_Path.thy ===== *)
theory Repo_Path
  imports JS_Text
begin

text \<open>Logical repository paths and the repository glob (\<open>shared/repo-path.ts\<close>).

  Both glob levels of the source, \<open>*\<close> inside a segment and \<open>**\<close> over segments, run the
  same table: row after row over the pattern, cell \<open>i\<close> telling whether the pattern read
  so far matches the first \<open>i\<close> items.  \<open>wild_row\<close> is one row, \<open>wild_match\<close> the loop.
  \<open>glob_lang\<close> is the meaning of a pattern, and \<open>wild_match_iff\<close> the agreement.\<close>

definition normalizeRepoRelativePath :: "string \<Rightarrow> string" where
  "normalizeRepoRelativePath v =
     (let slashed = map (\<lambda>c. if c = CHR 0x5C then CHR ''/'' else c) v
      in (case strip_prefix ''./'' slashed of Some r \<Rightarrow> r | None \<Rightarrow> slashed))"

section \<open>Tables\<close>

text \<open>\<open>cells star hit vs diag ups left\<close>: the cells of the next row for the items \<open>vs\<close>,
  where \<open>diag\<close> is \<open>previous[i - 1]\<close>, \<open>ups\<close> starts at \<open>previous[i]\<close> and \<open>left\<close> is
  \<open>next[i - 1]\<close>.\<close>

fun cells :: "bool \<Rightarrow> ('v \<Rightarrow> bool) \<Rightarrow> 'v list \<Rightarrow> bool \<Rightarrow> bool list \<Rightarrow> bool \<Rightarrow> bool list" where
  "cells star hit (v # vs) diag (up # ups) left =
     (let n = (if star then up \<or> left else diag \<and> hit v)
      in n # cells star hit vs up ups n)"
| "cells star hit _ _ _ _ = []"

definition wild_row :: "bool \<Rightarrow> ('v \<Rightarrow> bool) \<Rightarrow> 'v list \<Rightarrow> bool list \<Rightarrow> bool list" where
  "wild_row star hit vs previous =
     (let first = (star \<and> hd previous)
      in first # cells star hit vs (hd previous) (tl previous) first)"

definition wild_match ::
  "('t \<Rightarrow> bool) \<Rightarrow> ('t \<Rightarrow> 'v \<Rightarrow> bool) \<Rightarrow> 't list \<Rightarrow> 'v list \<Rightarrow> bool" where
  "wild_match star hit ts vs =
     last (foldl (\<lambda>previous t. wild_row (star t) (hit t) vs previous)
             (True # replicate (length vs) False) ts)"

definition matchesSegment :: "string \<Rightarrow> string \<Rightarrow> bool" where
  "matchesSegment pattern v = wild_match (\<lambda>t. t = CHR ''*'') (\<lambda>t c. t = c) pattern v"

definition matchesRepositoryGlob :: "string \<Rightarrow> string \<Rightarrow> bool" where
  "matchesRepositoryGlob pattern v =
     wild_match (\<lambda>part. part = ''**'') matchesSegment
       (split_on CHR ''/'' pattern) (split_on CHR ''/'' v)"

section \<open>Meaning of a pattern\<close>

definition tok_lang :: "('t \<Rightarrow> bool) \<Rightarrow> ('t \<Rightarrow> 'v \<Rightarrow> bool) \<Rightarrow> 't \<Rightarrow> 'v list \<Rightarrow> bool" where
  "tok_lang star hit t us = (star t \<or> (\<exists>v. us = [v] \<and> hit t v))"

fun glob_lang :: "('t \<Rightarrow> bool) \<Rightarrow> ('t \<Rightarrow> 'v \<Rightarrow> bool) \<Rightarrow> 't list \<Rightarrow> 'v list \<Rightarrow> bool" where
  "glob_lang star hit [] vs = (vs = [])"
| "glob_lang star hit (t # ts) vs =
     (\<exists>us ws. vs = us @ ws \<and> tok_lang star hit t us \<and> glob_lang star hit ts ws)"

lemma glob_lang_snoc:
  "glob_lang star hit (ts @ [t]) vs \<longleftrightarrow>
     (\<exists>us ws. vs = us @ ws \<and> glob_lang star hit ts us \<and> tok_lang star hit t ws)"
proof (induction ts arbitrary: vs)
  case Nil
  show ?case by auto
next
  case (Cons s ts)
  show ?case by (simp add: Cons) (metis append.assoc)
qed

lemma take_prefix_ex:
  assumes "i \<le> length vs"
  shows "(\<exists>us ws. take i vs = us @ ws \<and> P us) \<longleftrightarrow> (\<exists>j \<le> i. P (take j vs))"
proof
  assume "\<exists>us ws. take i vs = us @ ws \<and> P us"
  then obtain us ws where *: "take i vs = us @ ws" "P us" by blast
  then have "us = take (length us) (take i vs)" by simp
  moreover have "length us \<le> i" using assms arg_cong [OF *(1), of length] by simp
  ultimately have "us = take (length us) vs" by (simp add: min_def)
  with *(2) \<open>length us \<le> i\<close> show "\<exists>j \<le> i. P (take j vs)" by metis
next
  assume "\<exists>j \<le> i. P (take j vs)"
  then obtain j where j: "j \<le> i" "P (take j vs)" by blast
  then have "take i vs = take j vs @ take (i - j) (drop j vs)"
    by (metis le_add_diff_inverse take_add)
  with j(2) show "\<exists>us ws. take i vs = us @ ws \<and> P us" by blast
qed

lemma ex_le_Suc_iff: "(\<exists>j \<le> Suc k. P j) \<longleftrightarrow> P 0 \<or> (\<exists>j \<le> k. P (Suc j))"
  by (metis Suc_le_mono not0_implies_Suc zero_le)

lemma length_cells: "length ups = length vs \<Longrightarrow> length (cells star hit vs d ups l) = length vs"
  by (induction star hit vs d ups l rule: cells.induct) (auto simp: Let_def)

lemma cells_star:
  "length ups = length vs \<Longrightarrow> i < length vs
     \<Longrightarrow> cells True hit vs d ups l ! i \<longleftrightarrow> l \<or> (\<exists>j \<le> i. ups ! j)"
proof (induction vs arbitrary: d ups l i)
  case (Cons v vs)
  then obtain u us where [simp]: "ups = u # us" by (cases ups) auto
  show ?case
  proof (cases i)
    case (Suc k)
    with Cons.IH [of us k u "u \<or> l"] Cons.prems show ?thesis
      by (simp add: Let_def ex_le_Suc_iff) blast
  qed (auto simp: Let_def)
qed simp

lemma cells_hit:
  "length ups = length vs \<Longrightarrow> i < length vs
     \<Longrightarrow> cells False hit vs d ups l ! i \<longleftrightarrow> (d # ups) ! i \<and> hit (vs ! i)"
proof (induction vs arbitrary: d ups l i)
  case (Cons v vs)
  then obtain u us where [simp]: "ups = u # us" by (cases ups) auto
  from Cons show ?case by (cases i) (auto simp: Let_def)
qed simp

definition prefix_row :: "('t \<Rightarrow> bool) \<Rightarrow> ('t \<Rightarrow> 'v \<Rightarrow> bool) \<Rightarrow> 't list \<Rightarrow> 'v list \<Rightarrow> bool list" where
  "prefix_row star hit ts vs = map (\<lambda>i. glob_lang star hit ts (take i vs)) [0..<Suc (length vs)]"

lemma wild_row_prefix:
  "wild_row (star t) (hit t) vs (prefix_row star hit ts vs) = prefix_row star hit (ts @ [t]) vs"
proof (rule nth_equalityI)
  let ?p = "prefix_row star hit ts vs" and ?n = "length vs"
  have len: "length ?p = Suc ?n" by (simp add: prefix_row_def)
  then have tl: "length (tl ?p) = ?n" by simp
  have hd: "hd ?p = glob_lang star hit ts []"
    by (simp add: prefix_row_def hd_map del: upt_Suc)
  have nth: "?p ! i = glob_lang star hit ts (take i vs)" if "i \<le> ?n" for i
    using that by (simp add: prefix_row_def del: upt_Suc)
  then have nth_tl: "tl ?p ! i = glob_lang star hit ts (take (Suc i) vs)" if "i < ?n" for i
    using that len by (simp add: nth_tl)
  show "length (wild_row (star t) (hit t) vs ?p) = length (prefix_row star hit (ts @ [t]) vs)"
    by (simp add: wild_row_def Let_def length_cells [OF tl]) (simp add: prefix_row_def)
  fix i
  assume "i < length (wild_row (star t) (hit t) vs ?p)"
  then have i: "i \<le> ?n" by (simp add: wild_row_def Let_def length_cells [OF tl])
  have rhs: "prefix_row star hit (ts @ [t]) vs ! i = glob_lang star hit (ts @ [t]) (take i vs)"
    using i by (simp add: prefix_row_def del: upt_Suc)
  show "wild_row (star t) (hit t) vs ?p ! i = prefix_row star hit (ts @ [t]) vs ! i"
  proof (cases i)
    case 0
    show ?thesis unfolding rhs
      by (auto simp: 0 wild_row_def Let_def hd glob_lang_snoc tok_lang_def)
  next
    case (Suc k)
    then have k: "k < ?n" using i by simp
    show ?thesis
    proof (cases "star t")
      case True
      have "glob_lang star hit (ts @ [t]) (take i vs) \<longleftrightarrow>
          (\<exists>j \<le> i. glob_lang star hit ts (take j vs))"
        using True take_prefix_ex [OF i] by (simp add: glob_lang_snoc tok_lang_def)
      also have "\<dots> \<longleftrightarrow> glob_lang star hit ts [] \<or> (\<exists>j \<le> k. tl ?p ! j)"
        using nth_tl k by (auto simp: Suc ex_le_Suc_iff)
      finally show ?thesis
        unfolding rhs using True Suc cells_star [OF tl k]
        by (simp add: wild_row_def Let_def hd)
    next
      case False
      have "glob_lang star hit (ts @ [t]) (take i vs) \<longleftrightarrow>
          glob_lang star hit ts (take k vs) \<and> hit t (vs ! k)"
        using k False by (auto simp: Suc take_Suc_conv_app_nth glob_lang_snoc tok_lang_def)
      moreover have "(hd ?p # tl ?p) ! k = glob_lang star hit ts (take k vs)"
        using len nth [of k] k by (cases ?p) auto
      ultimately show ?thesis
        unfolding rhs using False Suc cells_hit [OF tl k]
        by (simp add: wild_row_def Let_def)
    qed
  qed
qed

lemma wild_rows_prefix:
  "foldl (\<lambda>previous t. wild_row (star t) (hit t) vs previous) (True # replicate (length vs) False) ts
     = prefix_row star hit ts vs"
proof (induction ts rule: rev_induct)
  case Nil
  show ?case
    by (rule nth_equalityI) (auto simp: prefix_row_def nth_Cons less_Suc_eq_0_disj simp del: upt_Suc)
next
  case (snoc t ts)
  then show ?case by (simp add: wild_row_prefix)
qed

lemma wild_match_iff: "wild_match star hit ts vs \<longleftrightarrow> glob_lang star hit ts vs"
  by (simp add: wild_match_def wild_rows_prefix) (simp add: prefix_row_def)

lemma matchesRepositoryGlob_iff:
  "matchesRepositoryGlob pattern v \<longleftrightarrow>
     glob_lang (\<lambda>part. part = ''**'') (glob_lang (\<lambda>t. t = CHR ''*'') (\<lambda>t c. t = c))
       (split_on CHR ''/'' pattern) (split_on CHR ''/'' v)"
proof -
  have "matchesSegment = glob_lang (\<lambda>t. t = CHR ''*'') (\<lambda>t c. t = c)"
    by (intro ext) (simp add: matchesSegment_def wild_match_iff)
  then show ?thesis by (simp add: matchesRepositoryGlob_def wild_match_iff)
qed

section \<open>Properties\<close>

text \<open>The repository glob decides its language: a path matches exactly when its segments split into
  consecutive runs, one for each segment of the pattern, any run for \<open>**\<close> and for every other
  pattern segment one path segment that splits into runs of characters the same way with \<open>*\<close>
  (C21).\<close>

theorem repository_glob_decides:
  "matchesRepositoryGlob pattern v =
     glob_lang (\<lambda>part. part = ''**'') (glob_lang (\<lambda>t. t = CHR ''*'') (\<lambda>t c. t = c))
       (split_on CHR ''/'' pattern) (split_on CHR ''/'' v)"
  by (rule matchesRepositoryGlob_iff)

end
