(* ===== verification/Path_Risk.thy ===== *)
theory Path_Risk
  imports Risk_Declaration Regex Repo_Path
begin

text \<open>The canonical path classifier (\<open>state/risk-path-classifier.ts\<close>) with the trigger
  vocabulary of \<open>state/risk-trigger.ts\<close> and the configured trigger paths of
  \<open>state/risk-trigger-paths.ts\<close>: which task class a changed path requires at least,
  which authorities it touches, and which file sets may reduce the ceremony.\<close>

section \<open>Triggers\<close>

datatype risk_trigger =
    State_integrity | Audit_authority | Identity_boundary | Approval_authority
  | Policy_authority | Migration | Distribution_integrity | Command_contract
  | Ceremony_only

fun trigger_name :: "risk_trigger \<Rightarrow> string" where
  "trigger_name State_integrity = ''state_integrity''"
| "trigger_name Audit_authority = ''audit_authority''"
| "trigger_name Identity_boundary = ''identity_boundary''"
| "trigger_name Approval_authority = ''approval_authority''"
| "trigger_name Policy_authority = ''policy_authority''"
| "trigger_name Migration = ''migration''"
| "trigger_name Distribution_integrity = ''distribution_integrity''"
| "trigger_name Command_contract = ''command_contract''"
| "trigger_name Ceremony_only = ''ceremony_only''"

definition specific :: "risk_trigger \<Rightarrow> bool" where
  "specific t = (t \<noteq> Ceremony_only)"

text \<open>\<open>[...triggers].sort()\<close> of a \<open>Set\<close>: by name, without repetition.\<close>
definition sort_triggers :: "risk_trigger list \<Rightarrow> risk_trigger list" where
  "sort_triggers ts = sort_key trigger_name (remdups ts)"

record trigger_path =
  tp_trigger :: risk_trigger
  tp_pattern :: string

section \<open>Path tables\<close>

definition HIGH_RISK_PREFIXES :: "string list" where
  "HIGH_RISK_PREFIXES =
     [''src/state/'', ''src/machine/'', ''src/audit/'', ''src/archive/'', ''src/config/'',
      ''src/evidence/'', ''src/identity/'', ''src/security/'', ''src/adapters/persistence'',
      ''src/adapters/persistence-lock'', ''src/adapters/persistence-audit'',
      ''src/adapters/persistence-config'', ''src/adapters/persistence-discovery'',
      ''src/cli/uninstall'', ''src/integration/review/'', ''src/integration/plugin'',
      ''src/integration/phase-tool-gate'', ''src/rails/review'', ''src/templates/commands/'',
      ''scripts/release'', ''scripts/install'', ''scripts/uninstall'', ''.github/'',
      ''.opencode/'']"

definition HIGH_RISK_EXACT :: "string list" where
  "HIGH_RISK_EXACT =
     [''AGENTS.md'', ''CLAUDE.md'', ''GEMINI.md'', ''docs/admin-model.md'',
      ''docs/commands.md'', ''docs/configuration.md'', ''docs/data-classification.md'',
      ''docs/phases.md'', ''docs/policies.md'', ''docs/profiles.md'',
      ''docs/retention-recovery.md'', ''docs/release-policy.md'',
      ''docs/security-hardening.md'', ''docs/trust-boundaries.md'',
      ''docs/upgrade-rollback.md'', ''package.json'', ''package-lock.json'',
      ''npm-shrinkwrap.json'', ''pnpm-lock.yaml'', ''yarn.lock'', ''bun.lockb'',
      ''src/templates/mandates.ts'', ''src/rendering/mandates-renderer.ts'',
      ''src/templates/mandates-reviewer-criteria.ts'']"

text \<open>\<open>(\/|[-_].*)\<close>: a directory of that name or a name with a suffix.\<close>
definition dir_or_suffix :: rx where
  "dir_or_suffix = Alt (word ''/'') (Cat (At (OneOf ''-_'')) dots)"

definition opt_s :: rx where
  "opt_s = opt (word ''s'')"

definition HIGH_RISK_RE :: "rx list" where
  "HIGH_RISK_RE =
     [seq_of [At Bol, word ''docs/agent-guidance/'', dots,
        words [''mandate'', ''guidance'', ''high-risk'', ''review'']],
      seq_of [At Bol, word ''docs/'', dots,
        one_of [seq_of [word ''mandate'', opt_s], word ''governance'', word ''mapping''],
        word ''.md'', At Eol],
      seq_of [At Bol, word ''src/cli/'', words [''install'', ''uninstall'', ''doctor'', ''release'']],
      seq_of [At Bol, word ''src/config/policy''],
      seq_of [At Bol, word ''src/integration/'',
        one_of [word ''phase-tool-gate'', word ''plugin'', word ''review'',
          seq_of [dots, word ''policy'']]],
      seq_of [At Bol, word ''src/migration'', opt_s, word ''/''],
      seq_of [At Bol, word ''src/rails/'', words [''review'', ''review-decision'']],
      seq_of [At Bol, word ''src/templates/commands/''],
      seq_of [seg_start, word ''release'', dir_or_suffix],
      seq_of [seg_start, word ''installe'', opt (word ''r''), dir_or_suffix],
      seq_of [seg_start, word ''migration'', opt_s, dir_or_suffix],
      seq_of [seg_start, words [''AGENTS'', ''CLAUDE'', ''GEMINI''], word ''.md'', At Eol],
      seq_of [seg_start, word ''copilot-instructions.md'', At Eol],
      seq_of [seg_start, word ''.'', words [''claude'', ''gemini'', ''opencode''],
        Alt (word ''/'') (At Eol)]]"

definition GOVERNANCE_DOC_RE :: rx where
  "GOVERNANCE_DOC_RE =
     seq_of [seg_start,
       words [''architecture'', ''security'', ''compliance'', ''release'', ''governance'', ''policy''],
       one_of [word ''/'', seq_of [At (OneOf ''-_''), dots, word ''.md'', At Eol],
         seq_of [word ''.md'', At Eol]]]"

definition normalizePathForRisk :: "string \<Rightarrow> string" where
  "normalizePathForRisk p = normalizeRepoRelativePath p"

definition NON_DOMAIN_CONFIG_BASENAMES :: "string list" where
  "NON_DOMAIN_CONFIG_BASENAMES =
     [''opencode.json'', ''opencode.jsonc'', ''tsconfig.json'', ''tsconfig.base.json'',
      ''vitest.config.ts'', ''vitest.config.js'', ''vitest.config.mts'', ''eslint.config.js'',
      ''eslint.config.mjs'', ''.eslintrc'', ''.eslintrc.js'', ''.eslintrc.cjs'',
      ''.eslintrc.json'', ''.prettierrc'', ''.prettierrc.json'', ''.prettierrc.js'',
      ''.editorconfig'', ''.gitignore'', ''.gitattributes'', ''.npmrc'', ''.nvmrc'']"

definition isNonDomainConfigPath :: "string \<Rightarrow> bool" where
  "isNonDomainConfigPath f =
     (let p = normalizePathForRisk f
      in if CHR ''/'' \<in> set p then False else p \<in> set NON_DOMAIN_CONFIG_BASENAMES)"

definition INSTRUCTION_BASENAMES :: "string list" where
  "INSTRUCTION_BASENAMES =
     [''AGENTS.md'', ''CLAUDE.md'', ''GEMINI.md'', ''copilot-instructions.md'']"

definition INSTRUCTION_DIR_NAMES :: "string list" where
  "INSTRUCTION_DIR_NAMES = [''.claude'', ''.gemini'', ''.opencode'']"

definition ceremony_eligible_file :: "string \<Rightarrow> bool" where
  "ceremony_eligible_file f =
     (let normalized = normalizePathForRisk f;
          segments = split_on CHR ''/'' normalized;
          basename = last segments
      in if basename \<in> set INSTRUCTION_BASENAMES then False
         else if list_ex (\<lambda>s. s \<in> set INSTRUCTION_DIR_NAMES) segments then False
         else if isNonDomainConfigPath normalized then False
         else True)"

definition reducedCeremonyEligible :: "string list \<Rightarrow> bool" where
  "reducedCeremonyEligible files = (if files = [] then False else list_all ceremony_eligible_file files)"

definition RISK_TRIGGER_RULES :: "(risk_trigger \<times> rx) list" where
  "RISK_TRIGGER_RULES =
     [(State_integrity, seq_of [At Bol, word ''src/'', words [''state'', ''machine''], word ''/'']),
      (Audit_authority,
        seq_of [At Bol, word ''src/'', words [''audit/'', ''adapters/persistence-audit'']]),
      (Identity_boundary, seq_of [At Bol, word ''src/'', words [''identity'', ''security''], word ''/'']),
      (Approval_authority,
        seq_of [At Bol, word ''src/'', words [''integration/review/'', ''rails/review'']]),
      (Policy_authority,
        seq_of [At Bol, word ''src/config/'',
          one_of [seq_of [dots, words [''policy'', ''schema'', ''resolver'', ''preset'', ''default''], dots],
            word ''flowguard-config.ts''],
          At Eol]),
      (Migration, seq_of [seg_start, word ''migration'', opt_s, dir_or_suffix]),
      (Distribution_integrity,
        Alt (seq_of [At Bol,
              one_of [seq_of [word ''package'', opt (word ''-lock''), word ''.json''],
                word ''npm-shrinkwrap.json'', word ''pnpm-lock.yaml'', word ''yarn.lock'',
                word ''bun.lockb'',
                seq_of [word ''scripts/'', words [''release'', ''install'', ''uninstall'']],
                seq_of [word ''src/cli/'', words [''install'', ''uninstall'', ''release'']]]])
            (seq_of [seg_start,
              one_of [word ''release'', seq_of [word ''installe'', opt (word ''r'')]],
              dir_or_suffix])),
      (Command_contract,
        seq_of [At Bol, word ''src/'',
          words [''templates/commands/'', ''templates/mandates.ts'',
            ''rendering/mandates-renderer.ts'', ''templates/mandates-reviewer-criteria.ts'']])]"

definition DISTRIBUTION_PATHS :: rx where
  "DISTRIBUTION_PATHS =
     Alt (seq_of [seg_start,
           one_of [word ''pom.xml'',
             seq_of [word ''build.gradle'', opt (word ''.kts'')],
             seq_of [word ''settings.gradle'', opt (word ''.kts'')],
             word ''gradle.properties'',
             seq_of [word ''mvnw'', opt (word ''.cmd'')],
             word ''pyproject.toml'',
             seq_of [word ''setup.'', words [''py'', ''cfg'']],
             seq_of [word ''requirements'', Rep (At NoSlash), word ''.txt''],
             seq_of [word ''Pipfile'', opt (word ''.lock'')],
             word ''poetry.lock'', word ''uv.lock'',
             seq_of [word ''go.'', words [''mod'', ''sum'']],
             seq_of [word ''Cargo.'', words [''toml'', ''lock'']],
             word ''Jenkinsfile'', word ''Dockerfile'',
             seq_of [word ''docker-compose'', Rep (At NoSlash), word ''.y'', opt (word ''a''), word ''ml''],
             word ''.gitlab-ci.yml''],
           At Eol])
         (seq_of [seg_start, words [''.github/workflows'', ''.mvn'', ''gradle/wrapper''], word ''/''])"

definition VERIFICATION_CONFIG :: rx where
  "VERIFICATION_CONFIG =
     seq_of [seg_start,
       one_of [seq_of [word ''vitest.config.'', At NoSlash, Rep (At NoSlash)],
         seq_of [word ''jest.config.'', At NoSlash, Rep (At NoSlash)],
         word ''pytest.ini'', word ''tox.ini'', word ''conftest.py''],
       At Eol]"

section \<open>Classification\<close>

definition riskTriggersForPath :: "string \<Rightarrow> trigger_path list \<Rightarrow> risk_trigger list" where
  "riskTriggersForPath p configured =
     sort_triggers
       (map fst (filter (\<lambda>(t, r). test r p) RISK_TRIGGER_RULES)
        @ (if test DISTRIBUTION_PATHS p then [Distribution_integrity] else [])
        @ map tp_trigger (filter (\<lambda>rule. matchesRepositoryGlob (tp_pattern rule) p) configured))"

record classification =
  cl_class :: task_class
  cl_surface :: string
  cl_triggers :: "risk_trigger list"

definition high_risk_surface :: "string \<Rightarrow> bool" where
  "high_risk_surface p =
     (p \<in> set HIGH_RISK_EXACT \<or> list_ex (\<lambda>prefix. starts_with prefix p) HIGH_RISK_PREFIXES
      \<or> list_ex (\<lambda>r. test r p) HIGH_RISK_RE)"

definition classifyPath :: "string \<Rightarrow> trigger_path list \<Rightarrow> classification" where
  "classifyPath f configured =
     (let p = normalizePathForRisk f;
          triggers = riskTriggersForPath p configured;
          res = (\<lambda>c. \<lparr>cl_class = c, cl_surface = p, cl_triggers = []\<rparr>)
      in if triggers \<noteq> [] then \<lparr>cl_class = HIGH_RISK, cl_surface = p, cl_triggers = triggers\<rparr>
         else if high_risk_surface p then res HIGH_RISK
         else if test VERIFICATION_CONFIG p then res STANDARD
         else if isNonDomainConfigPath p then res TRIVIAL
         else if p = ''CHANGELOG.md'' \<or> test GOVERNANCE_DOC_RE p then res STANDARD
         else if ends_with ''.test.ts'' p \<or> ends_with ''.spec.ts'' p then res STANDARD
         else if ends_with ''.md'' p then res TRIVIAL
         else res STANDARD)"

record risk_assessment =
  ra_minimumTaskClass :: task_class
  ra_touchedSurfaces :: "string list"
  ra_riskTriggers :: "risk_trigger list"

definition assessMinimumTaskClass :: "string list \<Rightarrow> trigger_path list \<Rightarrow> risk_assessment" where
  "assessMinimumTaskClass paths configured =
     (if paths = [] then \<lparr>ra_minimumTaskClass = TRIVIAL, ra_touchedSurfaces = [], ra_riskTriggers = []\<rparr>
      else
        (let cs = map (\<lambda>f. classifyPath f configured) paths;
             minimum = foldl maxTaskClass TRIVIAL (map cl_class cs);
             triggers = concat (map cl_triggers cs)
         in \<lparr>ra_minimumTaskClass = minimum,
             ra_touchedSurfaces = sort (remdups (map cl_surface cs)),
             ra_riskTriggers =
               (if minimum = HIGH_RISK \<and> triggers = [] then [Ceremony_only]
                else sort_triggers triggers)\<rparr>))"

section \<open>Lemmas\<close>

lemma set_sort_triggers [simp]: "set (sort_triggers ts) = set ts"
  by (simp add: sort_triggers_def)

lemma sort_triggers_Nil [simp]: "sort_triggers ts = [] \<longleftrightarrow> ts = []"
  by (metis set_empty set_sort_triggers)

lemma triggers_imply_HIGH_RISK: "cl_triggers (classifyPath f cfg) \<noteq> [] \<Longrightarrow> cl_class (classifyPath f cfg) = HIGH_RISK"
  by (auto simp: classifyPath_def Let_def split: if_splits)

lemma assess_class_eq_Max:
  "ra_minimumTaskClass (assessMinimumTaskClass fs cfg) =
     Max (insert TRIVIAL ((\<lambda>f. cl_class (classifyPath f cfg)) ` set fs))"
proof (cases "fs = []")
  case False
  then have "ra_minimumTaskClass (assessMinimumTaskClass fs cfg) =
      foldl maxTaskClass TRIVIAL (map (\<lambda>f. cl_class (classifyPath f cfg)) fs)"
    by (simp add: assessMinimumTaskClass_def Let_def comp_def)
  then show ?thesis by (simp add: foldl_max)
qed (simp add: assessMinimumTaskClass_def)

lemma assess_mono:
  "set fs \<subseteq> set gs \<Longrightarrow>
     ra_minimumTaskClass (assessMinimumTaskClass fs cfg) \<le> ra_minimumTaskClass (assessMinimumTaskClass gs cfg)"
  unfolding assess_class_eq_Max by (rule Max_mono) auto

lemma assess_TRIVIAL_file:
  assumes "ra_minimumTaskClass (assessMinimumTaskClass fs cfg) = TRIVIAL" and "f \<in> set fs"
  shows "cl_class (classifyPath f cfg) = TRIVIAL"
proof -
  have "cl_class (classifyPath f cfg) \<le> TRIVIAL"
    using Max_ge [of "insert TRIVIAL ((\<lambda>f. cl_class (classifyPath f cfg)) ` set fs)"] assms
    unfolding assess_class_eq_Max by fastforce
  then show ?thesis by (cases "cl_class (classifyPath f cfg)") (simp_all add: less_eq_task_class_def)
qed

lemma TRIVIAL_not_high_risk:
  assumes "cl_class (classifyPath f cfg) = TRIVIAL"
  shows "riskTriggersForPath (normalizePathForRisk f) cfg = [] \<and> \<not> high_risk_surface (normalizePathForRisk f)"
  using assms by (auto simp: classifyPath_def Let_def split: if_splits)

text \<open>Instruction surfaces are high risk: a path whose last segment is an instruction file,
  or with an instruction directory among its segments.\<close>

definition instruction_file_rx :: rx where
  "instruction_file_rx = Cat (words [''AGENTS'', ''CLAUDE'', ''GEMINI'']) (Cat (word ''.md'') (At Eol))"

definition copilot_rx :: rx where
  "copilot_rx = Cat (word ''copilot-instructions.md'') (At Eol)"

definition instruction_dir_rx :: rx where
  "instruction_dir_rx =
     Cat (word ''.'') (Cat (words [''claude'', ''gemini'', ''opencode'']) (Alt (word ''/'') (At Eol)))"

lemma instruction_patterns:
  "Cat seg_start instruction_file_rx \<in> set HIGH_RISK_RE"
  "Cat seg_start copilot_rx \<in> set HIGH_RISK_RE"
  "Cat seg_start instruction_dir_rx \<in> set HIGH_RISK_RE"
  by (simp_all only: HIGH_RISK_RE_def seq_of.simps instruction_file_rx_def copilot_rx_def
      instruction_dir_rx_def list.set insert_iff simp_thms)

lemma lang_instruction_file:
  assumes "w \<in> {''AGENTS.md'', ''CLAUDE.md'', ''GEMINI.md''}"
  shows "rx_lang instruction_file_rx (map Ch w @ [End])"
proof -
  define n where "n = take (length w - 3) w"
  have n: "n \<in> {''AGENTS'', ''CLAUDE'', ''GEMINI''}" "w = n @ ''.md''"
    using assms by (auto simp: n_def)
  have "rx_lang (Cat (word ''.md'') (At Eol)) (map Ch ''.md'' @ [End])"
    by (intro lang_Cat lang_word lang_At) simp
  moreover have "rx_lang (words [''AGENTS'', ''CLAUDE'', ''GEMINI'']) (map Ch n)"
    unfolding lang_words using n(1) by auto
  ultimately have "rx_lang instruction_file_rx (map Ch n @ map Ch ''.md'' @ [End])"
    unfolding instruction_file_rx_def by (rule lang_Cat [rotated])
  then show ?thesis by (simp add: n(2))
qed

lemma lang_instruction_dir:
  assumes "w \<in> set INSTRUCTION_DIR_NAMES" and "x = Ch CHR ''/'' \<or> x = End"
  shows "rx_lang instruction_dir_rx (map Ch w @ [x])"
proof -
  define n where "n = tl w"
  have n: "n \<in> {''claude'', ''gemini'', ''opencode''}" "w = ''.'' @ n"
    using assms(1) by (auto simp: INSTRUCTION_DIR_NAMES_def n_def)
  have "rx_lang (Alt (word ''/'') (At Eol)) [x]"
    using assms(2) by (auto simp: lang_At_iff)
  moreover have "rx_lang (words [''claude'', ''gemini'', ''opencode'']) (map Ch n)"
    unfolding lang_words using n(1) by auto
  ultimately have "rx_lang (Cat (words [''claude'', ''gemini'', ''opencode''])
      (Alt (word ''/'') (At Eol))) (map Ch n @ [x])"
    by (rule lang_Cat [rotated])
  from lang_Cat [OF lang_word [of "''.''"] this] show ?thesis
    by (simp add: n(2) instruction_dir_rx_def)
qed

lemma HIGH_RISK_RE_surface: "r \<in> set HIGH_RISK_RE \<Longrightarrow> test r p \<Longrightarrow> high_risk_surface p"
  by (auto simp: high_risk_surface_def list_ex_iff)

lemma instruction_file_high_risk:
  assumes "split_on CHR ''/'' p = us @ [w]" and "w \<in> set INSTRUCTION_BASENAMES"
  shows "high_risk_surface p"
proof -
  obtain pre post where pre: "p = pre @ w @ post" "pre = [] \<or> last pre = CHR ''/''" "post = []"
    using assms(1) by (auto elim!: split_on_segment)
  consider "w \<in> {''AGENTS.md'', ''CLAUDE.md'', ''GEMINI.md''}" | "w = ''copilot-instructions.md''"
    using assms(2) by (auto simp: INSTRUCTION_BASENAMES_def)
  then show ?thesis
  proof cases
    case 1
    have "test (Cat seg_start instruction_file_rx) p"
      by (rule test_segment [OF pre(1,2)]) (simp_all add: pre(3) lang_instruction_file [OF 1])
    then show ?thesis by (rule HIGH_RISK_RE_surface [OF instruction_patterns(1)])
  next
    case 2
    have "rx_lang copilot_rx (map Ch w @ [End])"
      unfolding 2 copilot_rx_def by (intro lang_Cat lang_word lang_At) simp
    then have "test (Cat seg_start copilot_rx) p"
      by (intro test_segment [OF pre(1,2)]) (simp_all add: pre(3))
    then show ?thesis by (rule HIGH_RISK_RE_surface [OF instruction_patterns(2)])
  qed
qed

lemma instruction_dir_high_risk:
  assumes "w \<in> set (split_on CHR ''/'' p)" and "w \<in> set INSTRUCTION_DIR_NAMES"
  shows "high_risk_surface p"
proof -
  obtain us vs where "split_on CHR ''/'' p = us @ w # vs" using assms(1) by (auto dest: split_list)
  then obtain pre post where "p = pre @ w @ post" "pre = [] \<or> last pre = CHR ''/''"
      "post = [] \<or> hd post = CHR ''/''"
    by (rule split_on_segment)
  then have "test (Cat seg_start instruction_dir_rx) p"
    by (rule test_segment) (rule lang_instruction_dir [OF assms(2)], simp)
  then show ?thesis by (rule HIGH_RISK_RE_surface [OF instruction_patterns(3)])
qed

lemma high_risk_surface_class:
  "high_risk_surface (normalizePathForRisk f) \<Longrightarrow> cl_class (classifyPath f cfg) = HIGH_RISK"
  by (simp add: classifyPath_def Let_def)

lemma ineligible_high_risk:
  assumes "\<not> ceremony_eligible_file f" and "\<not> isNonDomainConfigPath (normalizePathForRisk f)"
  shows "high_risk_surface (normalizePathForRisk f)"
proof -
  let ?p = "normalizePathForRisk f" and ?segs = "split_on CHR ''/'' (normalizePathForRisk f)"
  have "?segs = butlast ?segs @ [last ?segs]" by simp
  moreover have "last ?segs \<in> set INSTRUCTION_BASENAMES \<or> (\<exists>w \<in> set ?segs. w \<in> set INSTRUCTION_DIR_NAMES)"
    using assms by (auto simp: ceremony_eligible_file_def Let_def list_ex_iff split: if_splits)
  ultimately show ?thesis
    using instruction_file_high_risk instruction_dir_high_risk by blast
qed

lemma assess_triggers_iff:
  "ra_riskTriggers (assessMinimumTaskClass fs cfg) \<noteq> [] \<longleftrightarrow>
     ra_minimumTaskClass (assessMinimumTaskClass fs cfg) = HIGH_RISK"
proof (cases "fs = []")
  case False
  let ?cs = "map (\<lambda>f. classifyPath f cfg) fs"
  have max: "ra_minimumTaskClass (assessMinimumTaskClass fs cfg) = foldl maxTaskClass TRIVIAL (map cl_class ?cs)"
    using False by (simp add: assessMinimumTaskClass_def Let_def comp_def)
  have "foldl maxTaskClass TRIVIAL (map cl_class ?cs) = HIGH_RISK" if "concat (map cl_triggers ?cs) \<noteq> []"
  proof -
    from that obtain f where f: "f \<in> set fs" "cl_triggers (classifyPath f cfg) \<noteq> []" by auto
    then have "HIGH_RISK \<le> Max (insert TRIVIAL ((\<lambda>f. cl_class (classifyPath f cfg)) ` set fs))"
      using triggers_imply_HIGH_RISK [OF f(2)] by (intro Max_ge) force+
    moreover have "c \<le> HIGH_RISK" for c by (cases c) (simp_all add: less_eq_task_class_def)
    ultimately show ?thesis unfolding max [symmetric] assess_class_eq_Max by (metis antisym)
  qed
  then show ?thesis unfolding max using False by (auto simp: assessMinimumTaskClass_def Let_def)
qed (simp add: assessMinimumTaskClass_def)

lemma assess_ceremony_only_alone:
  assumes "Ceremony_only \<in> set (ra_riskTriggers (assessMinimumTaskClass fs cfg))"
    and "\<forall>r \<in> set cfg. specific (tp_trigger r)"
  shows "ra_riskTriggers (assessMinimumTaskClass fs cfg) = [Ceremony_only]"
proof -
  have "Ceremony_only \<notin> set (riskTriggersForPath p cfg)" for p
    using assms(2) by (auto simp: riskTriggersForPath_def RISK_TRIGGER_RULES_def specific_def)
  then have "Ceremony_only \<notin> set (concat (map (\<lambda>f. cl_triggers (classifyPath f cfg)) fs))"
    by (auto simp: classifyPath_def Let_def split: if_splits)
  with assms(1) show ?thesis
    by (auto simp: assessMinimumTaskClass_def Let_def split: if_splits)
qed

section \<open>Properties\<close>

text \<open>Touching more files never lowers the minimum task class, and an assessment is never lower
  than the class of one of its files (C23).\<close>

theorem more_files_never_lower:
  assumes "set fs \<subseteq> set gs"
  shows "ra_minimumTaskClass (assessMinimumTaskClass fs cfg) \<le> ra_minimumTaskClass (assessMinimumTaskClass gs cfg) \<and>
     list_all (\<lambda>f. cl_class (classifyPath f cfg) \<le> ra_minimumTaskClass (assessMinimumTaskClass gs cfg)) fs"
  using assms assess_mono [OF assms]
  by (auto simp: list_all_iff assess_class_eq_Max intro!: Max_ge)

theorem more_files_never_lower_witness:
  "ra_minimumTaskClass (assessMinimumTaskClass [''docs/a.md''] [])
     \<le> ra_minimumTaskClass (assessMinimumTaskClass [''src/b.ts'', ''docs/a.md''] [])"
  using more_files_never_lower [of "[''docs/a.md'']" "[''src/b.ts'', ''docs/a.md'']" "[]"] by simp

text \<open>A file that is not eligible for the reduced ceremony and not plain configuration, that is an
  agent instruction file or a file under an agent instruction directory, forces HIGH\_RISK on every set of
  files that contains it, so the two rules cannot disagree (C22).\<close>

theorem instruction_files_force_high_risk:
  assumes "f \<in> set fs" and "\<not> ceremony_eligible_file f" and "\<not> isNonDomainConfigPath (normalizePathForRisk f)"
  shows "ra_minimumTaskClass (assessMinimumTaskClass fs cfg) = HIGH_RISK \<and>
     ra_riskTriggers (assessMinimumTaskClass fs cfg) \<noteq> []"
proof -
  have "cl_class (classifyPath f cfg) = HIGH_RISK"
    by (rule high_risk_surface_class [OF ineligible_high_risk [OF assms(2,3)]])
  then have "HIGH_RISK \<le> ra_minimumTaskClass (assessMinimumTaskClass fs cfg)"
    using assms(1) unfolding assess_class_eq_Max by (intro Max_ge) force+
  then have "ra_minimumTaskClass (assessMinimumTaskClass fs cfg) = HIGH_RISK"
    by (cases "ra_minimumTaskClass (assessMinimumTaskClass fs cfg)") (simp_all add: less_eq_task_class_def)
  then show ?thesis using assess_triggers_iff by simp
qed

theorem instruction_files_force_high_risk_witness:
  "ra_minimumTaskClass (assessMinimumTaskClass [''docs/a.md'', ''pkg/AGENTS.md''] []) = HIGH_RISK"
proof -
  have "\<not> ceremony_eligible_file ''pkg/AGENTS.md''" by code_simp
  moreover have "\<not> isNonDomainConfigPath (normalizePathForRisk ''pkg/AGENTS.md'')" by code_simp
  ultimately show ?thesis
    using instruction_files_force_high_risk [of "''pkg/AGENTS.md''" "[''docs/a.md'', ''pkg/AGENTS.md'']" "[]"] by simp
qed

text \<open>An assessment names a risk trigger exactly when it is HIGH\_RISK, and \<open>ceremony_only\<close>
  appears only alone: when no rule of the code and no configured rule explains the class (C24).\<close>

theorem triggers_explain_high_risk:
  assumes "\<forall>r \<in> set cfg. specific (tp_trigger r)"
  shows "(ra_riskTriggers (assessMinimumTaskClass fs cfg) \<noteq> []) =
       (ra_minimumTaskClass (assessMinimumTaskClass fs cfg) = HIGH_RISK) \<and>
     (Ceremony_only \<in> set (ra_riskTriggers (assessMinimumTaskClass fs cfg))) =
       (ra_riskTriggers (assessMinimumTaskClass fs cfg) = [Ceremony_only])"
  using assess_triggers_iff assess_ceremony_only_alone [OF _ assms] by auto

theorem triggers_explain_high_risk_witness:
  "(ra_riskTriggers (assessMinimumTaskClass [''src/state/x.ts''] [\<lparr>tp_trigger = Migration, tp_pattern = ''db/**''\<rparr>]) \<noteq> []) =
   (ra_minimumTaskClass (assessMinimumTaskClass [''src/state/x.ts''] [\<lparr>tp_trigger = Migration, tp_pattern = ''db/**''\<rparr>]) = HIGH_RISK)"
proof -
  have "\<forall>r \<in> set [\<lparr>tp_trigger = Migration, tp_pattern = ''db/**''\<rparr>]. specific (tp_trigger r)"
    by (simp add: specific_def)
  from triggers_explain_high_risk [OF this] show ?thesis by blast
qed

end
