(* ===== verification/Ledger.thy ===== *)
theory Ledger
  imports Prelude
begin

text \<open>The interface shared by the durable ledgers of the session: entries carry a key, and
  the one writer appends an entry only when its key is new.  A client that sees an
  accepted append knows that nothing recorded before was rewritten or dropped and that
  keys stay unique; a rejected append leaves the ledger as it was.\<close>

locale keyed_ledger =
  fixes key :: "'e \<Rightarrow> 'k"
    and entry :: "'i \<Rightarrow> 'e"
    and record_entry :: "'e list \<Rightarrow> 'i \<Rightarrow> 'e list option"
  assumes fresh_appends:
      "key (entry i) \<notin> key ` set l \<Longrightarrow> record_entry l i = Some (l @ [entry i])"
    and replay_refused: "key (entry i) \<in> key ` set l \<Longrightarrow> record_entry l i = None"
begin

definition record_all :: "'e list \<Rightarrow> 'i list \<Rightarrow> 'e list" where
  "record_all l js = foldl (\<lambda>l i. case record_entry l i of None \<Rightarrow> l | Some l' \<Rightarrow> l') l js"

lemma accepted_iff:
  "record_entry l i = Some l' \<longleftrightarrow> key (entry i) \<notin> key ` set l \<and> l' = l @ [entry i]"
  using fresh_appends replay_refused by (cases "key (entry i) \<in> key ` set l") auto

lemma accepted_distinct:
  "distinct (map key l) \<Longrightarrow> record_entry l i = Some l' \<Longrightarrow> distinct (map key l')"
  by (auto simp: accepted_iff)

lemma record_all_Cons:
  "record_all l (i # js) =
     record_all (if key (entry i) \<in> key ` set l then l else l @ [entry i]) js"
  by (simp add: record_all_def fresh_appends replay_refused)

lemma history_kept: "\<exists>suffix. record_all l js = l @ suffix"
proof (induction js arbitrary: l)
  case Nil
  show ?case by (simp add: record_all_def)
next
  case (Cons i js)
  show ?case using Cons [of l] Cons [of "l @ [entry i]"] by (auto simp: record_all_Cons)
qed

lemma keys_distinct: "distinct (map key l) \<Longrightarrow> distinct (map key (record_all l js))"
proof (induction js arbitrary: l)
  case (Cons i js)
  then show ?case by (simp add: record_all_Cons)
qed (simp add: record_all_def)

lemma second_refused:
  "record_entry l i = Some l' \<Longrightarrow> record_entry (l' @ suffix) i = None"
  by (rule replay_refused) (auto simp: accepted_iff)

end

end
