(* ===== verification/Mutation_Episodes.thy ===== *)
theory Mutation_Episodes
  imports Ledger JS_Text
begin

text \<open>Host mutation dispatches (\<open>state/evidence-mutation-episode.ts\<close>), the runtime lease
  that fences them (\<open>integration/runtime-lease.ts\<close>), and the four places that write
  them: the before-hook that authorizes a dispatch, the after-hook that completes it,
  the recovery tool that resolves an unobservable outcome, and the implementation
  record that binds completed dispatches.

  Timestamps are ISO strings, compared as strings the way the code compares them.
  Whether a process id is alive is an answer of the operating system: the parameter
  \<open>alive\<close>.\<close>

section \<open>Records\<close>

datatype episode_status = Dispatch_authorized | Completed
datatype episode_outcome = Success | Failure | Unknown
datatype evidence_status = Ineligible | Eligible | Stale

record mutation_episode =
  me_episodeId :: string
  me_hostCallId :: string
  me_toolName :: string
  me_runtimeInstanceId :: string
  me_leaseGeneration :: nat
  me_authorizedAt :: string
  me_status :: episode_status
  me_completedAt :: "string option"
  me_outcome :: "episode_outcome option"
  me_implementationDigest :: "string option"
  me_evidenceStatus :: evidence_status

record episode_resolution =
  er_resolutionId :: string
  er_hostCallId :: string
  er_resolvedAt :: string
  er_resolvingRuntimeInstanceId :: string
  er_resolvingLeaseGeneration :: nat

record runtime_lease =
  rl_holder :: string
  rl_generation :: nat
  rl_holderPid :: nat
  rl_acquiredAt :: string
  rl_lastHeartbeatAt :: string

section \<open>Schema refinements\<close>

text \<open>True when the refinement adds no issue.\<close>

definition refine_dispatch_authorized_ok :: "mutation_episode \<Rightarrow> bool" where
  "refine_dispatch_authorized_ok e =
     (\<not> (me_completedAt e \<noteq> None \<or> me_outcome e \<noteq> None \<or>
         me_implementationDigest e \<noteq> None \<or> me_evidenceStatus e \<noteq> Ineligible))"

definition refine_completed_ok :: "mutation_episode \<Rightarrow> bool" where
  "refine_completed_ok e =
     (\<not> (me_completedAt e = None \<or> me_outcome e = None) \<and>
      \<not> (me_outcome e = Some Unknown \<and>
         (me_implementationDigest e \<noteq> None \<or> me_evidenceStatus e \<noteq> Ineligible)) \<and>
      \<not> (me_implementationDigest e = None \<and> me_evidenceStatus e \<noteq> Ineligible) \<and>
      \<not> (me_implementationDigest e \<noteq> None \<and> me_evidenceStatus e = Ineligible))"

definition refineMutationEpisode_ok :: "mutation_episode \<Rightarrow> bool" where
  "refineMutationEpisode_ok e =
     (case me_status e of
        Dispatch_authorized \<Rightarrow> refine_dispatch_authorized_ok e
      | Completed \<Rightarrow> refine_completed_ok e)"

section \<open>Operations\<close>

record authorize_input =
  ai_episodeId :: string
  ai_hostCallId :: string
  ai_toolName :: string
  ai_runtimeInstanceId :: string
  ai_leaseGeneration :: nat
  ai_authorizedAt :: string

definition authorized_episode :: "authorize_input \<Rightarrow> mutation_episode" where
  "authorized_episode i =
     \<lparr>me_episodeId = ai_episodeId i, me_hostCallId = ai_hostCallId i,
      me_toolName = ai_toolName i, me_runtimeInstanceId = ai_runtimeInstanceId i,
      me_leaseGeneration = ai_leaseGeneration i, me_authorizedAt = ai_authorizedAt i,
      me_status = Dispatch_authorized, me_completedAt = None, me_outcome = None,
      me_implementationDigest = None, me_evidenceStatus = Ineligible\<rparr>"

text \<open>\<open>Inl\<close> is the replay block with the existing episode, \<open>Inr\<close> the extended ledger.\<close>
definition authorizeMutationEpisode ::
  "mutation_episode list \<Rightarrow> authorize_input \<Rightarrow> mutation_episode + mutation_episode list" where
  "authorizeMutationEpisode episodes i =
     (case List.find (\<lambda>e. me_hostCallId e = ai_hostCallId i) episodes of
        Some existing \<Rightarrow> Inl existing
      | None \<Rightarrow> Inr (episodes @ [authorized_episode i]))"

definition completeMutationEpisode ::
  "mutation_episode list \<Rightarrow> string \<Rightarrow> string \<Rightarrow> string \<Rightarrow> episode_outcome \<Rightarrow> mutation_episode list" where
  "completeMutationEpisode episodes hostCallId toolName completedAt outcome =
     map (\<lambda>e. if me_hostCallId e = hostCallId \<and> me_toolName e = toolName
                \<and> me_status e = Dispatch_authorized
              then e\<lparr>me_status := Completed, me_completedAt := Some completedAt,
                     me_outcome := Some outcome\<rparr>
              else e) episodes"

definition resolveUnknownMutationOutcome ::
  "episode_resolution list \<Rightarrow> episode_resolution \<Rightarrow> episode_resolution list" where
  "resolveUnknownMutationOutcome resolutions r =
     (if list_ex (\<lambda>q. er_hostCallId q = er_hostCallId r) resolutions then resolutions
      else resolutions @ [r])"

definition resolved_calls :: "episode_resolution list \<Rightarrow> string set" where
  "resolved_calls rs = set (map er_hostCallId rs)"

definition reconcile_episode :: "string set \<Rightarrow> string \<Rightarrow> mutation_episode \<Rightarrow> mutation_episode" where
  "reconcile_episode resolved digest e =
     (if me_status e \<noteq> Completed then e
      else if me_hostCallId e \<in> resolved then
        (if me_implementationDigest e \<noteq> None \<and> me_implementationDigest e \<noteq> Some digest
         then e\<lparr>me_evidenceStatus := Stale\<rparr> else e)
      else if me_implementationDigest e = None then
        (if me_outcome e = Some Unknown then e
         else e\<lparr>me_implementationDigest := Some digest, me_evidenceStatus := Eligible\<rparr>)
      else if me_implementationDigest e \<noteq> Some digest \<and> me_evidenceStatus e = Eligible
        then e\<lparr>me_evidenceStatus := Stale\<rparr>
      else e)"

definition reconcileMutationEpisodes ::
  "mutation_episode list \<Rightarrow> episode_resolution list \<Rightarrow> string \<Rightarrow> mutation_episode list" where
  "reconcileMutationEpisodes episodes resolutions digest =
     map (reconcile_episode (resolved_calls resolutions) digest) episodes"

definition unresolvedMutationEpisodes ::
  "mutation_episode list \<Rightarrow> episode_resolution list \<Rightarrow> mutation_episode list" where
  "unresolvedMutationEpisodes episodes resolutions =
     filter (\<lambda>e. me_status e = Dispatch_authorized
                 \<and> me_hostCallId e \<notin> resolved_calls resolutions) episodes"

definition hasUnresolvedMutationEpisodes ::
  "mutation_episode list \<Rightarrow> episode_resolution list \<Rightarrow> bool" where
  "hasUnresolvedMutationEpisodes episodes resolutions =
     (unresolvedMutationEpisodes episodes resolutions \<noteq> [])"

definition countUnboundMutationEpisodes ::
  "mutation_episode list \<Rightarrow> episode_resolution list \<Rightarrow> nat" where
  "countUnboundMutationEpisodes episodes resolutions =
     length (filter (\<lambda>e.
       me_status e = Dispatch_authorized \<and> me_hostCallId e \<notin> resolved_calls resolutions \<or>
       me_status e = Completed \<and> me_implementationDigest e = None
         \<and> me_hostCallId e \<notin> resolved_calls resolutions) episodes)"

definition hasUnboundMutationEpisodes ::
  "mutation_episode list \<Rightarrow> episode_resolution list \<Rightarrow> bool" where
  "hasUnboundMutationEpisodes episodes resolutions =
     (0 < countUnboundMutationEpisodes episodes resolutions)"

definition latestUnknownOutcomeResolvedAt :: "episode_resolution list \<Rightarrow> string option" where
  "latestUnknownOutcomeResolvedAt rs =
     foldl (\<lambda>latest r. case latest of
              None \<Rightarrow> Some (er_resolvedAt r)
            | Some l \<Rightarrow> if l < er_resolvedAt r then Some (er_resolvedAt r) else latest) None rs"

definition canResolveMutationEpisode :: "mutation_episode \<Rightarrow> nat \<Rightarrow> bool" where
  "canResolveMutationEpisode e generation = (\<not> generation \<le> me_leaseGeneration e)"

section \<open>Relational invariants\<close>

datatype mutation_issue =
    Duplicate_episode string
  | Resolution_not_resolvable string
  | Duplicate_resolution string
  | Generation_not_superseding string nat nat

fun scan_episodes :: "string list \<Rightarrow> mutation_episode list \<Rightarrow> mutation_issue option" where
  "scan_episodes seen [] = None"
| "scan_episodes seen (e # es) =
     (if me_hostCallId e \<in> set seen then Some (Duplicate_episode (me_hostCallId e))
      else scan_episodes (me_hostCallId e # seen) es)"

definition resolvable :: "mutation_episode \<Rightarrow> bool" where
  "resolvable e =
     (me_status e = Dispatch_authorized \<or> me_status e = Completed \<and> me_outcome e = Some Unknown)"

fun scan_resolutions ::
  "mutation_episode list \<Rightarrow> string list \<Rightarrow> episode_resolution list \<Rightarrow> mutation_issue option" where
  "scan_resolutions episodes seen [] = None"
| "scan_resolutions episodes seen (r # rs) =
     (case List.find (\<lambda>e. me_hostCallId e = er_hostCallId r) episodes of
        None \<Rightarrow> Some (Resolution_not_resolvable (er_hostCallId r))
      | Some e \<Rightarrow>
          if \<not> resolvable e then Some (Resolution_not_resolvable (er_hostCallId r))
          else if er_hostCallId r \<in> set seen then Some (Duplicate_resolution (er_hostCallId r))
          else if er_resolvingLeaseGeneration r \<le> me_leaseGeneration e
            then Some (Generation_not_superseding (er_hostCallId r)
                        (er_resolvingLeaseGeneration r) (me_leaseGeneration e))
          else scan_resolutions episodes (er_hostCallId r # seen) rs)"

definition enforceMutationEpisodeInvariants ::
  "mutation_episode list \<Rightarrow> episode_resolution list \<Rightarrow> mutation_issue option" where
  "enforceMutationEpisodeInvariants episodes resolutions =
     (case scan_episodes [] episodes of
        Some i \<Rightarrow> Some i
      | None \<Rightarrow> scan_resolutions episodes [] resolutions)"

section \<open>Runtime lease\<close>

text \<open>\<open>Inr\<close> is the held lease, \<open>Inl\<close> the lease of the live foreign holder.\<close>
definition acquireRuntimeLease ::
  "(nat \<Rightarrow> bool) \<Rightarrow> runtime_lease option \<Rightarrow> string \<Rightarrow> nat \<Rightarrow> string \<Rightarrow> runtime_lease + runtime_lease" where
  "acquireRuntimeLease alive current instanceId pid at_time =
     (case current of
        None \<Rightarrow> Inr \<lparr>rl_holder = instanceId, rl_generation = 1, rl_holderPid = pid,
                     rl_acquiredAt = at_time, rl_lastHeartbeatAt = at_time\<rparr>
      | Some l \<Rightarrow>
          if rl_holder l = instanceId
          then Inr (l\<lparr>rl_holderPid := pid, rl_lastHeartbeatAt := at_time\<rparr>)
          else if alive (rl_holderPid l) then Inl l
          else Inr \<lparr>rl_holder = instanceId, rl_generation = rl_generation l + 1,
                    rl_holderPid = pid, rl_acquiredAt = at_time, rl_lastHeartbeatAt = at_time\<rparr>)"

section \<open>The four writers\<close>

record mutation_state =
  ms_lease :: "runtime_lease option"
  ms_episodes :: "mutation_episode list"
  ms_resolutions :: "episode_resolution list"

datatype mutation_block =
    Lease_unavailable nat
  | Replay_blocked string
  | Episode_not_found
  | Already_completed
  | Already_resolved
  | Epoch_active
  | Dispatch_changed
  | Provenance_mismatch
  | Episodes_unresolved nat

text \<open>The process that runs a writer: its instance id, its process id, the time.\<close>
record runtime =
  rt_instance :: string
  rt_pid :: nat
  rt_now :: string

definition recordMutationDispatch ::
  "(nat \<Rightarrow> bool) \<Rightarrow> runtime \<Rightarrow> string \<Rightarrow> string \<Rightarrow> string \<Rightarrow> mutation_state
     \<Rightarrow> mutation_block + mutation_state" where
  "recordMutationDispatch alive rt episodeId callId toolName s =
     (case acquireRuntimeLease alive (ms_lease s) (rt_instance rt) (rt_pid rt) (rt_now rt) of
        Inl l \<Rightarrow> Inl (Lease_unavailable (rl_generation l))
      | Inr lease \<Rightarrow>
          (case authorizeMutationEpisode (ms_episodes s)
                  \<lparr>ai_episodeId = episodeId, ai_hostCallId = callId, ai_toolName = toolName,
                   ai_runtimeInstanceId = rt_instance rt,
                   ai_leaseGeneration = rl_generation lease, ai_authorizedAt = rt_now rt\<rparr> of
             Inl existing \<Rightarrow> Inl (Replay_blocked (me_episodeId existing))
           | Inr episodes \<Rightarrow> Inr (s\<lparr>ms_lease := Some lease, ms_episodes := episodes\<rparr>)))"

definition sameDispatch :: "mutation_episode \<Rightarrow> mutation_episode \<Rightarrow> bool" where
  "sameDispatch current expected =
     (me_episodeId current = me_episodeId expected \<and> me_toolName current = me_toolName expected \<and>
      me_runtimeInstanceId current = me_runtimeInstanceId expected \<and>
      me_leaseGeneration current = me_leaseGeneration expected \<and>
      me_authorizedAt current = me_authorizedAt expected)"

definition validLeaseProvenance :: "mutation_episode \<Rightarrow> runtime_lease \<Rightarrow> bool" where
  "validLeaseProvenance e lease =
     (me_leaseGeneration e < rl_generation lease \<or>
      me_leaseGeneration e = rl_generation lease \<and> me_runtimeInstanceId e = rl_holder lease)"

text \<open>The part of \<open>commitMutationCompletion\<close> under the write lock, after the session and
  binding checks: the unchanged state is \<open>'unchanged'\<close>.\<close>
definition commitMutationCompletion ::
  "(nat \<Rightarrow> bool) \<Rightarrow> runtime \<Rightarrow> mutation_episode \<Rightarrow> string \<Rightarrow> episode_outcome \<Rightarrow> mutation_state
     \<Rightarrow> mutation_block + mutation_state" where
  "commitMutationCompletion alive rt expected now outcome s =
     (case List.find (\<lambda>e. me_hostCallId e = me_hostCallId expected) (ms_episodes s) of
        None \<Rightarrow> Inl Dispatch_changed
      | Some e \<Rightarrow>
          if \<not> sameDispatch e expected then Inl Dispatch_changed
          else if list_ex (\<lambda>r. er_hostCallId r = me_hostCallId e) (ms_resolutions s)
                  \<or> me_status e = Completed
            then Inr s
          else (case acquireRuntimeLease alive (ms_lease s) (rt_instance rt) (rt_pid rt) (rt_now rt) of
                  Inl l \<Rightarrow> Inl (Lease_unavailable (rl_generation l))
                | Inr lease \<Rightarrow>
                    if ms_lease s = None \<or> \<not> validLeaseProvenance e lease
                    then Inl Provenance_mismatch
                    else Inr (s\<lparr>ms_lease := Some lease,
                                ms_episodes := completeMutationEpisode (ms_episodes s)
                                  (me_hostCallId e) (me_toolName e) now outcome\<rparr>)))"

definition reconcileMutationEpisodeTool ::
  "(nat \<Rightarrow> bool) \<Rightarrow> runtime \<Rightarrow> string \<Rightarrow> string \<Rightarrow> mutation_state
     \<Rightarrow> mutation_block + mutation_state" where
  "reconcileMutationEpisodeTool alive rt resolutionId callId s =
     (case List.find (\<lambda>e. me_hostCallId e = callId) (ms_episodes s) of
        None \<Rightarrow> Inl Episode_not_found
      | Some e \<Rightarrow>
          if me_status e = Completed \<and> me_outcome e \<noteq> Some Unknown then Inl Already_completed
          else if list_ex (\<lambda>r. er_hostCallId r = callId) (ms_resolutions s) then Inl Already_resolved
          else (case acquireRuntimeLease alive (ms_lease s) (rt_instance rt) (rt_pid rt) (rt_now rt) of
                  Inl l \<Rightarrow> Inl (Lease_unavailable (rl_generation l))
                | Inr lease \<Rightarrow>
                    if \<not> canResolveMutationEpisode e (rl_generation lease) then Inl Epoch_active
                    else Inr (s\<lparr>ms_lease := Some lease,
                                ms_resolutions := resolveUnknownMutationOutcome (ms_resolutions s)
                                  \<lparr>er_resolutionId = resolutionId, er_hostCallId = callId,
                                   er_resolvedAt = rt_now rt,
                                   er_resolvingRuntimeInstanceId = rl_holder lease,
                                   er_resolvingLeaseGeneration = rl_generation lease\<rparr>\<rparr>)))"

text \<open>The mutation part of the implementation record: refused while a dispatch is open.\<close>
definition bind_implementation :: "string \<Rightarrow> mutation_state \<Rightarrow> mutation_block + mutation_state" where
  "bind_implementation digest s =
     (let open_episodes = unresolvedMutationEpisodes (ms_episodes s) (ms_resolutions s)
      in if open_episodes \<noteq> [] then Inl (Episodes_unresolved (length open_episodes))
         else Inr (s\<lparr>ms_episodes :=
                reconcileMutationEpisodes (ms_episodes s) (ms_resolutions s) digest\<rparr>))"

inductive mutation_step :: "(nat \<Rightarrow> bool) \<Rightarrow> mutation_state \<Rightarrow> mutation_state \<Rightarrow> bool" for alive where
  dispatch: "recordMutationDispatch alive rt i c n s = Inr s' \<Longrightarrow> mutation_step alive s s'"
| completion: "commitMutationCompletion alive rt e t out s = Inr s' \<Longrightarrow> mutation_step alive s s'"
| resolution: "reconcileMutationEpisodeTool alive rt i c s = Inr s' \<Longrightarrow> mutation_step alive s s'"
| binding: "bind_implementation d s = Inr s' \<Longrightarrow> mutation_step alive s s'"

text \<open>A fresh session: no lease, nothing dispatched.\<close>
definition mutation_init :: mutation_state where
  "mutation_init = \<lparr>ms_lease = None, ms_episodes = [], ms_resolutions = []\<rparr>"

text \<open>Reachable under any process liveness: it may change between the steps.\<close>
inductive mutation_reachable :: "mutation_state \<Rightarrow> bool" where
  init: "mutation_reachable mutation_init"
| step: "mutation_reachable s \<Longrightarrow> mutation_step alive s s' \<Longrightarrow> mutation_reachable s'"

section \<open>The checks as statements\<close>

lemma scan_episodes_None:
  "scan_episodes seen es = None \<longleftrightarrow>
     distinct (map me_hostCallId es) \<and> (\<forall>e \<in> set es. me_hostCallId e \<notin> set seen)"
  by (induction es arbitrary: seen) (auto simp: not_in_image)

definition resolution_ok :: "mutation_episode list \<Rightarrow> episode_resolution \<Rightarrow> bool" where
  "resolution_ok es r =
     (\<exists>e. List.find (\<lambda>e. me_hostCallId e = er_hostCallId r) es = Some e \<and> resolvable e
          \<and> me_leaseGeneration e < er_resolvingLeaseGeneration r)"

lemma scan_resolutions_None:
  "scan_resolutions es seen rs = None \<longleftrightarrow>
     distinct (map er_hostCallId rs) \<and>
     (\<forall>r \<in> set rs. er_hostCallId r \<notin> set seen \<and> resolution_ok es r)"
proof (induction rs arbitrary: seen)
  case (Cons r rs)
  show ?case
    by (cases "List.find (\<lambda>e. me_hostCallId e = er_hostCallId r) es")
      (auto simp: resolution_ok_def Cons.IH not_in_image)
qed simp

lemma enforce_None_iff:
  "enforceMutationEpisodeInvariants es rs = None \<longleftrightarrow>
     distinct (map me_hostCallId es) \<and> distinct (map er_hostCallId rs) \<and>
     (\<forall>r \<in> set rs. resolution_ok es r)"
  by (auto simp: enforceMutationEpisodeInvariants_def scan_episodes_None scan_resolutions_None
      split: option.split) (metis list.set(1) empty_iff option.distinct(1) scan_episodes_None)+

section \<open>The dispatch ledger\<close>

lemma authorize_iff:
  "authorizeMutationEpisode es i = Inr es' \<longleftrightarrow>
     ai_hostCallId i \<notin> me_hostCallId ` set es \<and> es' = es @ [authorized_episode i]"
  by (auto simp: authorizeMutationEpisode_def find_None_iff not_in_image split: option.splits
      dest!: find_SomeD)

definition dispatch_entry ::
  "mutation_episode list \<Rightarrow> authorize_input \<Rightarrow> mutation_episode list option" where
  "dispatch_entry es i =
     (case authorizeMutationEpisode es i of Inl _ \<Rightarrow> None | Inr es' \<Rightarrow> Some es')"

lemma authorized_episode_call [simp]: "me_hostCallId (authorized_episode i) = ai_hostCallId i"
  by (simp add: authorized_episode_def)

interpretation dispatches: keyed_ledger me_hostCallId authorized_episode dispatch_entry
proof
  show "dispatch_entry l i = Some (l @ [authorized_episode i])"
    if "me_hostCallId (authorized_episode i) \<notin> me_hostCallId ` set l" for i l
    using that authorize_iff [of l i "l @ [authorized_episode i]"] by (simp add: dispatch_entry_def)
  show "dispatch_entry l i = None"
    if "me_hostCallId (authorized_episode i) \<in> me_hostCallId ` set l" for i l
    using that authorize_iff [of l i]
    by (cases "authorizeMutationEpisode l i") (auto simp: dispatch_entry_def)
qed

text \<open>Resolutions are the second keyed ledger: the writer that leaves the list alone on a
  known call is the one that refuses.\<close>

definition resolution_entry ::
  "episode_resolution list \<Rightarrow> episode_resolution \<Rightarrow> episode_resolution list option" where
  "resolution_entry rs r =
     (if list_ex (\<lambda>q. er_hostCallId q = er_hostCallId r) rs then None
      else Some (resolveUnknownMutationOutcome rs r))"

interpretation resolutions: keyed_ledger er_hostCallId "\<lambda>r. r" resolution_entry
  by unfold_locales
    (auto simp: resolution_entry_def resolveUnknownMutationOutcome_def list_ex_iff not_in_image)

lemma resolve_outcome_ledger:
  "resolveUnknownMutationOutcome rs r =
     (case resolution_entry rs r of None \<Rightarrow> rs | Some rs' \<Rightarrow> rs')"
  by (simp add: resolution_entry_def resolveUnknownMutationOutcome_def)

section \<open>The lease\<close>

definition lease_generation :: "runtime_lease option \<Rightarrow> nat" where
  "lease_generation l = (case l of None \<Rightarrow> 0 | Some l \<Rightarrow> rl_generation l)"

lemma acquired_generation:
  assumes "acquireRuntimeLease alive cur i pid t = Inr l"
  shows "lease_generation cur \<le> rl_generation l"
    and "lease_generation cur < rl_generation l \<Longrightarrow>
          cur = None \<or> (\<exists>c. cur = Some c \<and> rl_holder c \<noteq> i \<and> \<not> alive (rl_holderPid c))"
  using assms
  by (auto simp: acquireRuntimeLease_def lease_generation_def split: option.splits if_splits)

section \<open>Invariant\<close>

definition mutation_inv :: "mutation_state \<Rightarrow> bool" where
  "mutation_inv s =
     (enforceMutationEpisodeInvariants (ms_episodes s) (ms_resolutions s) = None \<and>
      list_all refineMutationEpisode_ok (ms_episodes s) \<and>
      (\<forall>e \<in> set (ms_episodes s). me_leaseGeneration e \<le> lease_generation (ms_lease s)) \<and>
      (\<forall>r \<in> set (ms_resolutions s). er_resolvingLeaseGeneration r \<le> lease_generation (ms_lease s)))"

text \<open>An update that keeps keys, generations and the resolvability of every episode keeps
  every resolution valid.\<close>

lemma find_map:
  "(\<And>e. me_hostCallId (f e) = me_hostCallId e) \<Longrightarrow>
     List.find (\<lambda>e. me_hostCallId e = c) (map f es) =
     map_option f (List.find (\<lambda>e. me_hostCallId e = c) es)"
  by (induction es) auto

lemma resolution_ok_map:
  assumes "resolution_ok es r" and "\<And>e. me_hostCallId (f e) = me_hostCallId e"
    and "\<And>e. me_leaseGeneration (f e) = me_leaseGeneration e"
    and "\<And>e. e \<in> set es \<Longrightarrow> me_hostCallId e = er_hostCallId r \<Longrightarrow> resolvable e \<Longrightarrow> resolvable (f e)"
  shows "resolution_ok (map f es) r"
  using assms(1) find_SomeD assms(4) unfolding resolution_ok_def
  by (force simp: find_map [OF assms(2)] assms(3))

lemma resolution_ok_append:
  "resolution_ok es r \<Longrightarrow> resolution_ok (es @ fs) r"
  by (auto simp: resolution_ok_def) (induction es; auto)

lemma dispatch_inv:
  assumes "mutation_inv s" and "recordMutationDispatch alive rt i c n s = Inr s'"
  shows "mutation_inv s'"
proof -
  obtain lease es where l: "acquireRuntimeLease alive (ms_lease s) (rt_instance rt) (rt_pid rt) (rt_now rt) = Inr lease"
    and a: "authorizeMutationEpisode (ms_episodes s)
              \<lparr>ai_episodeId = i, ai_hostCallId = c, ai_toolName = n, ai_runtimeInstanceId = rt_instance rt,
               ai_leaseGeneration = rl_generation lease, ai_authorizedAt = rt_now rt\<rparr> = Inr es"
    and s': "s' = s\<lparr>ms_lease := Some lease, ms_episodes := es\<rparr>"
    using assms(2) by (auto simp: recordMutationDispatch_def split: sum.splits)
  have gen: "lease_generation (ms_lease s) \<le> rl_generation lease"
    by (rule acquired_generation(1) [OF l])
  show ?thesis
    using assms(1) a gen
    by (auto simp: mutation_inv_def s' authorize_iff enforce_None_iff resolution_ok_append
        lease_generation_def [of "Some lease"] refineMutationEpisode_ok_def authorized_episode_def
        refine_dispatch_authorized_ok_def intro: order_trans)
qed

lemma completion_inv:
  assumes "mutation_inv s" and "commitMutationCompletion alive rt e0 t out s = Inr s'"
  shows "mutation_inv s'"
proof (cases "s' = s")
  case False
  obtain e lease where e: "List.find (\<lambda>e. me_hostCallId e = me_hostCallId e0) (ms_episodes s) = Some e"
    and nores: "\<not> list_ex (\<lambda>r. er_hostCallId r = me_hostCallId e) (ms_resolutions s)"
    and l: "acquireRuntimeLease alive (ms_lease s) (rt_instance rt) (rt_pid rt) (rt_now rt) = Inr lease"
    and s': "s' = s\<lparr>ms_lease := Some lease, ms_episodes := completeMutationEpisode (ms_episodes s)
                       (me_hostCallId e) (me_toolName e) t out\<rparr>"
    using assms(2) False by (auto simp: commitMutationCompletion_def split: option.splits sum.splits if_splits)
  let ?f = "\<lambda>x. if me_hostCallId x = me_hostCallId e \<and> me_toolName x = me_toolName e
                \<and> me_status x = Dispatch_authorized
              then x\<lparr>me_status := Completed, me_completedAt := Some t, me_outcome := Some out\<rparr>
              else x"
  have gen: "lease_generation (ms_lease s) \<le> rl_generation lease"
    by (rule acquired_generation(1) [OF l])
  have keys: "map (me_hostCallId \<circ> ?f) es = map me_hostCallId es" for es by simp
  have ok: "resolution_ok (map ?f (ms_episodes s)) r" if "r \<in> set (ms_resolutions s)" for r
    using assms(1) nores that
    by (intro resolution_ok_map) (auto simp: mutation_inv_def enforce_None_iff list_ex_iff)
  show ?thesis
    using assms(1) gen ok
    by (auto simp: mutation_inv_def s' completeMutationEpisode_def enforce_None_iff keys list_all_iff
        lease_generation_def [of "Some lease"] refineMutationEpisode_ok_def
        refine_dispatch_authorized_ok_def refine_completed_ok_def intro: order_trans)
qed (use assms in simp)

lemma resolution_inv:
  assumes "mutation_inv s" and "reconcileMutationEpisodeTool alive rt i c s = Inr s'"
  shows "mutation_inv s'"
proof -
  obtain e lease where e: "List.find (\<lambda>e. me_hostCallId e = c) (ms_episodes s) = Some e"
    and res: "resolvable e"
    and nores: "\<not> list_ex (\<lambda>r. er_hostCallId r = c) (ms_resolutions s)"
    and l: "acquireRuntimeLease alive (ms_lease s) (rt_instance rt) (rt_pid rt) (rt_now rt) = Inr lease"
    and can: "canResolveMutationEpisode e (rl_generation lease)"
    and s': "s' = s\<lparr>ms_lease := Some lease, ms_resolutions := ms_resolutions s @
        [\<lparr>er_resolutionId = i, er_hostCallId = c, er_resolvedAt = rt_now rt,
          er_resolvingRuntimeInstanceId = rl_holder lease,
          er_resolvingLeaseGeneration = rl_generation lease\<rparr>]\<rparr>"
    using assms(2)
    by (auto simp: reconcileMutationEpisodeTool_def resolveUnknownMutationOutcome_def resolvable_def
        split: option.splits sum.splits if_splits) (metis episode_status.exhaust)+
  have gen: "lease_generation (ms_lease s) \<le> rl_generation lease"
    by (rule acquired_generation(1) [OF l])
  have new: "resolution_ok (ms_episodes s) \<lparr>er_resolutionId = i, er_hostCallId = c,
      er_resolvedAt = rt_now rt, er_resolvingRuntimeInstanceId = rl_holder lease,
      er_resolvingLeaseGeneration = rl_generation lease\<rparr>"
    using e res can by (simp add: resolution_ok_def canResolveMutationEpisode_def)
  show ?thesis
    using assms(1) gen new nores
    by (auto simp: mutation_inv_def s' enforce_None_iff list_ex_iff
        lease_generation_def [of "Some lease"] intro: order_trans)
qed

lemma reconcile_episode_keeps:
  "me_hostCallId (reconcile_episode R d e) = me_hostCallId e"
  "me_leaseGeneration (reconcile_episode R d e) = me_leaseGeneration e"
  "me_status (reconcile_episode R d e) = me_status e"
  "me_outcome (reconcile_episode R d e) = me_outcome e"
  by (auto simp: reconcile_episode_def)

lemma reconcile_episode_ok:
  "refineMutationEpisode_ok e \<Longrightarrow> refineMutationEpisode_ok (reconcile_episode R d e)"
  by (auto simp: refineMutationEpisode_ok_def reconcile_episode_def refine_completed_ok_def
      split: episode_status.splits)

lemma binding_inv:
  assumes "mutation_inv s" and "bind_implementation d s = Inr s'"
  shows "mutation_inv s'"
proof -
  let ?f = "reconcile_episode (resolved_calls (ms_resolutions s)) d"
  have s': "s' = s\<lparr>ms_episodes := map ?f (ms_episodes s)\<rparr>"
    using assms(2) by (auto simp: bind_implementation_def reconcileMutationEpisodes_def Let_def split: if_splits)
  have keys: "me_hostCallId \<circ> ?f = me_hostCallId" by (auto simp: reconcile_episode_keeps)
  have "resolution_ok (map ?f (ms_episodes s)) r" if "r \<in> set (ms_resolutions s)" for r
    using assms(1) that
    by (intro resolution_ok_map)
      (auto simp: mutation_inv_def enforce_None_iff resolvable_def reconcile_episode_keeps)
  then show ?thesis
    using assms(1)
    by (auto simp: mutation_inv_def s' enforce_None_iff keys list_all_iff reconcile_episode_keeps
        reconcile_episode_ok)
qed

lemma mutation_step_inv: "mutation_step alive s s' \<Longrightarrow> mutation_inv s \<Longrightarrow> mutation_inv s'"
  by (induction rule: mutation_step.induct) (auto intro: dispatch_inv completion_inv resolution_inv binding_inv)

lemma mutation_reachable_inv: "mutation_reachable s \<Longrightarrow> mutation_inv s"
proof (induction rule: mutation_reachable.induct)
  case init
  show ?case by (simp add: mutation_inv_def mutation_init_def enforce_None_iff)
qed (rule mutation_step_inv)

section \<open>Consequences\<close>

lemma call_determines_episode:
  assumes "mutation_inv s" and "e \<in> set (ms_episodes s)" and "r \<in> set (ms_resolutions s)"
    and "me_hostCallId e = er_hostCallId r"
  shows "resolvable e \<and> me_leaseGeneration e < er_resolvingLeaseGeneration r"
proof -
  obtain e' where f: "List.find (\<lambda>e. me_hostCallId e = er_hostCallId r) (ms_episodes s) = Some e'"
    and "resolvable e'" "me_leaseGeneration e' < er_resolvingLeaseGeneration r"
    using assms(1,3) by (auto simp: mutation_inv_def enforce_None_iff resolution_ok_def)
  moreover have "e' = e"
    using find_SomeD [OF f] assms(1,2,4)
    by (simp add: mutation_inv_def enforce_None_iff distinct_map inj_on_def)
  ultimately show ?thesis by simp
qed

lemma resolvable_ineligible:
  "refineMutationEpisode_ok e \<Longrightarrow> resolvable e \<Longrightarrow>
     me_evidenceStatus e = Ineligible \<and> me_implementationDigest e = None"
  by (auto simp: refineMutationEpisode_ok_def resolvable_def refine_dispatch_authorized_ok_def
      refine_completed_ok_def split: episode_status.splits)

lemma eligible_completed:
  "refineMutationEpisode_ok e \<Longrightarrow> me_evidenceStatus e = Eligible \<Longrightarrow>
     me_status e = Completed \<and> me_outcome e \<noteq> None \<and> me_outcome e \<noteq> Some Unknown \<and> me_implementationDigest e \<noteq> None"
  by (auto simp: refineMutationEpisode_ok_def refine_dispatch_authorized_ok_def
      refine_completed_ok_def split: episode_status.splits)

lemma refine_in: "mutation_inv s \<Longrightarrow> e \<in> set (ms_episodes s) \<Longrightarrow> refineMutationEpisode_ok e"
  by (simp add: mutation_inv_def list_all_iff)

definition dispatched_calls :: "mutation_state \<Rightarrow> string set" where
  "dispatched_calls s = me_hostCallId ` set (ms_episodes s)"

lemma complete_keeps_calls:
  "me_hostCallId ` set (completeMutationEpisode es c n t out) = me_hostCallId ` set es"
  unfolding completeMutationEpisode_def set_map image_image by (rule image_cong) simp_all

lemma step_keeps_calls: "mutation_step alive s s' \<Longrightarrow> dispatched_calls s \<subseteq> dispatched_calls s'"
proof (induction rule: mutation_step.induct)
  case (dispatch rt i c n s s')
  then show ?case
    by (auto simp: recordMutationDispatch_def dispatched_calls_def authorize_iff split: sum.splits)
next
  case (completion rt e t out s s')
  then show ?case
    by (auto simp: commitMutationCompletion_def dispatched_calls_def complete_keeps_calls
        split: option.splits sum.splits if_splits)
next
  case (resolution rt i c s s')
  then show ?case
    by (auto simp: reconcileMutationEpisodeTool_def dispatched_calls_def split: option.splits sum.splits if_splits)
next
  case (binding d s s')
  then show ?case
    by (auto simp: bind_implementation_def dispatched_calls_def reconcileMutationEpisodes_def Let_def
        reconcile_episode_keeps image_iff split: if_splits)
qed

inductive mutation_run :: "mutation_state \<Rightarrow> mutation_state \<Rightarrow> bool" where
  run_refl: "mutation_run s s"
| run_step: "mutation_run s s' \<Longrightarrow> mutation_step alive s' s'' \<Longrightarrow> mutation_run s s''"

lemma run_keeps_calls: "mutation_run s s' \<Longrightarrow> dispatched_calls s \<subseteq> dispatched_calls s'"
  by (induction rule: mutation_run.induct) (auto dest: step_keeps_calls)

lemma dispatch_records: "recordMutationDispatch alive rt i c n s = Inr s' \<Longrightarrow> c \<in> dispatched_calls s'"
  by (auto simp: recordMutationDispatch_def dispatched_calls_def authorize_iff split: sum.splits)

lemma dispatch_refused: "c \<in> dispatched_calls s \<Longrightarrow> recordMutationDispatch alive rt i c n s \<noteq> Inr s'"
  by (auto simp: recordMutationDispatch_def dispatched_calls_def authorize_iff split: sum.splits)

lemma bound_eligible:
  assumes "refineMutationEpisode_ok e" and "me_evidenceStatus (reconcile_episode R d e) = Eligible"
  shows "me_implementationDigest (reconcile_episode R d e) = Some d"
  using assms by (cases "me_status e")
    (auto simp: refineMutationEpisode_ok_def refine_dispatch_authorized_ok_def refine_completed_ok_def
      reconcile_episode_def split: if_splits)

lemma bound_ineligible:
  assumes "refineMutationEpisode_ok e" and "me_evidenceStatus (reconcile_episode R d e) = Ineligible"
    and "me_hostCallId e \<notin> R" and "me_status e \<noteq> Dispatch_authorized"
  shows "me_outcome e = Some Unknown"
  using assms by (cases "me_status e")
    (auto simp: refineMutationEpisode_ok_def refine_completed_ok_def reconcile_episode_def split: if_splits)

lemma ineligible_unbound:
  "refineMutationEpisode_ok e \<Longrightarrow> me_evidenceStatus e = Ineligible \<Longrightarrow> me_implementationDigest e = None"
  by (auto simp: refineMutationEpisode_ok_def refine_dispatch_authorized_ok_def refine_completed_ok_def
      split: episode_status.splits)

section \<open>Properties\<close>

text \<open>Every session a sequence of dispatches, completions, resolutions and bindings can reach, by
  any runtimes and under any process liveness, passes the schema: host calls are unique, every episode
  is well formed, and every resolution of an unknown outcome was made under a lease generation later than
  the dispatch it resolves and not later than the current one (C2).\<close>

theorem mutation_sessions_valid:
  assumes "mutation_reachable s"
  shows "enforceMutationEpisodeInvariants (ms_episodes s) (ms_resolutions s) = None \<and>
     list_all refineMutationEpisode_ok (ms_episodes s) \<and>
     list_all (\<lambda>r. list_ex (\<lambda>e. me_hostCallId e = er_hostCallId r \<and> resolvable e \<and>
                       me_leaseGeneration e < er_resolvingLeaseGeneration r) (ms_episodes s) \<and>
                     er_resolvingLeaseGeneration r \<le> lease_generation (ms_lease s)) (ms_resolutions s)"
  using mutation_reachable_inv [OF assms]
  by (auto simp: mutation_inv_def enforce_None_iff resolution_ok_def list_all_iff list_ex_iff dest!: find_SomeD)

text \<open>An episode counts as evidence only when its completion was seen with a known outcome, a
  digest was bound to it, and no resolution names its call: a dispatch whose outcome is unknown, or that
  was resolved by a later lease, never becomes evidence (C3).\<close>

theorem evidence_needs_known_outcome:
  assumes "mutation_reachable s" and "e \<in> set (ms_episodes s)" and "me_evidenceStatus e = Eligible"
  shows "me_status e = Completed \<and> me_outcome e \<in> {Some Success, Some Failure} \<and>
     me_implementationDigest e \<noteq> None \<and> me_hostCallId e \<notin> resolved_calls (ms_resolutions s)"
proof -
  have inv: "mutation_inv s" by (rule mutation_reachable_inv [OF assms(1)])
  have ok: "refineMutationEpisode_ok e" by (rule refine_in [OF inv assms(2)])
  have "me_hostCallId e \<notin> resolved_calls (ms_resolutions s)"
    using call_determines_episode [OF inv assms(2)] resolvable_ineligible [OF ok] assms(3)
    by (auto simp: resolved_calls_def)
  moreover have "me_outcome e \<in> {Some Success, Some Failure}"
    using eligible_completed [OF ok assms(3)] by (cases "me_outcome e") (auto intro: episode_outcome.exhaust)
  ultimately show ?thesis using eligible_completed [OF ok assms(3)] by simp
qed

text \<open>A host call is dispatched at most once: after one dispatch, no later state of the session,
  whatever runtimes wrote in between, dispatches the same call again (C4).\<close>

theorem dispatch_at_most_once:
  assumes "recordMutationDispatch alive rt i c n s = Inr s'" and "mutation_run s' s''"
  shows "\<exists>b. recordMutationDispatch alive' rt' i' c n' s'' = Inl b"
proof -
  have "c \<in> dispatched_calls s''"
    using dispatch_records [OF assms(1)] run_keeps_calls [OF assms(2)] by blast
  then show ?thesis
    using dispatch_refused by (cases "recordMutationDispatch alive' rt' i' c n' s''") auto
qed


section \<open>A session\<close>

text \<open>One runtime dispatches and completes a call, another takes over after a crash and resolves a
  second call whose outcome it cannot know.\<close>

definition sample_runtime :: "string \<Rightarrow> nat \<Rightarrow> runtime" where
  "sample_runtime i n = \<lparr>rt_instance = i, rt_pid = n, rt_now = ''2026-01-01T00:00:00.000Z''\<rparr>"

definition sample_alive :: "nat \<Rightarrow> bool" where
  "sample_alive p = (p = 2)"

definition sample1 :: mutation_state where
  "sample1 = projr (recordMutationDispatch sample_alive (sample_runtime ''r1'' 1) ''e1'' ''call1'' ''edit'' mutation_init)"

definition sample2 :: mutation_state where
  "sample2 = projr (commitMutationCompletion sample_alive (sample_runtime ''r1'' 1) (hd (ms_episodes sample1)) ''2026-01-01T00:00:01.000Z'' Success sample1)"

definition sample3 :: mutation_state where
  "sample3 = projr (recordMutationDispatch sample_alive (sample_runtime ''r1'' 1) ''e2'' ''call2'' ''write'' sample2)"

definition sample4 :: mutation_state where
  "sample4 = projr (reconcileMutationEpisodeTool sample_alive (sample_runtime ''r2'' 2) ''res1'' ''call2'' sample3)"

definition sample5 :: mutation_state where
  "sample5 = projr (bind_implementation ''d1'' sample4)"

lemma sample_steps:
  "recordMutationDispatch sample_alive (sample_runtime ''r1'' 1) ''e1'' ''call1'' ''edit'' mutation_init = Inr sample1"
  "commitMutationCompletion sample_alive (sample_runtime ''r1'' 1) (hd (ms_episodes sample1)) ''2026-01-01T00:00:01.000Z'' Success sample1 = Inr sample2"
  "recordMutationDispatch sample_alive (sample_runtime ''r1'' 1) ''e2'' ''call2'' ''write'' sample2 = Inr sample3"
  "reconcileMutationEpisodeTool sample_alive (sample_runtime ''r2'' 2) ''res1'' ''call2'' sample3 = Inr sample4"
  "bind_implementation ''d1'' sample4 = Inr sample5"
  by code_simp+

lemma sample_run: "mutation_run sample1 sample5"
  by (rule run_step [OF run_step [OF run_step [OF run_step [OF run_refl]]]])
    (rule mutation_step.completion mutation_step.dispatch mutation_step.resolution mutation_step.binding,
      rule sample_steps)+

lemma sample_reachable: "mutation_reachable sample4" "mutation_reachable sample5"
proof -
  have "mutation_reachable sample1"
    by (rule mutation_reachable.step [OF mutation_reachable.init mutation_step.dispatch]) (rule sample_steps(1))
  then have "mutation_reachable sample2"
    by (rule mutation_reachable.step [OF _ mutation_step.completion]) (rule sample_steps(2))
  then have "mutation_reachable sample3"
    by (rule mutation_reachable.step [OF _ mutation_step.dispatch]) (rule sample_steps(3))
  then show r4: "mutation_reachable sample4"
    by (rule mutation_reachable.step [OF _ mutation_step.resolution]) (rule sample_steps(4))
  then show "mutation_reachable sample5"
    by (rule mutation_reachable.step [OF _ mutation_step.binding]) (rule sample_steps(5))
qed

theorem mutation_sessions_valid_witness:
  "enforceMutationEpisodeInvariants (ms_episodes sample5) (ms_resolutions sample5) = None"
  using mutation_sessions_valid [OF sample_reachable(2)] by simp

theorem evidence_needs_known_outcome_witness:
  "me_implementationDigest (hd (ms_episodes sample5)) \<noteq> None"
proof -
  have "hd (ms_episodes sample5) \<in> set (ms_episodes sample5)" by code_simp
  moreover have "me_evidenceStatus (hd (ms_episodes sample5)) = Eligible" by code_simp
  ultimately show ?thesis using evidence_needs_known_outcome [OF sample_reachable(2)] by blast
qed

theorem dispatch_at_most_once_witness:
  "\<exists>b. recordMutationDispatch sample_alive (sample_runtime ''r3'' 3) ''e3'' ''call1'' ''edit'' sample5 = Inl b"
  by (rule dispatch_at_most_once [OF sample_steps(1) sample_run])


end
