(* ===== verification/Review_Assurance.thy ===== *)
theory Review_Assurance
  imports JS_Text "HOL-Library.Product_Lexorder"
begin

text \<open>Independent review assurance: obligations, attempts, the durable dispatch ledger and the
  invocation evidence (\<open>state/evidence-review.ts\<close>, \<open>state/review-dispatch.ts\<close>), the cross-record
  refinements of the schema (\<open>state/evidence-review-ledger-refinements.ts\<close>,
  \<open>state/evidence-review-assurance-refinements.ts\<close>) and the transport predicates
  (\<open>state/evidence-review-invocation.ts\<close>).

  The records have the fields these operations read.  A refinement is modelled as the predicate that
  it adds no issue.  A \<open>new Map\<close> built from a list keeps the last entry of a key: \<open>last_by\<close>.\<close>

section \<open>Records\<close>

datatype obligation_type = Ob_plan | Ob_implement | Ob_architecture | Ob_review
datatype obligation_status = Ob_pending | Ob_fulfilled | Ob_consumed | Ob_blocked

datatype artifact_kind = Art_plan | Art_adr

datatype subject_scope =
    Scope_repository "string list" "string list"
  | Scope_content string nat
  | Scope_artifact artifact_kind string "string list"
  | Scope_implementation string
  | Scope_unavailable string

datatype review_subject =
    Repository_subject string string
  | Content_subject string string nat

fun subject_materialDigest :: "review_subject \<Rightarrow> string" where
  "subject_materialDigest (Repository_subject m d) = m"
| "subject_materialDigest (Content_subject m d n) = m"

fun subject_subjectDigest :: "review_subject \<Rightarrow> string" where
  "subject_subjectDigest (Repository_subject m d) = d"
| "subject_subjectDigest (Content_subject m d n) = d"

record review_material =
  rm_content :: string
  rm_materialDigest :: string
  rm_subjectDigest :: string

record review_obligation =
  ro_obligationId :: string
  ro_obligationType :: obligation_type
  ro_iteration :: nat
  ro_reviewCycle :: "nat option"
  ro_planVersion :: nat
  ro_createdAt :: string
  ro_status :: obligation_status
  ro_invocationId :: "string option"
  ro_blockedCode :: "string option"
  ro_fulfilledAt :: "string option"
  ro_consumedAt :: "string option"
  ro_subjectDigest :: string
  ro_claimDeclarationsDigest :: "string option"
  ro_criteriaVersion :: string
  ro_mandateDigest :: string
  ro_reviewMaterial :: "review_material option"
  ro_reviewSubject :: "review_subject option"
  ro_reviewSubjectScope :: subject_scope
  ro_maxReviewerAttempts :: nat

datatype attempt_status = At_created | At_rejected | At_bound | At_stale
datatype rearm_trigger = Interrupted | Spent
datatype attempt_origin = Initial | Dispatch_rearm string rearm_trigger
datatype rejection_reason = Consistency_invalid

record review_attempt =
  at_attemptId :: string
  at_obligationId :: string
  at_obligationType :: obligation_type
  at_subjectDigest :: string
  at_ordinal :: nat
  at_status :: attempt_status
  at_childSessionId :: "string option"
  at_origin :: attempt_origin
  at_rejectionReason :: "rejection_reason option"
  at_createdAt :: string
  at_completedAt :: "string option"

datatype dispatch_status = Di_authorized | Di_completed | Di_outcome_unknown

record review_dispatch =
  rd_dispatchId :: string
  rd_attemptId :: string
  rd_obligationId :: string
  rd_hostCallId :: string
  rd_canonicalPromptDigest :: string
  rd_dispatchAuthorizedAt :: string
  rd_status :: dispatch_status
  rd_completedAt :: "string option"

record model_selection =
  mo_providerID :: string
  mo_modelID :: string
  mo_variant :: "string option"

record message_capture =
  mc_childSessionId :: string
  mc_obligationId :: string
  mc_attemptId :: string
  mc_requestMessageId :: string
  mc_responseMessageId :: string
  mc_requestDigest :: string
  mc_payloadDigest :: string
  mc_model :: model_selection
  mc_assistantMessageId :: string

record native_provenance =
  np_nativeCallId :: string
  np_requestMessageId :: string
  np_responseMessageId :: string
  np_requestDigest :: string
  np_payloadDigest :: string
  np_model :: model_selection
  np_assistantMessageId :: string
  np_requestModel :: model_selection

datatype invocation_mode = Native_task_message_json | Native_subagent_message_json

record review_invocation =
  iv_invocationId :: string
  iv_obligationId :: string
  iv_obligationType :: obligation_type
  iv_childSessionId :: string
  iv_attemptId :: string
  iv_invocationMode :: invocation_mode
  iv_transportVersion :: nat
  iv_capture :: message_capture
  iv_nativeProvenance :: "native_provenance option"
  iv_promptHash :: string
  iv_findingsHash :: string
  iv_consumedByObligationId :: "string option"
  iv_capturedVerdict :: "string option"

record capacity_lock =
  cl_code :: string
  cl_obligationId :: string
  cl_createdAt :: string

record review_assurance =
  as_obligations :: "review_obligation list"
  as_invocations :: "review_invocation list"
  as_attempts :: "review_attempt list"
  as_dispatches :: "review_dispatch list"
  as_capacityLock :: "capacity_lock option"

section \<open>Obligations and transport\<close>

definition reviewExhaustsBudget :: "string option \<Rightarrow> nat \<Rightarrow> nat \<Rightarrow> bool" where
  "reviewExhaustsBudget verdict iteration maxIterations =
     (verdict = Some ''changes_requested'' \<and> maxIterations \<le> iteration + 1)"

definition refineReviewCycleCoherence :: "review_obligation \<Rightarrow> bool" where
  "refineReviewCycleCoherence o1 =
     (if ro_obligationType o1 = Ob_review then ro_reviewCycle o1 = None
      else ro_reviewCycle o1 \<noteq> None)"

definition isOpenReviewObligation :: "review_obligation \<Rightarrow> bool" where
  "isOpenReviewObligation o1 =
     ((ro_status o1 = Ob_pending \<or> ro_status o1 = Ob_fulfilled) \<and> ro_consumedAt o1 = None)"

definition hasOutstandingReviewObligation :: "review_assurance option \<Rightarrow> bool" where
  "hasOutstandingReviewObligation a =
     opt_test (\<lambda>a. list_ex isOpenReviewObligation (as_obligations a)) a"

definition INTEGRITY_INCIDENT_BLOCKED_CODES :: "string list" where
  "INTEGRITY_INCIDENT_BLOCKED_CODES = [''SUBAGENT_EVIDENCE_REUSED'']"

definition hasUnresolvedIntegrityIncident :: "review_assurance option \<Rightarrow> bool" where
  "hasUnresolvedIntegrityIncident a =
     opt_test (\<lambda>a. list_ex (\<lambda>o1. ro_status o1 = Ob_blocked \<and>
        opt_test (\<lambda>c. c \<in> set INTEGRITY_INCIDENT_BLOCKED_CODES) (ro_blockedCode o1)) (as_obligations a)) a"

definition isHistoricalReviewTransport :: "review_invocation \<Rightarrow> bool" where
  "isHistoricalReviewTransport i =
     (iv_transportVersion i = 5 \<and> iv_invocationMode i = Native_task_message_json \<and>
      iv_nativeProvenance i = None)"

definition isBindableReviewTransport :: "review_invocation \<Rightarrow> bool" where
  "isBindableReviewTransport i =
     (iv_transportVersion i = 6 \<and> iv_invocationMode i = Native_subagent_message_json \<and>
      iv_nativeProvenance i \<noteq> None)"

definition isRecognizedReviewTransport :: "review_invocation \<Rightarrow> bool" where
  "isRecognizedReviewTransport i = (isHistoricalReviewTransport i \<or> isBindableReviewTransport i)"

definition provenanceMatchesCapture :: "native_provenance \<Rightarrow> message_capture \<Rightarrow> bool" where
  "provenanceMatchesCapture p c =
     (np_requestMessageId p = mc_requestMessageId c \<and> np_responseMessageId p = mc_responseMessageId c \<and>
      np_requestDigest p = mc_requestDigest c \<and> np_payloadDigest p = mc_payloadDigest c \<and>
      np_assistantMessageId p = mc_assistantMessageId c \<and>
      mo_providerID (np_model p) = mo_providerID (mc_model c) \<and>
      mo_modelID (np_model p) = mo_modelID (mc_model c) \<and>
      mo_variant (np_model p) = mo_variant (mc_model c) \<and>
      mo_providerID (np_requestModel p) = mo_providerID (mc_model c) \<and>
      mo_modelID (np_requestModel p) = mo_modelID (mc_model c) \<and>
      mo_variant (np_requestModel p) = mo_variant (mc_model c))"

text \<open>No issue: the schema admits the versions 5 and 6 only.\<close>
definition transport_generation_ok :: "review_invocation \<Rightarrow> bool" where
  "transport_generation_ok i =
     (if iv_transportVersion i = 5
      then iv_invocationMode i = Native_task_message_json \<and> iv_nativeProvenance i = None
      else iv_invocationMode i = Native_subagent_message_json \<and> iv_nativeProvenance i \<noteq> None)"

definition refineInvocationTransport :: "review_invocation \<Rightarrow> bool" where
  "refineInvocationTransport i =
     (transport_generation_ok i \<and>
      (case iv_nativeProvenance i of None \<Rightarrow> True | Some p \<Rightarrow> provenanceMatchesCapture p (iv_capture i)))"

section \<open>The dispatch ledger\<close>

definition emptyReviewAssurance :: review_assurance where
  "emptyReviewAssurance =
     \<lparr>as_obligations = [], as_invocations = [], as_attempts = [], as_dispatches = [], as_capacityLock = None\<rparr>"

definition ensureReviewAssurance :: "review_assurance option \<Rightarrow> review_assurance" where
  "ensureReviewAssurance a = (case a of None \<Rightarrow> emptyReviewAssurance | Some x \<Rightarrow> x)"

definition hasReleasedDispatch :: "review_assurance option \<Rightarrow> string \<Rightarrow> bool" where
  "hasReleasedDispatch a attemptId =
     opt_test (\<lambda>a. list_ex (\<lambda>d. rd_attemptId d = attemptId) (as_dispatches a)) a"

definition appendReviewDispatch :: "review_assurance option \<Rightarrow> review_dispatch \<Rightarrow> review_assurance" where
  "appendReviewDispatch a d =
     (let base = ensureReviewAssurance a in base\<lparr>as_dispatches := as_dispatches base @ [d]\<rparr>)"

definition markDispatchOutcomeUnknown :: "review_assurance option \<Rightarrow> string \<Rightarrow> review_assurance" where
  "markDispatchOutcomeUnknown a attemptId =
     (let base = ensureReviewAssurance a
      in base\<lparr>as_dispatches := map (\<lambda>d.
           if rd_attemptId d = attemptId \<and> rd_status d \<noteq> Di_outcome_unknown
           then d\<lparr>rd_status := Di_outcome_unknown\<rparr> else d) (as_dispatches base)\<rparr>)"

definition completeReviewDispatch ::
  "review_assurance option \<Rightarrow> string \<Rightarrow> string \<Rightarrow> review_assurance" where
  "completeReviewDispatch a hostCallId completedAt =
     (let base = ensureReviewAssurance a
      in base\<lparr>as_dispatches := map (\<lambda>d.
           if rd_hostCallId d = hostCallId \<and> rd_status d = Di_authorized
           then d\<lparr>rd_status := Di_completed, rd_completedAt := Some completedAt\<rparr> else d)
         (as_dispatches base)\<rparr>)"

definition hasAuthorizedDispatch :: "review_assurance option \<Rightarrow> string \<Rightarrow> string \<Rightarrow> bool" where
  "hasAuthorizedDispatch a hostCallId attemptId =
     opt_test (\<lambda>a. list_ex (\<lambda>d. rd_hostCallId d = hostCallId \<and> rd_attemptId d = attemptId \<and>
                              rd_status d = Di_authorized) (as_dispatches a)) a"

definition abandonReviewDispatch :: "review_assurance option \<Rightarrow> string \<Rightarrow> review_assurance" where
  "abandonReviewDispatch a hostCallId =
     (let base = ensureReviewAssurance a
      in base\<lparr>as_dispatches := map (\<lambda>d.
           if rd_hostCallId d = hostCallId \<and> rd_status d = Di_authorized
           then d\<lparr>rd_status := Di_outcome_unknown\<rparr> else d) (as_dispatches base)\<rparr>)"

section \<open>Refinements of the assurance schema\<close>

definition refineAssuranceIdentityUniqueness :: "review_assurance \<Rightarrow> bool" where
  "refineAssuranceIdentityUniqueness a =
     (distinct (map ro_obligationId (as_obligations a)) \<and>
      distinct (map iv_invocationId (as_invocations a)) \<and>
      distinct (map at_attemptId (as_attempts a)))"

text \<open>The scan of the dispatch ledger: the dispatch and host call ids seen so far, and the attempts with
  an active dispatch.\<close>
fun scan_dispatches ::
  "review_attempt list \<Rightarrow> string list \<Rightarrow> string list \<Rightarrow> string list \<Rightarrow> review_dispatch list \<Rightarrow> bool" where
  "scan_dispatches attempts ids calls active [] = True"
| "scan_dispatches attempts ids calls active (d # ds) =
     (if rd_dispatchId d \<in> set ids then False
      else if rd_hostCallId d \<in> set calls then False
      else (case last_by at_attemptId attempts (rd_attemptId d) of
              None \<Rightarrow> False
            | Some t \<Rightarrow>
                if at_obligationId t \<noteq> rd_obligationId d then False
                else if rd_status d \<noteq> Di_outcome_unknown \<and> rd_attemptId d \<in> set active then False
                else if rd_status d = Di_authorized \<and> truthy (rd_completedAt d) then False
                else if rd_status d = Di_completed \<and> \<not> truthy (rd_completedAt d) then False
                else scan_dispatches attempts (rd_dispatchId d # ids) (rd_hostCallId d # calls)
                       (if rd_status d \<noteq> Di_outcome_unknown then rd_attemptId d # active else active) ds))"

definition refineAssuranceDispatchCoherence :: "review_assurance \<Rightarrow> bool" where
  "refineAssuranceDispatchCoherence a = scan_dispatches (as_attempts a) [] [] [] (as_dispatches a)"

definition ordinal_key :: "review_attempt \<Rightarrow> string" where
  "ordinal_key t = at_obligationId t @ ''#'' @ show_nat (at_ordinal t)"

text \<open>The loop of \<open>hasCoherentOrdinals\<close>: keys seen, least ordinal per obligation, initial attempts.\<close>
fun scan_ordinals ::
  "string list \<Rightarrow> (string \<Rightarrow> nat option) \<Rightarrow> (string \<times> review_attempt) list \<Rightarrow> review_attempt list
     \<Rightarrow> ((string \<Rightarrow> nat option) \<times> (string \<times> review_attempt) list) option" where
  "scan_ordinals seen mins initials [] = Some (mins, initials)"
| "scan_ordinals seen mins initials (t # ts) =
     (if ordinal_key t \<in> set seen then None
      else
        (let mins' = mins(at_obligationId t \<mapsto>
               (case mins (at_obligationId t) of None \<Rightarrow> at_ordinal t | Some m \<Rightarrow> min m (at_ordinal t)))
         in if at_origin t = Initial then
              (if at_obligationId t \<in> set (map fst initials) then None
               else scan_ordinals (ordinal_key t # seen) mins' (initials @ [(at_obligationId t, t)]) ts)
            else scan_ordinals (ordinal_key t # seen) mins' initials ts))"

definition hasCoherentOrdinals :: "review_assurance \<Rightarrow> bool" where
  "hasCoherentOrdinals a =
     (case scan_ordinals [] Map.empty [] (as_attempts a) of
        None \<Rightarrow> False
      | Some (mins, initials) \<Rightarrow>
          list_all (\<lambda>(obligationId, t). mins obligationId = Some (at_ordinal t)) initials)"

definition lifecycle_ok :: "review_attempt \<Rightarrow> bool" where
  "lifecycle_ok t =
     (if at_status t = At_created
      then \<not> (truthy (at_completedAt t) \<or> at_rejectionReason t \<noteq> None)
      else truthy (at_completedAt t) \<and> \<not> (at_status t \<noteq> At_rejected \<and> at_rejectionReason t \<noteq> None))"

definition hasCoherentLifecycleFields :: "review_assurance \<Rightarrow> bool" where
  "hasCoherentLifecycleFields a = list_all lifecycle_ok (as_attempts a)"

definition predecessor_coherent :: "review_attempt \<Rightarrow> review_attempt \<Rightarrow> bool" where
  "predecessor_coherent t p =
     (\<not> (at_obligationId p \<noteq> at_obligationId t \<or> at_obligationType p \<noteq> at_obligationType t \<or>
         at_subjectDigest p \<noteq> at_subjectDigest t) \<and>
      \<not> (at_ordinal t \<le> at_ordinal p \<or> at_createdAt t < at_createdAt p))"

text \<open>The triggers a predecessor's durable release record admits, none when the list is empty
  (\<open>null\<close> in the code). The origin kind is \<open>dispatch_rearm\<close> here.\<close>
definition triggerReasonsForPredecessor ::
  "review_attempt \<Rightarrow> review_dispatch list \<Rightarrow> rearm_trigger list" where
  "triggerReasonsForPredecessor p dispatches =
     (let released = filter (\<lambda>d. rd_attemptId d = at_attemptId p) dispatches;
          has = (\<lambda>st. list_ex (\<lambda>d. rd_status d = st) released)
      in (case at_status p of
            At_rejected \<Rightarrow>
              (if at_rejectionReason p \<noteq> Some Consistency_invalid then []
               else if has Di_completed then [Spent] else [])
          | At_bound \<Rightarrow> []
          | At_created \<Rightarrow>
              (if has Di_authorized then [Interrupted]
               else if has Di_outcome_unknown then [Spent] else [])
          | At_stale \<Rightarrow> (if has Di_outcome_unknown then [Interrupted, Spent] else [])))"

definition lineage_ok :: "review_assurance \<Rightarrow> review_attempt \<Rightarrow> bool" where
  "lineage_ok a t =
     (case at_origin t of
        Initial \<Rightarrow> True
      | Dispatch_rearm predecessorId trigger \<Rightarrow>
          predecessorId \<noteq> [] \<and>
          (case last_by at_attemptId (as_attempts a) predecessorId of
             None \<Rightarrow> False
           | Some p \<Rightarrow> predecessor_coherent t p \<and>
               trigger \<in> set (triggerReasonsForPredecessor p (as_dispatches a))))"

definition hasCoherentPredecessorLineage :: "review_assurance \<Rightarrow> bool" where
  "hasCoherentPredecessorLineage a = list_all (lineage_ok a) (as_attempts a)"

definition refineAssuranceAttemptLineageCoherence :: "review_assurance \<Rightarrow> bool" where
  "refineAssuranceAttemptLineageCoherence a =
     (hasCoherentOrdinals a \<and> hasCoherentLifecycleFields a \<and> hasCoherentPredecessorLineage a)"

definition bound_attempt_ok :: "review_assurance \<Rightarrow> review_invocation \<Rightarrow> bool" where
  "bound_attempt_ok a i =
     (iv_attemptId i = [] \<or>
      (case last_by at_attemptId (as_attempts a) (iv_attemptId i) of
         None \<Rightarrow> False
       | Some t \<Rightarrow>
           at_obligationId t = iv_obligationId i \<and> at_obligationType t = iv_obligationType i \<and>
           (at_status t = At_bound \<or> at_status t = At_rejected) \<and>
           at_childSessionId t = Some (iv_childSessionId i) \<and> truthy (at_completedAt t)))"

definition hasBoundAttemptLinkage :: "review_assurance \<Rightarrow> bool" where
  "hasBoundAttemptLinkage a = list_all (bound_attempt_ok a) (as_invocations a)"

definition back_reference_ok :: "review_assurance \<Rightarrow> review_obligation \<Rightarrow> bool" where
  "back_reference_ok a o1 =
     ((truthy (ro_invocationId o1) \<longrightarrow>
         (case last_by iv_invocationId (as_invocations a) (the (ro_invocationId o1)) of
            None \<Rightarrow> False
          | Some i \<Rightarrow> iv_obligationId i = ro_obligationId o1 \<and> iv_obligationType i = ro_obligationType o1)) \<and>
      \<not> ((ro_status o1 = Ob_fulfilled \<or> ro_status o1 = Ob_consumed) \<and>
         (\<not> truthy (ro_invocationId o1) \<or> \<not> truthy (ro_fulfilledAt o1))) \<and>
      \<not> (ro_status o1 = Ob_consumed \<and> \<not> truthy (ro_consumedAt o1)))"

definition hasObligationBackReference :: "review_assurance \<Rightarrow> bool" where
  "hasObligationBackReference a = list_all (back_reference_ok a) (as_obligations a)"

definition hasConsumedByInvariant :: "review_assurance \<Rightarrow> bool" where
  "hasConsumedByInvariant a =
     list_all (\<lambda>i. iv_consumedByObligationId i = None \<or>
                  iv_consumedByObligationId i = Some (iv_obligationId i)) (as_invocations a)"

definition dispatchLinksInvocation :: "review_dispatch \<Rightarrow> review_invocation \<Rightarrow> bool" where
  "dispatchLinksInvocation d i =
     (rd_attemptId d = iv_attemptId i \<and> rd_obligationId d = iv_obligationId i \<and>
      Some (rd_hostCallId d) =
        (if iv_transportVersion i = 6 then map_option np_nativeCallId (iv_nativeProvenance i)
         else Some (iv_childSessionId i)) \<and>
      rd_canonicalPromptDigest d = iv_promptHash i)"

text \<open>The groups by attempt id of the code are the sublists with that attempt id.\<close>
definition validateInvocationDispatchLinks :: "review_assurance \<Rightarrow> bool" where
  "validateInvocationDispatchLinks a =
     list_all (\<lambda>i. length (filter (\<lambda>d. dispatchLinksInvocation d i \<and> rd_status d = Di_completed \<and>
                                      rd_completedAt d \<noteq> None)
                           (filter (\<lambda>d. rd_attemptId d = iv_attemptId i) (as_dispatches a))) = 1)
       (as_invocations a)"

definition validateDispatchInvocationLinks :: "review_assurance \<Rightarrow> bool" where
  "validateDispatchInvocationLinks a =
     list_all (\<lambda>d. let n = length (filter (\<lambda>i. dispatchLinksInvocation d i)
                             (filter (\<lambda>i. iv_attemptId i = rd_attemptId d) (as_invocations a)))
                  in \<not> (rd_status d = Di_completed \<and> n \<noteq> 1) \<and> \<not> (rd_status d \<noteq> Di_completed \<and> 0 < n))
       (as_dispatches a)"

definition refineAssuranceInvocationDispatchLinkage :: "review_assurance \<Rightarrow> bool" where
  "refineAssuranceInvocationDispatchLinkage a =
     (validateInvocationDispatchLinks a \<and> validateDispatchInvocationLinks a)"

definition refineAssuranceCapacityLockCoherence :: "review_assurance \<Rightarrow> bool" where
  "refineAssuranceCapacityLockCoherence a =
     (case as_capacityLock a of
        None \<Rightarrow> True
      | Some lock \<Rightarrow>
          opt_test (\<lambda>o1. ro_status o1 = Ob_blocked \<and> ro_blockedCode o1 = Some (cl_code lock))
            (List.find (\<lambda>o1. ro_obligationId o1 = cl_obligationId lock) (as_obligations a)))"

text \<open>The modelled part of the assurance schema.\<close>
definition assurance_ok :: "review_assurance \<Rightarrow> bool" where
  "assurance_ok a =
     (refineAssuranceIdentityUniqueness a \<and> refineAssuranceAttemptLineageCoherence a \<and>
      refineAssuranceDispatchCoherence a \<and>
      list_all refineInvocationTransport (as_invocations a) \<and>
      hasBoundAttemptLinkage a \<and> hasObligationBackReference a \<and> hasConsumedByInvariant a \<and>
      refineAssuranceInvocationDispatchLinkage a \<and> refineAssuranceCapacityLockCoherence a \<and>
      list_all refineReviewCycleCoherence (as_obligations a))"

section \<open>The dispatch ledger as a whole\<close>

definition is_active :: "review_dispatch \<Rightarrow> bool" where
  "is_active d = (rd_status d \<noteq> Di_outcome_unknown)"

definition dispatch_ok :: "review_attempt list \<Rightarrow> review_dispatch \<Rightarrow> bool" where
  "dispatch_ok attempts d =
     (opt_test (\<lambda>t. at_obligationId t = rd_obligationId d) (last_by at_attemptId attempts (rd_attemptId d)) \<and>
      (rd_status d = Di_authorized \<longrightarrow> \<not> truthy (rd_completedAt d)) \<and>
      (rd_status d = Di_completed \<longrightarrow> truthy (rd_completedAt d)))"

lemma scan_dispatches_iff:
  "scan_dispatches attempts ids calls active ds \<longleftrightarrow>
     distinct (map rd_dispatchId ds) \<and> (\<forall>d \<in> set ds. rd_dispatchId d \<notin> set ids) \<and>
     distinct (map rd_hostCallId ds) \<and> (\<forall>d \<in> set ds. rd_hostCallId d \<notin> set calls) \<and>
     list_all (dispatch_ok attempts) ds \<and>
     distinct (map rd_attemptId (filter is_active ds)) \<and>
     (\<forall>d \<in> set (filter is_active ds). rd_attemptId d \<notin> set active)"
proof (induction ds arbitrary: ids calls active)
  case (Cons d ds)
  show ?case
    by (cases "last_by at_attemptId attempts (rd_attemptId d)")
      (auto simp: Cons.IH dispatch_ok_def is_active_def not_in_image)
qed simp

lemma dispatch_coherence_iff:
  "refineAssuranceDispatchCoherence a \<longleftrightarrow>
     distinct (map rd_dispatchId (as_dispatches a)) \<and> distinct (map rd_hostCallId (as_dispatches a)) \<and>
     list_all (dispatch_ok (as_attempts a)) (as_dispatches a) \<and>
     distinct (map rd_attemptId (filter is_active (as_dispatches a)))"
  by (auto simp: refineAssuranceDispatchCoherence_def scan_dispatches_iff)

lemma distinct_filter_mono:
  "distinct (map f (filter P xs)) \<Longrightarrow> (\<And>x. x \<in> set xs \<Longrightarrow> f (g x) = f x) \<Longrightarrow>
     (\<And>x. x \<in> set xs \<Longrightarrow> P (g x) \<Longrightarrow> P x) \<Longrightarrow> distinct (map f (filter P (map g xs)))"
  by (induction xs) (auto simp: not_in_image split: if_splits)

text \<open>An update of the ledger that keeps identities, closes nothing but authorized entries with a
  completion time and opens nothing keeps the ledger coherent.\<close>

lemma dispatch_update_coherent:
  assumes "refineAssuranceDispatchCoherence a"
    and "\<And>d. rd_dispatchId (f d) = rd_dispatchId d" and "\<And>d. rd_hostCallId (f d) = rd_hostCallId d"
    and "\<And>d. rd_attemptId (f d) = rd_attemptId d" and "\<And>d. rd_obligationId (f d) = rd_obligationId d"
    and "\<And>d. is_active (f d) \<Longrightarrow> is_active d"
    and "\<And>d. dispatch_ok (as_attempts a) d \<Longrightarrow> dispatch_ok (as_attempts a) (f d)"
  shows "refineAssuranceDispatchCoherence (a\<lparr>as_dispatches := map f (as_dispatches a)\<rparr>)"
proof -
  have "distinct (map rd_attemptId (filter is_active (map f (as_dispatches a))))"
    using assms by (intro distinct_filter_mono) (auto simp: dispatch_coherence_iff)
  moreover have "rd_dispatchId \<circ> f = rd_dispatchId" "rd_hostCallId \<circ> f = rd_hostCallId"
    using assms(2,3) by (simp_all add: fun_eq_iff)
  ultimately show ?thesis
    using assms(1,7) by (auto simp: dispatch_coherence_iff list_all_iff)
qed

section \<open>Attempt ordinals\<close>

definition coherent_ordinals :: "review_attempt list \<Rightarrow> bool" where
  "coherent_ordinals ts =
     (distinct (map ordinal_key ts) \<and>
      distinct (map at_obligationId (filter (\<lambda>t. at_origin t = Initial) ts)) \<and>
      (\<forall>t \<in> set ts. \<forall>u \<in> set ts. at_origin t = Initial \<longrightarrow> at_obligationId u = at_obligationId t \<longrightarrow>
         at_ordinal t \<le> at_ordinal u))"

lemma show_nat_no_hash: "CHR ''#'' \<notin> set (show_nat n)"
  using show_nat_digits [of n] by (auto simp: list_all_iff is_digit_def)

lemma append_hash_unique:
  assumes "CHR ''#'' \<notin> set s" and "CHR ''#'' \<notin> set t" and "p @ CHR ''#'' # s = q @ CHR ''#'' # t"
  shows "p = q \<and> s = t"
  using assms by (auto simp: append_eq_append_conv2 Cons_eq_append_conv append_eq_Cons_conv)

lemma ordinal_key_eq:
  "ordinal_key t = ordinal_key u \<longleftrightarrow> at_obligationId t = at_obligationId u \<and> at_ordinal t = at_ordinal u"
proof
  assume "ordinal_key t = ordinal_key u"
  then have "at_obligationId t @ CHR ''#'' # show_nat (at_ordinal t) = at_obligationId u @ CHR ''#'' # show_nat (at_ordinal u)"
    by (simp add: ordinal_key_def)
  from append_hash_unique [OF show_nat_no_hash show_nat_no_hash this]
  show "at_obligationId t = at_obligationId u \<and> at_ordinal t = at_ordinal u" by (simp add: show_nat_inj)
qed (simp add: ordinal_key_def)

text \<open>The state of the scan after a prefix: every key seen, the least ordinal of each obligation, the
  initial attempts in order.\<close>

definition scan_state ::
  "review_attempt list \<Rightarrow> string list \<Rightarrow> (string \<Rightarrow> nat option) \<Rightarrow> (string \<times> review_attempt) list \<Rightarrow> bool" where
  "scan_state ts seen mins initials =
     (set seen = ordinal_key ` set ts \<and>
      (\<forall>b. mins b = (if b \<in> at_obligationId ` set ts
                     then Some (Min (at_ordinal ` {t \<in> set ts. at_obligationId t = b})) else None)) \<and>
      initials = map (\<lambda>t. (at_obligationId t, t)) (filter (\<lambda>t. at_origin t = Initial) ts))"

lemma scan_state_step:
  assumes "scan_state ts seen mins initials"
  shows "scan_state (ts @ [t]) (ordinal_key t # seen)
     (mins(at_obligationId t \<mapsto>
        (case mins (at_obligationId t) of None \<Rightarrow> at_ordinal t | Some m \<Rightarrow> min m (at_ordinal t))))
     (if at_origin t = Initial then initials @ [(at_obligationId t, t)] else initials)"
proof -
  let ?S = "\<lambda>ts b. {u \<in> set ts. at_obligationId u = b}"
  have S: "?S (ts @ [t]) b = (if b = at_obligationId t then insert t (?S ts b) else ?S ts b)" for b
    by auto
  have mins: "(mins(at_obligationId t \<mapsto>
          (case mins (at_obligationId t) of None \<Rightarrow> at_ordinal t | Some m \<Rightarrow> min m (at_ordinal t)))) b =
        (if b \<in> at_obligationId ` set (ts @ [t]) then Some (Min (at_ordinal ` ?S (ts @ [t]) b)) else None)" for b
  proof (cases "b = at_obligationId t")
    case True
    show ?thesis
    proof (cases "b \<in> at_obligationId ` set ts")
      case known: True
      then have "?S ts b \<noteq> {}" by auto
      then show ?thesis
        using assms True known unfolding S by (simp add: scan_state_def min.commute)
    next
      case False
      then have "?S ts b = {}" by auto
      then have "?S (ts @ [t]) b = {t}" using True by (simp only: S if_True simp_thms)
      then have "Min (at_ordinal ` ?S (ts @ [t]) b) = at_ordinal t" by simp
      moreover have "mins b = None" using assms False by (simp add: scan_state_def)
      ultimately show ?thesis using True by (simp only: fun_upd_same) simp
    qed
  next
    case False
    then show ?thesis using assms unfolding S by (simp add: scan_state_def image_iff)
  qed
  have "set (ordinal_key t # seen) = ordinal_key ` set (ts @ [t])"
    and "(if at_origin t = Initial then initials @ [(at_obligationId t, t)] else initials) =
           map (\<lambda>t. (at_obligationId t, t)) (filter (\<lambda>t. at_origin t = Initial) (ts @ [t]))"
    using assms by (auto simp: scan_state_def)
  with mins show ?thesis unfolding scan_state_def by blast
qed

definition no_clash :: "review_attempt list \<Rightarrow> bool" where
  "no_clash ts =
     (distinct (map ordinal_key ts) \<and> distinct (map at_obligationId (filter (\<lambda>t. at_origin t = Initial) ts)))"

lemma no_clash_snoc:
  "no_clash (ts @ [t]) \<longleftrightarrow> no_clash ts \<and> ordinal_key t \<notin> ordinal_key ` set ts \<and>
     (at_origin t = Initial \<longrightarrow> at_obligationId t \<notin> at_obligationId ` {u \<in> set ts. at_origin u = Initial})"
  by (auto simp: no_clash_def)

lemma no_clash_append: "no_clash (us @ ts) \<Longrightarrow> no_clash us"
  by (simp add: no_clash_def)

lemma scan_ordinals_spec:
  assumes "scan_state us seen mins initials" and "no_clash us"
  shows "case scan_ordinals seen mins initials ts of
           None \<Rightarrow> \<not> no_clash (us @ ts)
         | Some (m, l) \<Rightarrow> no_clash (us @ ts) \<and> (\<exists>s. scan_state (us @ ts) s m l)"
  using assms
proof (induction ts arbitrary: us seen mins initials)
  case Nil
  then show ?case by auto
next
  case (Cons t ts)
  have keys: "ordinal_key t \<in> set seen \<longleftrightarrow> ordinal_key t \<in> ordinal_key ` set us"
    and obls: "set (map fst initials) = at_obligationId ` {u \<in> set us. at_origin u = Initial}"
    using Cons.prems(1) by (auto simp: scan_state_def)
  have split: "us @ t # ts = (us @ [t]) @ ts" by simp
  show ?case
  proof (cases "no_clash (us @ [t])")
    case True
    then have go: "ordinal_key t \<notin> set seen" "at_origin t = Initial \<Longrightarrow> at_obligationId t \<notin> set (map fst initials)"
      by (auto simp: no_clash_snoc keys obls simp del: set_map)
    from Cons.IH [OF scan_state_step [OF Cons.prems(1), of t] True] go show ?thesis
      unfolding split by (cases "at_origin t = Initial") (simp_all add: Let_def del: fun_upd_apply append_assoc)
  next
    case False
    then have "scan_ordinals seen mins initials (t # ts) = None"
      using Cons.prems(2) by (auto simp: no_clash_snoc keys obls simp del: set_map)
    moreover have "\<not> no_clash (us @ t # ts)" using False no_clash_append split by metis
    ultimately show ?thesis by simp
  qed
qed

lemma coherent_ordinals_iff: "hasCoherentOrdinals a \<longleftrightarrow> coherent_ordinals (as_attempts a)"
proof -
  let ?ts = "as_attempts a"
  have init: "scan_state [] [] Map.empty []" "no_clash []"
    by (simp_all add: scan_state_def no_clash_def)
  note spec = scan_ordinals_spec [OF init, of ?ts]
  show ?thesis
  proof (cases "scan_ordinals [] Map.empty [] ?ts")
    case None
    then show ?thesis using spec by (auto simp: hasCoherentOrdinals_def coherent_ordinals_def no_clash_def)
  next
    case (Some ml)
    obtain m l s where ml: "ml = (m, l)" and nc: "no_clash ?ts" and st: "scan_state ?ts s m l"
      using spec Some by (cases ml) auto
    have least: "m (at_obligationId t) = Some (at_ordinal t) \<longleftrightarrow>
        (\<forall>u \<in> set ?ts. at_obligationId u = at_obligationId t \<longrightarrow> at_ordinal t \<le> at_ordinal u)"
      if "t \<in> set ?ts" for t
    proof -
      let ?O = "at_ordinal ` {u \<in> set ?ts. at_obligationId u = at_obligationId t}"
      have "m (at_obligationId t) = Some (Min ?O)" using st that by (simp add: scan_state_def)
      moreover have "at_ordinal t \<in> ?O" "finite ?O" using that by auto
      ultimately show ?thesis using Min_eq_iff [of ?O "at_ordinal t"] by auto
    qed
    then show ?thesis
      using st nc Some ml
      by (auto simp: hasCoherentOrdinals_def coherent_ordinals_def scan_state_def no_clash_def list_all_iff)
  qed
qed

section \<open>Properties of the attempts\<close>

text \<open>The attempt an attempt was re-armed from, transitively up to an initial one.\<close>

inductive root_attempt :: "review_assurance \<Rightarrow> review_attempt \<Rightarrow> review_attempt \<Rightarrow> bool" for a where
  initial: "at_origin t = Initial \<Longrightarrow> root_attempt a t t"
| rearmed: "at_origin t = Dispatch_rearm p trig \<Longrightarrow> last_by at_attemptId (as_attempts a) p = Some u \<Longrightarrow>
    root_attempt a u r \<Longrightarrow> root_attempt a t r"

inductive_cases root_attemptE: "root_attempt a t r"

lemma find_Some_in: "List.find P xs = Some x \<Longrightarrow> x \<in> set xs \<and> P x"
  by (induction xs) (auto split: if_splits)

lemma last_by_Some: "last_by key xs k = Some x \<Longrightarrow> x \<in> set xs \<and> key x = k"
  using find_Some_in [of "\<lambda>x. key x = k" "rev xs" x] by (simp add: last_by_def)

lemma last_by_None: "last_by key xs k = None \<longleftrightarrow> k \<notin> key ` set xs"
  by (auto simp: last_by_def find_None_iff)

lemma last_by_distinct: "distinct (map key xs) \<Longrightarrow> x \<in> set xs \<Longrightarrow> last_by key xs (key x) = Some x"
proof (cases "last_by key xs (key x)")
  case (Some y)
  assume "distinct (map key xs)" "x \<in> set xs"
  then show ?thesis using last_by_Some [OF Some] Some by (auto simp: distinct_map inj_on_def)
qed (auto simp: last_by_None)

lemma distinct_map_filterD:
  "distinct (map f (filter P xs)) \<Longrightarrow> x \<in> set xs \<Longrightarrow> y \<in> set xs \<Longrightarrow> P x \<Longrightarrow> P y \<Longrightarrow> f x = f y \<Longrightarrow> x = y"
  by (simp add: distinct_map inj_on_def)

lemma root_attempt_functional: "root_attempt a t r \<Longrightarrow> root_attempt a t s \<Longrightarrow> s = r"
proof (induction rule: root_attempt.induct)
  case (initial t)
  then show ?case by (auto elim: root_attemptE)
next
  case (rearmed t p trig u r)
  from rearmed.prems rearmed.hyps rearmed.IH show ?case by (auto elim: root_attemptE)
qed

lemma root_attempt_exists:
  assumes "hasCoherentPredecessorLineage a" and "t \<in> set (as_attempts a)"
  shows "\<exists>r. root_attempt a t r \<and> r \<in> set (as_attempts a) \<and> at_origin r = Initial \<and>
     at_obligationId r = at_obligationId t \<and> at_subjectDigest r = at_subjectDigest t"
  using assms(2)
proof (induction "at_ordinal t" arbitrary: t rule: less_induct)
  case less
  show ?case
  proof (cases "at_origin t")
    case Initial
    then show ?thesis using less.prems root_attempt.initial by blast
  next
    case (Dispatch_rearm p trig)
    have "lineage_ok a t" using assms(1) less.prems by (simp add: hasCoherentPredecessorLineage_def list_all_iff)
    then obtain u where u: "last_by at_attemptId (as_attempts a) p = Some u" and pc: "predecessor_coherent t u"
      by (auto simp: lineage_ok_def Dispatch_rearm split: option.splits)
    have "u \<in> set (as_attempts a)" using last_by_Some [OF u] by simp
    moreover have "at_ordinal u < at_ordinal t" using pc by (simp add: predecessor_coherent_def)
    ultimately obtain r where "root_attempt a u r" "r \<in> set (as_attempts a)" "at_origin r = Initial"
        "at_obligationId r = at_obligationId u" "at_subjectDigest r = at_subjectDigest u"
      using less.hyps by blast
    then show ?thesis
      using root_attempt.rearmed [OF Dispatch_rearm u] pc by (auto simp: predecessor_coherent_def)
  qed
qed

text \<open>A concrete assurance state: one plan obligation whose first attempt was lost and whose second one
  is released.\<close>

definition sample_obligation :: review_obligation where
  "sample_obligation =
     \<lparr>ro_obligationId = ''o1'', ro_obligationType = Ob_plan, ro_iteration = 0, ro_reviewCycle = Some 0,
      ro_planVersion = 1, ro_createdAt = ''t0'', ro_status = Ob_pending, ro_invocationId = None,
      ro_blockedCode = None, ro_fulfilledAt = None, ro_consumedAt = None, ro_subjectDigest = ''d'',
      ro_claimDeclarationsDigest = None, ro_criteriaVersion = ''c'', ro_mandateDigest = ''m'',
      ro_reviewMaterial =
        Some \<lparr>rm_content = ''x'', rm_materialDigest = ''h'', rm_subjectDigest = ''d''\<rparr>,
      ro_reviewSubject = None, ro_reviewSubjectScope = Scope_artifact Art_plan ''d'' [''#''],
      ro_maxReviewerAttempts = 2\<rparr>"

definition sample_attempt1 :: review_attempt where
  "sample_attempt1 =
     \<lparr>at_attemptId = ''a1'', at_obligationId = ''o1'', at_obligationType = Ob_plan, at_subjectDigest = ''d'',
      at_ordinal = 1, at_status = At_stale, at_childSessionId = None, at_origin = Initial,
      at_rejectionReason = None, at_createdAt = ''t0'', at_completedAt = Some ''t2''\<rparr>"

definition sample_attempt2 :: review_attempt where
  "sample_attempt2 =
     sample_attempt1\<lparr>at_attemptId := ''a2'', at_ordinal := 2, at_status := At_created,
       at_origin := Dispatch_rearm ''a1'' Interrupted, at_createdAt := ''t2'', at_completedAt := None\<rparr>"

definition sample_dispatch1 :: review_dispatch where
  "sample_dispatch1 =
     \<lparr>rd_dispatchId = ''d1'', rd_attemptId = ''a1'', rd_obligationId = ''o1'', rd_hostCallId = ''c1'',
      rd_canonicalPromptDigest = ''p'', rd_dispatchAuthorizedAt = ''t1'', rd_status = Di_outcome_unknown,
      rd_completedAt = None\<rparr>"

definition sample_dispatch2 :: review_dispatch where
  "sample_dispatch2 =
     sample_dispatch1\<lparr>rd_dispatchId := ''d2'', rd_attemptId := ''a2'', rd_hostCallId := ''c2'',
       rd_dispatchAuthorizedAt := ''t3'', rd_status := Di_authorized\<rparr>"

definition sample_assurance :: review_assurance where
  "sample_assurance =
     \<lparr>as_obligations = [sample_obligation], as_invocations = [],
      as_attempts = [sample_attempt1, sample_attempt2],
      as_dispatches = [sample_dispatch1], as_capacityLock = None\<rparr>"

lemma sample_assurance_ok: "assurance_ok sample_assurance"
  by (simp add: assurance_ok_def sample_assurance_def sample_obligation_def sample_attempt1_def sample_attempt2_def
    sample_dispatch1_def refineAssuranceIdentityUniqueness_def refineAssuranceAttemptLineageCoherence_def
    hasCoherentOrdinals_def ordinal_key_def show_nat_inj hasCoherentLifecycleFields_def lifecycle_ok_def truthy_def
    hasCoherentPredecessorLineage_def lineage_ok_def last_by_def predecessor_coherent_def
    triggerReasonsForPredecessor_def Let_def refineAssuranceDispatchCoherence_def hasBoundAttemptLinkage_def
    hasObligationBackReference_def back_reference_ok_def hasConsumedByInvariant_def
    refineAssuranceInvocationDispatchLinkage_def validateInvocationDispatchLinks_def
    validateDispatchInvocationLinks_def refineAssuranceCapacityLockCoherence_def refineReviewCycleCoherence_def)

text \<open>(C25). In a state the schema accepts, every attempt is re-armed, in finitely many steps, from exactly
  one root; the root is the obligation's only initial attempt, reviews the same subject and has the least
  ordinal of the obligation.\<close>

theorem attempts_have_one_root:
  assumes "assurance_ok a" and "t \<in> set (as_attempts a)"
  shows "\<exists>!r. root_attempt a t r \<and> r \<in> set (as_attempts a) \<and> at_subjectDigest r = at_subjectDigest t \<and>
     {u \<in> set (as_attempts a). at_origin u = Initial \<and> at_obligationId u = at_obligationId t} = {r} \<and>
     at_ordinal r = Min (at_ordinal ` {u \<in> set (as_attempts a). at_obligationId u = at_obligationId t})"
proof -
  let ?ts = "as_attempts a"
  have lin: "hasCoherentPredecessorLineage a" and ord: "coherent_ordinals ?ts"
    using assms(1) by (simp_all add: assurance_ok_def refineAssuranceAttemptLineageCoherence_def coherent_ordinals_iff)
  obtain r where r: "root_attempt a t r" "r \<in> set ?ts" "at_origin r = Initial"
      "at_obligationId r = at_obligationId t" "at_subjectDigest r = at_subjectDigest t"
    using root_attempt_exists [OF lin assms(2)] by blast
  have "u = r" if "u \<in> set ?ts" "at_origin u = Initial" "at_obligationId u = at_obligationId t" for u
  proof (rule distinct_map_filterD [OF _ that(1) r(2), of at_obligationId "\<lambda>t. at_origin t = Initial"])
    show "distinct (map at_obligationId (filter (\<lambda>t. at_origin t = Initial) ?ts))"
      using ord unfolding coherent_ordinals_def by blast
    show "at_obligationId u = at_obligationId r" using r(4) that(3) by simp
  qed (fact that(2) r(3))+
  then have only: "{u \<in> set ?ts. at_origin u = Initial \<and> at_obligationId u = at_obligationId t} = {r}"
    using r by blast
  have "Min (at_ordinal ` {u \<in> set ?ts. at_obligationId u = at_obligationId t}) = at_ordinal r"
    using ord r by (intro Min_eqI) (auto simp: coherent_ordinals_def)
  then have least: "at_ordinal r = Min (at_ordinal ` {u \<in> set ?ts. at_obligationId u = at_obligationId t})" ..
  show ?thesis
    by (rule ex1I [of _ r], intro conjI) (rule r(1) r(2) r(5) only least root_attempt_functional [OF r(1)] | simp)+
qed

lemma attempts_have_one_root_witness:
  "\<exists>!r. root_attempt sample_assurance sample_attempt2 r \<and> r \<in> set (as_attempts sample_assurance) \<and>
     at_subjectDigest r = at_subjectDigest sample_attempt2 \<and>
     {u \<in> set (as_attempts sample_assurance). at_origin u = Initial \<and>
        at_obligationId u = at_obligationId sample_attempt2} = {r} \<and>
     at_ordinal r = Min (at_ordinal ` {u \<in> set (as_attempts sample_assurance).
        at_obligationId u = at_obligationId sample_attempt2})"
  by (rule attempts_have_one_root [OF sample_assurance_ok]) (simp add: sample_assurance_def)

text \<open>(C26). Appending a release to a coherent ledger keeps it coherent exactly when its dispatch id and
  host call id are new, its attempt exists for the same obligation, its completion time agrees with its
  status, and, unless its outcome is unknown, no other release of that attempt is open or completed.\<close>

theorem append_dispatch_coherent_iff:
  assumes "refineAssuranceDispatchCoherence a"
  shows "refineAssuranceDispatchCoherence (appendReviewDispatch (Some a) d) \<longleftrightarrow>
     rd_dispatchId d \<notin> rd_dispatchId ` set (as_dispatches a) \<and>
     rd_hostCallId d \<notin> rd_hostCallId ` set (as_dispatches a) \<and>
     opt_test (\<lambda>t. at_obligationId t = rd_obligationId d)
       (last_by at_attemptId (as_attempts a) (rd_attemptId d)) \<and>
     (case rd_status d of Di_authorized \<Rightarrow> \<not> truthy (rd_completedAt d)
        | Di_completed \<Rightarrow> truthy (rd_completedAt d) | Di_outcome_unknown \<Rightarrow> True) \<and>
     (rd_status d = Di_outcome_unknown \<or>
      {e \<in> set (as_dispatches a). rd_attemptId e = rd_attemptId d \<and> rd_status e \<noteq> Di_outcome_unknown} = {})"
  using assms
  by (cases "rd_status d")
    (auto simp: dispatch_coherence_iff appendReviewDispatch_def ensureReviewAssurance_def Let_def
      dispatch_ok_def is_active_def image_iff)

lemma append_dispatch_coherent_witness:
  "refineAssuranceDispatchCoherence (appendReviewDispatch (Some sample_assurance) sample_dispatch2)"
proof -
  have ok: "refineAssuranceDispatchCoherence sample_assurance"
    using sample_assurance_ok by (simp add: assurance_ok_def)
  show ?thesis
    unfolding append_dispatch_coherent_iff [OF ok]
    by (simp add: sample_assurance_def sample_dispatch1_def sample_dispatch2_def sample_attempt2_def
      sample_attempt1_def last_by_def truthy_def)
qed

end
