(* ===== verification/Review_Lifecycle.thy ===== *)
theory Review_Lifecycle
  imports Review_Assurance Hashing
begin

text \<open>The life cycle of review obligations and reviewer attempts: minting, the durable release of an
  attempt to the host, the capture of its evidence, abandonment, re-arming, settlement and the
  resolution of the next legal step
  (\<open>integration/review/obligations\<close>, \<open>integration/review/dispatch\<close>,
  \<open>integration/review/evidence/reviewer-evidence-recorder.ts\<close>, \<open>state/review-continuation.ts\<close>).

  Every operation here starts with \<open>ensureReviewAssurance\<close>, so the model works on the ensured value.
  \<open>randomUUID()\<close> is an argument of the operation that calls it, \<open>now\<close> is the clock argument of the code.
  A thrown error is an \<open>Inl\<close>; the mutation then writes nothing.\<close>

section \<open>Attempts\<close>

definition createReviewAttempt ::
  "string \<Rightarrow> string \<Rightarrow> obligation_type \<Rightarrow> string \<Rightarrow> nat \<Rightarrow> string option \<Rightarrow> attempt_origin \<Rightarrow> string
     \<Rightarrow> review_attempt" where
  "createReviewAttempt uuid obligationId obligationType subjectDigest ordinal child origin now =
     \<lparr>at_attemptId = uuid, at_obligationId = obligationId, at_obligationType = obligationType,
      at_subjectDigest = subjectDigest, at_ordinal = ordinal, at_status = At_created,
      at_childSessionId = child, at_origin = origin, at_rejectionReason = None,
      at_createdAt = now, at_completedAt = None\<rparr>"

definition appendReviewAttempt :: "review_assurance \<Rightarrow> review_attempt \<Rightarrow> review_assurance" where
  "appendReviewAttempt a t = a\<lparr>as_attempts := as_attempts a @ [t]\<rparr>"

definition stale_other :: "string \<Rightarrow> string \<Rightarrow> string \<Rightarrow> review_attempt \<Rightarrow> review_attempt" where
  "stale_other obligationId exceptAttemptId now t =
     (if at_obligationId t = obligationId \<and> at_attemptId t \<noteq> exceptAttemptId \<and> at_status t = At_created
      then t\<lparr>at_status := At_stale, at_completedAt := Some now\<rparr> else t)"

definition staleObligationAttempts ::
  "review_assurance \<Rightarrow> string \<Rightarrow> string \<Rightarrow> string \<Rightarrow> review_assurance" where
  "staleObligationAttempts a obligationId exceptAttemptId now =
     a\<lparr>as_attempts := map (stale_other obligationId exceptAttemptId now) (as_attempts a)\<rparr>"

definition with_status ::
  "attempt_status \<Rightarrow> string \<Rightarrow> string option \<Rightarrow> rejection_reason option \<Rightarrow> review_attempt \<Rightarrow> review_attempt" where
  "with_status status now child reason t =
     t\<lparr>at_status := status,
       at_completedAt := (if status \<noteq> At_created then Some now else at_completedAt t),
       at_childSessionId := (if truthy child \<and> \<not> truthy (at_childSessionId t) then child
                             else at_childSessionId t),
       at_rejectionReason := (if status = At_rejected \<and> reason \<noteq> None then reason
                              else at_rejectionReason t)\<rparr>"

definition updateAttemptStatus ::
  "review_assurance \<Rightarrow> string \<Rightarrow> attempt_status \<Rightarrow> string \<Rightarrow> string option \<Rightarrow> rejection_reason option
     \<Rightarrow> review_assurance" where
  "updateAttemptStatus a attemptId status now child reason =
     a\<lparr>as_attempts := map (\<lambda>t. if at_attemptId t \<noteq> attemptId then t else with_status status now child reason t)
         (as_attempts a)\<rparr>"

definition createAttemptForExistingObligation ::
  "string \<Rightarrow> review_assurance \<Rightarrow> review_obligation \<Rightarrow> string option \<Rightarrow> string \<Rightarrow> attempt_origin
     \<Rightarrow> review_assurance \<times> review_attempt" where
  "createAttemptForExistingObligation uuid a ob child now origin =
     (let ordinal = length (filter (\<lambda>t. at_obligationId t = ro_obligationId ob) (as_attempts a)) + 1;
          t = createReviewAttempt uuid (ro_obligationId ob) (ro_obligationType ob) (ro_subjectDigest ob)
                ordinal child origin now
      in (staleObligationAttempts (appendReviewAttempt a t) (ro_obligationId ob) (at_attemptId t) now, t))"

definition resolveEvidenceAuthorizingAttempt ::
  "review_assurance \<Rightarrow> string \<Rightarrow> string \<Rightarrow> review_attempt option" where
  "resolveEvidenceAuthorizingAttempt a obligationId childSessionId =
     (case filter (\<lambda>t. at_obligationId t = obligationId \<and> at_childSessionId t = Some childSessionId \<and>
                        at_status t = At_bound) (as_attempts a) of
        [t] \<Rightarrow> Some t
      | _ \<Rightarrow> None)"

definition findBindableAttempt :: "review_assurance \<Rightarrow> string \<Rightarrow> review_attempt option" where
  "findBindableAttempt a obligationId =
     (case filter (\<lambda>t. at_obligationId t = obligationId \<and> at_status t = At_created \<and>
                        \<not> truthy (at_childSessionId t)) (as_attempts a) of
        [t] \<Rightarrow> Some t
      | _ \<Rightarrow> None)"

definition later_attempt :: "review_attempt \<Rightarrow> review_attempt \<Rightarrow> review_attempt" where
  "later_attempt latest t = (if at_ordinal latest < at_ordinal t then t else latest)"

definition findSpentStaleAttempt :: "review_assurance \<Rightarrow> string \<Rightarrow> review_attempt option" where
  "findSpentStaleAttempt a obligationId =
     (case filter (\<lambda>t. at_obligationId t = obligationId \<and> at_status t = At_stale \<and>
                        list_ex (\<lambda>d. rd_attemptId d = at_attemptId t \<and> rd_status d = Di_outcome_unknown)
                          (as_dispatches a)) (as_attempts a) of
        [] \<Rightarrow> None
      | t # ts \<Rightarrow> Some (foldl later_attempt t ts))"

fun is_rearm :: "attempt_origin \<Rightarrow> bool" where
  "is_rearm Initial = False"
| "is_rearm (Dispatch_rearm p g) = True"

definition countReviewAttempts :: "review_assurance \<Rightarrow> string \<Rightarrow> nat" where
  "countReviewAttempts a obligationId =
     length (filter (\<lambda>t. at_obligationId t = obligationId \<and> is_rearm (at_origin t)) (as_attempts a))"

section \<open>Obligations\<close>

definition updateObligation ::
  "review_assurance \<Rightarrow> string \<Rightarrow> (review_obligation \<Rightarrow> review_obligation) \<Rightarrow> review_assurance" where
  "updateObligation a obligationId f =
     a\<lparr>as_obligations := map (\<lambda>ob. if ro_obligationId ob \<noteq> obligationId then ob else f ob) (as_obligations a)\<rparr>"

definition blockObligation :: "review_assurance \<Rightarrow> string \<Rightarrow> string \<Rightarrow> review_assurance" where
  "blockObligation a obligationId code =
     updateObligation a obligationId (\<lambda>ob. ob\<lparr>ro_status := Ob_blocked, ro_blockedCode := Some code\<rparr>)"

definition find_obligation :: "review_assurance \<Rightarrow> string \<Rightarrow> review_obligation option" where
  "find_obligation a obligationId = List.find (\<lambda>ob. ro_obligationId ob = obligationId) (as_obligations a)"

definition find_attempt :: "review_assurance \<Rightarrow> string \<Rightarrow> review_attempt option" where
  "find_attempt a attemptId = List.find (\<lambda>t. at_attemptId t = attemptId) (as_attempts a)"

text \<open>The record \<open>createReviewObligation\<close> returns starts in this shape.\<close>
definition fresh_obligation :: "review_obligation \<Rightarrow> bool" where
  "fresh_obligation ob =
     (ro_status ob = Ob_pending \<and> ro_invocationId ob = None \<and> ro_blockedCode ob = None \<and>
      ro_fulfilledAt ob = None \<and> ro_consumedAt ob = None \<and> ro_subjectDigest ob \<noteq> [])"

definition appendObligationAndInitialAttempt ::
  "string \<Rightarrow> review_assurance \<Rightarrow> review_obligation \<Rightarrow> string \<Rightarrow> review_assurance" where
  "appendObligationAndInitialAttempt uuid a ob now =
     (let ordinal = length (filter (\<lambda>t. at_obligationId t = ro_obligationId ob) (as_attempts a)) + 1;
          t = createReviewAttempt uuid (ro_obligationId ob) (ro_obligationType ob) (ro_subjectDigest ob)
                ordinal None Initial now
      in staleObligationAttempts
           (appendReviewAttempt (a\<lparr>as_obligations := as_obligations a @ [ob]\<rparr>) t)
           (ro_obligationId ob) (at_attemptId t) now)"

definition findLatestObligation ::
  "review_obligation list \<Rightarrow> obligation_type \<Rightarrow> nat \<Rightarrow> nat \<Rightarrow> review_obligation option" where
  "findLatestObligation obs ty iteration planVersion =
     List.find (\<lambda>ob. ro_obligationType ob = ty \<and> ro_iteration ob = iteration \<and>
                     ro_planVersion ob = planVersion) (rev obs)"

definition findLatestReviewObligation ::
  "review_obligation list \<Rightarrow> obligation_type \<Rightarrow> review_obligation option" where
  "findLatestReviewObligation obs ty = List.find (\<lambda>ob. ro_obligationType ob = ty) (rev obs)"

definition fulfillObligation ::
  "review_assurance \<Rightarrow> string \<Rightarrow> string \<Rightarrow> string \<Rightarrow> string + review_assurance" where
  "fulfillObligation a obligationId invocationId now =
     (case find_obligation a obligationId of
        None \<Rightarrow> Inl ''REVIEW_OBLIGATION_NOT_FOUND''
      | Some ob \<Rightarrow>
          (if ro_status ob \<noteq> Ob_pending
           then (if ro_status ob = Ob_fulfilled \<and> ro_invocationId ob = Some invocationId then Inr a
                 else Inl ''REVIEW_OBLIGATION_STATUS_INVALID'')
           else Inr (updateObligation a obligationId (\<lambda>item. item\<lparr>ro_status := Ob_fulfilled,
                  ro_invocationId := Some invocationId, ro_fulfilledAt := Some now\<rparr>))))"

definition blockObligationWithInvocation ::
  "review_assurance \<Rightarrow> string \<Rightarrow> string \<Rightarrow> string \<Rightarrow> string \<Rightarrow> string + review_assurance" where
  "blockObligationWithInvocation a obligationId invocationId code now =
     (case find_obligation a obligationId of
        None \<Rightarrow> Inl ''REVIEW_OBLIGATION_NOT_FOUND''
      | Some ob \<Rightarrow>
          (if ro_status ob \<noteq> Ob_pending
           then (if ro_status ob = Ob_blocked \<and> ro_blockedCode ob = Some code \<and>
                    ro_invocationId ob = Some invocationId then Inr a
                 else Inl ''REVIEW_OBLIGATION_STATUS_INVALID'')
           else Inr (updateObligation a obligationId (\<lambda>item. item\<lparr>ro_status := Ob_blocked,
                  ro_blockedCode := Some code, ro_invocationId := Some invocationId,
                  ro_fulfilledAt := Some now\<rparr>))))"

definition consumeReviewObligation ::
  "review_assurance \<Rightarrow> review_obligation option \<Rightarrow> string \<Rightarrow> string option \<Rightarrow> review_assurance" where
  "consumeReviewObligation a obo now acceptedInvocationId =
     (case obo of
        None \<Rightarrow> a
      | Some ob \<Rightarrow>
          (let invocationId = (case acceptedInvocationId of None \<Rightarrow> ro_invocationId ob | Some i \<Rightarrow> Some i)
           in a\<lparr>as_obligations := map (\<lambda>item. if ro_obligationId item \<noteq> ro_obligationId ob then item
                    else item\<lparr>ro_status := Ob_consumed, ro_consumedAt := Some now\<rparr>) (as_obligations a),
                as_invocations := map (\<lambda>i. if \<not> truthy invocationId \<or> Some (iv_invocationId i) \<noteq> invocationId
                    then i else i\<lparr>iv_consumedByObligationId := Some (ro_obligationId ob)\<rparr>)
                    (as_invocations a)\<rparr>))"

definition findAcceptedInvocationForFindings ::
  "review_assurance \<Rightarrow> review_obligation option \<Rightarrow> (string \<times> string) option \<Rightarrow> review_invocation option" where
  "findAcceptedInvocationForFindings a obo findings =
     (case (obo, findings) of
        (Some ob, Some (reviewerSession, findingsHash)) \<Rightarrow>
          List.find (\<lambda>i. (truthy (ro_invocationId ob) \<longrightarrow> ro_invocationId ob = Some (iv_invocationId i)) \<and>
               iv_obligationId i = ro_obligationId ob \<and> isBindableReviewTransport i \<and>
               iv_childSessionId i = reviewerSession \<and> iv_findingsHash i = findingsHash \<and>
               iv_consumedByObligationId i = None) (as_invocations a)
      | _ \<Rightarrow> None)"

definition hasEvidenceReuse :: "review_invocation list \<Rightarrow> string \<Rightarrow> string \<Rightarrow> bool" where
  "hasEvidenceReuse invs childSessionId findingsHash =
     list_ex (\<lambda>i. iv_childSessionId i = childSessionId \<or> iv_findingsHash i = findingsHash) invs"

definition appendInvocationEvidence :: "review_assurance \<Rightarrow> review_invocation \<Rightarrow> review_assurance" where
  "appendInvocationEvidence a i = a\<lparr>as_invocations := as_invocations a @ [i]\<rparr>"

section \<open>Releasing an attempt to the host\<close>

record dispatch_input =
  di_attemptId :: string
  di_obligationId :: string
  di_hostCallId :: string
  di_canonicalPromptDigest :: string
  di_authorizedAt :: string

datatype existing_dispatch = Append_dispatch | Retry_dispatch | Conflict_dispatch

definition resolveExistingDispatchForCall :: "review_dispatch list \<Rightarrow> dispatch_input \<Rightarrow> existing_dispatch" where
  "resolveExistingDispatchForCall existing i =
     (case existing of
        [] \<Rightarrow> Append_dispatch
      | [d] \<Rightarrow> (if rd_attemptId d = di_attemptId i \<and> rd_obligationId d = di_obligationId i \<and>
                    rd_canonicalPromptDigest d = di_canonicalPromptDigest i \<and> rd_status d = Di_authorized
                 then Retry_dispatch else Conflict_dispatch)
      | _ \<Rightarrow> Conflict_dispatch)"

definition assertDispatchAuthorizable :: "review_assurance \<Rightarrow> dispatch_input \<Rightarrow> bool" where
  "assertDispatchAuthorizable a i =
     (as_capacityLock a = None \<and>
      (case (find_obligation a (di_obligationId i), find_attempt a (di_attemptId i)) of
         (Some ob, Some t) \<Rightarrow> ro_status ob = Ob_pending \<and> at_obligationId t = ro_obligationId ob \<and>
            at_status t = At_created \<and> at_childSessionId t = None
       | _ \<Rightarrow> False))"

definition authorized_record :: "string \<Rightarrow> dispatch_input \<Rightarrow> review_dispatch" where
  "authorized_record uuid i =
     \<lparr>rd_dispatchId = uuid, rd_attemptId = di_attemptId i, rd_obligationId = di_obligationId i,
      rd_hostCallId = di_hostCallId i, rd_canonicalPromptDigest = di_canonicalPromptDigest i,
      rd_dispatchAuthorizedAt = di_authorizedAt i, rd_status = Di_authorized, rd_completedAt = None\<rparr>"

definition persistAuthorizedReviewDispatch ::
  "string \<Rightarrow> review_assurance \<Rightarrow> dispatch_input \<Rightarrow> string + review_assurance" where
  "persistAuthorizedReviewDispatch uuid a i =
     (if \<not> assertDispatchAuthorizable a i then Inl ''REVIEW_DISPATCH_PERSISTENCE_FAILED''
      else
        (case resolveExistingDispatchForCall
                (filter (\<lambda>d. rd_hostCallId d = di_hostCallId i) (as_dispatches a)) i of
           Conflict_dispatch \<Rightarrow> Inl ''REVIEW_DISPATCH_PERSISTENCE_FAILED''
         | Retry_dispatch \<Rightarrow> Inr a
         | Append_dispatch \<Rightarrow>
             (if list_ex (\<lambda>d. rd_attemptId d = di_attemptId i \<and> rd_status d = Di_authorized) (as_dispatches a)
              then Inl ''REVIEW_DISPATCH_PERSISTENCE_FAILED''
              else Inr (appendReviewDispatch (Some a) (authorized_record uuid i)))))"

text \<open>The fence in front of a native release.\<close>

definition superseded :: "review_assurance \<Rightarrow> string \<Rightarrow> bool" where
  "superseded a spentAttemptId =
     list_ex (\<lambda>t. case at_origin t of Initial \<Rightarrow> False | Dispatch_rearm p g \<Rightarrow> p = spentAttemptId)
       (as_attempts a)"

definition assertReleaseAvailable :: "review_assurance \<Rightarrow> string \<Rightarrow> bool" where
  "assertReleaseAvailable a attemptId =
     (\<not> list_ex (\<lambda>d. rd_status d = Di_authorized \<or>
                      rd_status d = Di_outcome_unknown \<and> \<not> superseded a (rd_attemptId d)) (as_dispatches a) \<and>
      \<not> (as_capacityLock a \<noteq> None \<or> list_ex (\<lambda>d. rd_attemptId d = attemptId) (as_dispatches a)))"

definition isCurrentReviewGeneration :: "string \<Rightarrow> string \<Rightarrow> review_obligation \<Rightarrow> bool" where
  "isCurrentReviewGeneration criteria mandate ob =
     (ro_criteriaVersion ob = criteria \<and> ro_mandateDigest ob = mandate)"

text \<open>The unique pending operation of the enforcement state, by its obligation and attempt ids.\<close>
definition pendingAttempt ::
  "string \<Rightarrow> string \<Rightarrow> review_assurance \<Rightarrow> (string \<times> string) list
     \<Rightarrow> (review_obligation \<times> review_attempt) option" where
  "pendingAttempt criteria mandate a pending =
     (case pending of
        [(obligationId, attemptId)] \<Rightarrow>
          (case find_obligation a obligationId of
             None \<Rightarrow> None
           | Some ob \<Rightarrow>
               (case findBindableAttempt a (ro_obligationId ob) of
                  None \<Rightarrow> None
                | Some t \<Rightarrow>
                    (if ro_status ob \<noteq> Ob_pending \<or> \<not> isCurrentReviewGeneration criteria mandate ob \<or>
                        at_attemptId t \<noteq> attemptId then None
                     else if assertReleaseAvailable a (at_attemptId t) then Some (ob, t) else None)))
      | _ \<Rightarrow> None)"

text \<open>\<open>prompt\<close> is the canonical task prompt of the obligation and attempt, \<open>digest\<close> its hash.\<close>
definition authorizeNativeReviewDispatch ::
  "(review_obligation \<Rightarrow> review_attempt \<Rightarrow> string) \<Rightarrow> string \<Rightarrow> string \<Rightarrow> string \<Rightarrow> review_assurance
     \<Rightarrow> (string \<times> string) list \<Rightarrow> string \<Rightarrow> string \<Rightarrow> string + review_assurance" where
  "authorizeNativeReviewDispatch promptDigest criteria mandate uuid a pending hostCallId authorizedAt =
     (case pendingAttempt criteria mandate a pending of
        None \<Rightarrow> Inl ''REVIEW_TASK_EXECUTION_PROVENANCE_UNAVAILABLE''
      | Some (ob, t) \<Rightarrow>
          persistAuthorizedReviewDispatch uuid a
            \<lparr>di_attemptId = at_attemptId t, di_obligationId = ro_obligationId ob, di_hostCallId = hostCallId,
             di_canonicalPromptDigest = promptDigest ob t, di_authorizedAt = authorizedAt\<rparr>)"

definition nativeReviewDispatchLineage ::
  "string \<Rightarrow> string \<Rightarrow> review_assurance \<Rightarrow> string \<Rightarrow> string option
     \<Rightarrow> (review_dispatch \<times> review_attempt \<times> review_obligation) option" where
  "nativeReviewDispatchLineage criteria mandate a hostCallId childSessionId =
     (case filter (\<lambda>d. rd_hostCallId d = hostCallId) (as_dispatches a) of
        [d] \<Rightarrow>
          (case (filter (\<lambda>t. at_attemptId t = rd_attemptId d) (as_attempts a),
                 filter (\<lambda>ob. ro_obligationId ob = rd_obligationId d) (as_obligations a)) of
             ([t], [ob]) \<Rightarrow>
               (if rd_status d \<noteq> Di_authorized \<or> at_status t \<noteq> At_created \<or> ro_status ob \<noteq> Ob_pending \<or>
                   at_obligationId t \<noteq> ro_obligationId ob \<or> \<not> isCurrentReviewGeneration criteria mandate ob \<or>
                   as_capacityLock a \<noteq> None \<or>
                   (childSessionId \<noteq> None \<and> at_childSessionId t \<noteq> childSessionId)
                then None else Some (d, t, ob))
           | _ \<Rightarrow> None)
      | _ \<Rightarrow> None)"

definition bindNativeReviewChild ::
  "string \<Rightarrow> string \<Rightarrow> string \<Rightarrow> review_assurance \<Rightarrow> string \<Rightarrow> string \<Rightarrow> string
     \<Rightarrow> string + review_assurance" where
  "bindNativeReviewChild criteria mandate parentSessionId a hostCallId childSessionId now =
     (case nativeReviewDispatchLineage criteria mandate a hostCallId None of
        None \<Rightarrow> Inl ''REVIEW_TASK_EXECUTION_PROVENANCE_UNAVAILABLE''
      | Some (d, t, ob) \<Rightarrow>
          (if childSessionId = parentSessionId \<or>
              (at_childSessionId t \<noteq> None \<and> at_childSessionId t \<noteq> Some childSessionId) \<or>
              list_ex (\<lambda>u. at_attemptId u \<noteq> at_attemptId t \<and> at_childSessionId u = Some childSessionId)
                (as_attempts a)
           then Inl ''REVIEW_TASK_EXECUTION_PROVENANCE_UNAVAILABLE''
           else Inr (updateAttemptStatus a (at_attemptId t) At_created now (Some childSessionId) None)))"

section \<open>Re-arming\<close>

datatype rearm_block = Obligation_not_found | Obligation_settled | Budget_exhausted | No_released_dispatch

definition dispatchRearmTrigger :: "review_assurance \<Rightarrow> review_attempt \<Rightarrow> rearm_trigger option" where
  "dispatchRearmTrigger a spent =
     (if at_status spent \<noteq> At_created \<and> at_status spent \<noteq> At_stale then None
      else
        (let ds = filter (\<lambda>d. rd_attemptId d = at_attemptId spent) (as_dispatches a)
         in if at_status spent = At_created \<and> list_ex (\<lambda>d. rd_status d = Di_authorized) ds
            then Some Interrupted
            else if list_ex (\<lambda>d. rd_status d = Di_outcome_unknown) ds then Some Spent
            else None))"

definition authorizeDispatchRearm ::
  "review_assurance \<Rightarrow> review_attempt \<Rightarrow> rearm_block + (review_obligation \<times> attempt_origin)" where
  "authorizeDispatchRearm a spent =
     (case find_obligation a (at_obligationId spent) of
        None \<Rightarrow> Inl Obligation_not_found
      | Some ob \<Rightarrow>
          (if ro_status ob = Ob_fulfilled \<or> ro_status ob = Ob_consumed \<or> ro_status ob = Ob_blocked
           then Inl Obligation_settled
           else if ro_maxReviewerAttempts ob \<le> countReviewAttempts a (ro_obligationId ob)
           then Inl Budget_exhausted
           else (case dispatchRearmTrigger a spent of
                   None \<Rightarrow> Inl No_released_dispatch
                 | Some trigger \<Rightarrow> Inr (ob, Dispatch_rearm (at_attemptId spent) trigger))))"

definition buildInterruptedDispatchRearm ::
  "string \<Rightarrow> review_assurance \<Rightarrow> review_attempt \<Rightarrow> string
     \<Rightarrow> rearm_block + (review_assurance \<times> review_attempt)" where
  "buildInterruptedDispatchRearm uuid a spent now =
     (case authorizeDispatchRearm a spent of
        Inl cause \<Rightarrow> Inl cause
      | Inr (ob, origin) \<Rightarrow>
          (let (minted, t) = createAttemptForExistingObligation uuid a ob None now origin
           in Inr (markDispatchOutcomeUnknown (Some minted) (at_attemptId spent), t)))"

section \<open>Abandoning a release\<close>

definition authorized_release :: "review_assurance \<Rightarrow> string \<Rightarrow> review_attempt option" where
  "authorized_release a hostCallId =
     (case filter (\<lambda>d. rd_hostCallId d = hostCallId \<and> rd_status d = Di_authorized) (as_dispatches a) of
        [d] \<Rightarrow>
          (case find_attempt a (rd_attemptId d) of
             None \<Rightarrow> None
           | Some t \<Rightarrow> if at_status t \<noteq> At_created then None else Some t)
      | _ \<Rightarrow> None)"

definition abandonReviewDispatchByHostCall ::
  "review_assurance \<Rightarrow> string \<Rightarrow> string \<Rightarrow> review_assurance" where
  "abandonReviewDispatchByHostCall a hostCallId now =
     (case authorized_release a hostCallId of
        None \<Rightarrow> a
      | Some t \<Rightarrow>
          updateAttemptStatus (abandonReviewDispatch (Some a) hostCallId) (at_attemptId t) At_stale now None None)"

definition bindStaleChildSession ::
  "review_assurance \<Rightarrow> string \<Rightarrow> string option \<Rightarrow> review_assurance" where
  "bindStaleChildSession a attemptId childSessionId =
     (case childSessionId of
        None \<Rightarrow> a
      | Some c \<Rightarrow>
          a\<lparr>as_attempts := map (\<lambda>t. if at_attemptId t = attemptId \<and> at_childSessionId t = None
                                 then t\<lparr>at_childSessionId := Some c\<rparr> else t) (as_attempts a)\<rparr>)"

datatype rearm_outcome = Rearmed review_attempt | Rearm_blocked rearm_block | Rearm_noop

definition abandonAndRearmByHostCall ::
  "string \<Rightarrow> review_assurance \<Rightarrow> string \<Rightarrow> string \<Rightarrow> string option
     \<Rightarrow> rearm_outcome \<times> review_assurance" where
  "abandonAndRearmByHostCall uuid a hostCallId now childSessionId =
     (case authorized_release a hostCallId of
        None \<Rightarrow> (Rearm_noop, a)
      | Some t \<Rightarrow>
          (let staled = bindStaleChildSession
                 (updateAttemptStatus (abandonReviewDispatch (Some a) hostCallId) (at_attemptId t) At_stale now
                    None None) (at_attemptId t) childSessionId
           in case find_attempt staled (at_attemptId t) of
                None \<Rightarrow> (Rearm_noop, a)
              | Some spent \<Rightarrow>
                  (case buildInterruptedDispatchRearm uuid staled spent now of
                     Inl cause \<Rightarrow>
                       (Rearm_blocked cause,
                        if cause = Budget_exhausted
                        then blockObligation staled (at_obligationId t)
                               ''REVIEW_TASK_EXECUTION_PROVENANCE_UNAVAILABLE''
                        else staled)
                   | Inr (rearmed, fresh) \<Rightarrow> (Rearmed fresh, rearmed))))"

section \<open>Closing an execution and blocking its obligation\<close>

record closure_identity =
  ci_childSessionId :: "string option"
  ci_dispatchId :: "string option"
  ci_attemptId :: "string option"
  ci_obligationId :: "string option"

definition resolveExecutionDispatch ::
  "review_assurance \<Rightarrow> string \<Rightarrow> closure_identity \<Rightarrow> review_dispatch option" where
  "resolveExecutionDispatch a hostCallId c =
     (case filter (\<lambda>d.
             \<not> (ci_dispatchId c \<noteq> None \<and> Some (rd_dispatchId d) \<noteq> ci_dispatchId c) \<and>
             \<not> (ci_attemptId c \<noteq> None \<and> Some (rd_attemptId d) \<noteq> ci_attemptId c) \<and>
             \<not> (ci_obligationId c \<noteq> None \<and> Some (rd_obligationId d) \<noteq> ci_obligationId c) \<and>
             (ci_dispatchId c \<noteq> None \<or> rd_hostCallId d = hostCallId \<or>
              (ci_childSessionId c \<noteq> None \<and> Some (rd_hostCallId d) = ci_childSessionId c)))
           (as_dispatches a) of
        [d] \<Rightarrow> Some d
      | _ \<Rightarrow> None)"

definition executionDispatchIsTerminal ::
  "review_assurance \<Rightarrow> review_dispatch \<Rightarrow> string option \<Rightarrow> bool" where
  "executionDispatchIsTerminal a d childSessionId =
     (case find_attempt a (rd_attemptId d) of
        None \<Rightarrow> False
      | Some t \<Rightarrow>
          (if at_obligationId t \<noteq> rd_obligationId d then False
           else if childSessionId \<noteq> None \<and> at_childSessionId t \<noteq> None \<and>
                   at_childSessionId t \<noteq> childSessionId then False
           else if rd_status d = Di_outcome_unknown then at_status t = At_stale
           else rd_status d = Di_completed \<and> at_status t = At_bound \<and>
                list_ex (\<lambda>i. iv_attemptId i = at_attemptId t \<and> iv_obligationId i = rd_obligationId d \<and>
                             Some (iv_childSessionId i) = at_childSessionId t) (as_invocations a)))"

definition canCloseExecution ::
  "review_attempt \<Rightarrow> review_obligation \<Rightarrow> string option \<Rightarrow> bool" where
  "canCloseExecution t ob child =
     ((ro_status ob = Ob_pending \<or> ro_status ob = Ob_blocked) \<and>
      (at_status t = At_created \<or> at_status t = At_stale) \<and>
      (\<not> truthy child \<or> \<not> truthy (at_childSessionId t) \<or> at_childSessionId t = child))"

definition hasTerminalBlock ::
  "review_assurance \<Rightarrow> review_dispatch \<Rightarrow> review_obligation \<Rightarrow> review_attempt \<Rightarrow> bool" where
  "hasTerminalBlock a d ob t =
     (ro_status ob = Ob_blocked \<and> rd_status d = Di_outcome_unknown \<and> at_status t = At_stale \<and>
      as_capacityLock a \<noteq> None)"

definition blockedExecutionState ::
  "review_assurance \<Rightarrow> review_dispatch \<Rightarrow> string option \<Rightarrow> string \<Rightarrow> string \<Rightarrow> review_assurance" where
  "blockedExecutionState a d childSessionId code now =
     (let staled = bindStaleChildSession
            (updateAttemptStatus (abandonReviewDispatch (Some a) (rd_hostCallId d)) (rd_attemptId d) At_stale now
               None None) (rd_attemptId d) childSessionId;
          blocked = blockObligation staled (rd_obligationId d) code
      in blocked\<lparr>as_capacityLock := (case as_capacityLock a of
           Some lock \<Rightarrow> Some lock
         | None \<Rightarrow> Some \<lparr>cl_code = code, cl_obligationId = rd_obligationId d, cl_createdAt = now\<rparr>)\<rparr>)"

datatype block_outcome =
    Block_blocked string string
  | Block_terminal string obligation_status
  | Block_unresolved

definition abandonAndBlockByHostCall ::
  "review_assurance \<Rightarrow> string \<Rightarrow> string \<Rightarrow> closure_identity \<Rightarrow> string \<Rightarrow> block_outcome \<times> review_assurance" where
  "abandonAndBlockByHostCall a hostCallId code c now =
     (case resolveExecutionDispatch a hostCallId c of
        None \<Rightarrow> (Block_unresolved, a)
      | Some d \<Rightarrow>
          (case (find_attempt a (rd_attemptId d), find_obligation a (rd_obligationId d)) of
             (Some t, Some ob) \<Rightarrow>
               (if at_obligationId t \<noteq> ro_obligationId ob then (Block_unresolved, a)
                else if rd_status d = Di_completed then
                  (if executionDispatchIsTerminal a d (ci_childSessionId c)
                   then (Block_terminal (ro_obligationId ob) Ob_fulfilled, a) else (Block_unresolved, a))
                else if \<not> canCloseExecution t ob (ci_childSessionId c) then (Block_unresolved, a)
                else if hasTerminalBlock a d ob t then (Block_terminal (ro_obligationId ob) Ob_blocked, a)
                else
                  (let blockedCode = (case ro_blockedCode ob of None \<Rightarrow> code | Some x \<Rightarrow> x)
                   in (Block_blocked (at_obligationId t) blockedCode,
                       blockedExecutionState a d (ci_childSessionId c) blockedCode now)))
           | _ \<Rightarrow> (Block_unresolved, a)))"

text \<open>The mutation of \<open>blockReviewOutcome\<close>: the obligation is blocked and each of its open releases is
  abandoned with its attempt.\<close>
definition abandon_open_release :: "string \<Rightarrow> review_dispatch \<Rightarrow> review_assurance \<Rightarrow> review_assurance" where
  "abandon_open_release now d a =
     (let next = abandonReviewDispatch (Some a) (rd_hostCallId d)
      in case find_attempt next (rd_attemptId d) of
           Some t \<Rightarrow> (if at_status t = At_created \<or> at_status t = At_bound
                      then updateAttemptStatus next (at_attemptId t) At_stale now None None else next)
         | None \<Rightarrow> next)"

definition blockReviewOutcome :: "review_assurance \<Rightarrow> string \<Rightarrow> string \<Rightarrow> string \<Rightarrow> review_assurance" where
  "blockReviewOutcome a obligationId code now =
     (let blocked = blockObligation a obligationId code
      in fold (abandon_open_release now)
           (filter (\<lambda>d. rd_obligationId d = obligationId \<and> rd_status d = Di_authorized) (as_dispatches blocked))
           blocked)"

definition rejectNativeReviewCapture ::
  "string \<Rightarrow> string \<Rightarrow> review_assurance \<Rightarrow> string \<Rightarrow> string \<Rightarrow> string \<Rightarrow> string \<Rightarrow> string + review_assurance" where
  "rejectNativeReviewCapture criteria mandate a nativeCallId childSessionId code now =
     (case nativeReviewDispatchLineage criteria mandate a nativeCallId (Some childSessionId) of
        None \<Rightarrow> Inl ''REVIEW_TASK_EXECUTION_PROVENANCE_UNAVAILABLE''
      | Some (d, t, ob) \<Rightarrow>
          Inr (updateAttemptStatus
                 (abandonReviewDispatch (Some (blockObligation a (ro_obligationId ob) code)) nativeCallId)
                 (at_attemptId t) At_rejected now None None))"

section \<open>Recording evidence\<close>

record evidence_params =
  ep_obligationId :: string
  ep_obligationType :: obligation_type
  ep_childSessionId :: string
  ep_hostCallId :: string
  ep_attemptId :: string
  ep_promptHash :: string
  ep_findingsHash :: string
  ep_fulfilledAt :: string
  ep_overallVerdict :: "string option"
  ep_capture :: message_capture
  ep_nativeProvenance :: native_provenance

definition buildReviewInvocation :: "string \<Rightarrow> evidence_params \<Rightarrow> review_invocation" where
  "buildReviewInvocation uuid p =
     \<lparr>iv_invocationId = uuid, iv_obligationId = ep_obligationId p, iv_obligationType = ep_obligationType p,
      iv_childSessionId = ep_childSessionId p, iv_attemptId = ep_attemptId p,
      iv_invocationMode = Native_subagent_message_json, iv_transportVersion = 6, iv_capture = ep_capture p,
      iv_nativeProvenance = Some (ep_nativeProvenance p), iv_promptHash = ep_promptHash p,
      iv_findingsHash = ep_findingsHash p, iv_consumedByObligationId = None,
      iv_capturedVerdict = ep_overallVerdict p\<rparr>"

definition hasCaptureLineage :: "evidence_params \<Rightarrow> bool" where
  "hasCaptureLineage p =
     (mc_childSessionId (ep_capture p) = ep_childSessionId p \<and>
      mc_obligationId (ep_capture p) = ep_obligationId p \<and> mc_attemptId (ep_capture p) = ep_attemptId p)"

definition recorder_provenanceMatchesCapture :: "native_provenance \<Rightarrow> message_capture \<Rightarrow> bool" where
  "recorder_provenanceMatchesCapture p c =
     (np_requestMessageId p = mc_requestMessageId c \<and> np_responseMessageId p = mc_responseMessageId c \<and>
      np_requestDigest p = mc_requestDigest c \<and> np_payloadDigest p = mc_payloadDigest c \<and>
      np_assistantMessageId p = mc_assistantMessageId c \<and>
      mo_providerID (np_model p) = mo_providerID (mc_model c) \<and>
      mo_modelID (np_model p) = mo_modelID (mc_model c) \<and> mo_variant (np_model p) = mo_variant (mc_model c))"

text \<open>\<open>parsed\<close>: the capture and the provenance satisfy their schemas and the captured payload says what the
  findings say.\<close>
definition validCapture :: "bool \<Rightarrow> evidence_params \<Rightarrow> bool" where
  "validCapture parsed p =
     (hasCaptureLineage p \<and> parsed \<and>
      recorder_provenanceMatchesCapture (ep_nativeProvenance p) (ep_capture p) \<and>
      np_nativeCallId (ep_nativeProvenance p) = ep_hostCallId p)"

definition resolveEvidenceLineage ::
  "review_assurance \<Rightarrow> review_obligation \<Rightarrow> evidence_params \<Rightarrow> string option" where
  "resolveEvidenceLineage a ob p =
     (case find_attempt a (ep_attemptId p) of
        None \<Rightarrow> None
      | Some t \<Rightarrow>
          (if at_obligationId t = ro_obligationId ob \<and> at_obligationType t = ro_obligationType ob \<and>
              at_subjectDigest t = ro_subjectDigest ob \<and> at_status t = At_created \<and>
              at_childSessionId t = Some (ep_childSessionId p) \<and>
              hasAuthorizedDispatch (Some a) (ep_hostCallId p) (at_attemptId t)
           then Some (at_attemptId t) else None))"

definition settleBoundEvidence ::
  "review_assurance \<Rightarrow> review_obligation \<Rightarrow> evidence_params \<Rightarrow> string \<Rightarrow> string \<Rightarrow> string + review_assurance" where
  "settleBoundEvidence a ob p invocationId now =
     (if ep_overallVerdict p \<noteq> Some ''unable_to_review''
      then fulfillObligation a (ep_obligationId p) invocationId now
      else if ep_obligationType p = Ob_review then
        (case fulfillObligation a (ep_obligationId p) invocationId now of
           Inl e \<Rightarrow> Inl e
         | Inr b \<Rightarrow> Inr (consumeReviewObligation b (Some ob) now (Some invocationId)))
      else if ep_obligationType p = Ob_implement
      then fulfillObligation a (ep_obligationId p) invocationId now
      else blockObligationWithInvocation a (ep_obligationId p) invocationId ''SUBAGENT_UNABLE_TO_REVIEW'' now)"

datatype record_result = R_fulfilled | R_missing | R_lineage_unavailable | R_reused | R_expired | R_pre_bind

text \<open>\<open>expired\<close>: the watchdog fired or the deadline has passed; \<open>pre_bind\<close>: the findings of this attempt
  respect the frozen scope (\<open>validatePreBindFindings\<close>).\<close>
definition applyEvidenceMutation ::
  "bool \<Rightarrow> bool \<Rightarrow> bool \<Rightarrow> string \<Rightarrow> review_assurance \<Rightarrow> string \<Rightarrow> evidence_params
     \<Rightarrow> string + (record_result \<times> review_assurance)" where
  "applyEvidenceMutation parsed expired pre_bind uuid a now p =
     (if \<not> validCapture parsed p then Inr (R_lineage_unavailable, a)
      else
        (case find_obligation a (ep_obligationId p) of
           None \<Rightarrow> Inr (R_missing, a)
         | Some ob \<Rightarrow>
             (if expired then Inr (R_expired, a)
              else if hasEvidenceReuse (as_invocations a) (ep_childSessionId p) (ep_findingsHash p)
              then Inr (R_reused, blockObligation a (ep_obligationId p) ''SUBAGENT_EVIDENCE_REUSED'')
              else
                (case resolveEvidenceLineage a ob p of
                   None \<Rightarrow> Inr (R_lineage_unavailable, a)
                 | Some attemptId \<Rightarrow>
                     (if \<not> pre_bind then Inr (R_pre_bind, a)
                      else
                        (let i = buildReviewInvocation uuid p;
                             bound = updateAttemptStatus a attemptId At_bound (ep_fulfilledAt p)
                                       (Some (ep_childSessionId p)) None;
                             completed = completeReviewDispatch (Some (appendInvocationEvidence bound i))
                                           (ep_hostCallId p) (ep_fulfilledAt p)
                         in case settleBoundEvidence completed ob p (iv_invocationId i) now of
                              Inl e \<Rightarrow> Inl e
                            | Inr b \<Rightarrow> Inr (R_fulfilled, b)))))))"

section \<open>Re-arming an incoherent capture\<close>

record incoherent_input =
  in_obligationId :: string
  in_incoherentInvocationId :: string
  in_incoherentAttemptId :: string
  in_maxRetries :: nat

datatype incoherent_block =
    In_obligation_not_found | In_not_fulfilled | In_invocation_missing | In_proof_mismatch
  | In_attempt_missing | In_attempt_not_bound | In_binding_mismatch | In_retries_exhausted | In_budget_exhausted

definition resolveRearmTarget ::
  "review_assurance \<Rightarrow> incoherent_input
     \<Rightarrow> incoherent_block + (review_obligation \<times> review_invocation \<times> review_attempt)" where
  "resolveRearmTarget a i =
     (case find_obligation a (in_obligationId i) of
        None \<Rightarrow> Inl In_obligation_not_found
      | Some ob \<Rightarrow>
          (if ro_status ob \<noteq> Ob_fulfilled then Inl In_not_fulfilled
           else if ro_invocationId ob = None then Inl In_invocation_missing
           else if ro_invocationId ob \<noteq> Some (in_incoherentInvocationId i) then Inl In_proof_mismatch
           else
             (case List.find (\<lambda>v. Some (iv_invocationId v) = ro_invocationId ob) (as_invocations a) of
                None \<Rightarrow> Inl In_invocation_missing
              | Some v \<Rightarrow>
                  (if \<not> isBindableReviewTransport v then Inl In_invocation_missing
                   else if iv_attemptId v \<noteq> in_incoherentAttemptId i then Inl In_proof_mismatch
                   else
                     (case find_attempt a (iv_attemptId v) of
                        None \<Rightarrow> Inl In_attempt_missing
                      | Some t \<Rightarrow>
                          (if at_status t \<noteq> At_bound then Inl In_attempt_not_bound
                           else if at_childSessionId t \<noteq> Some (iv_childSessionId v) then Inl In_binding_mismatch
                           else Inr (ob, v, t)))))))"

definition priorF12Failures :: "review_assurance \<Rightarrow> string \<Rightarrow> nat" where
  "priorF12Failures a obligationId =
     length (filter (\<lambda>t. at_obligationId t = obligationId \<and> at_status t = At_rejected \<and>
                         at_rejectionReason t = Some Consistency_invalid) (as_attempts a))"

definition authorizeResolvedTarget ::
  "review_assurance \<Rightarrow> review_obligation \<Rightarrow> nat \<Rightarrow> incoherent_block option" where
  "authorizeResolvedTarget a ob maxRetries =
     (let failures = priorF12Failures a (ro_obligationId ob);
          rearms = countReviewAttempts a (ro_obligationId ob)
      in if failures < maxRetries \<and> rearms < ro_maxReviewerAttempts ob then None
         else if maxRetries \<le> failures then Some In_retries_exhausted
         else Some In_budget_exhausted)"

definition reset_obligation :: "review_obligation \<Rightarrow> review_obligation" where
  "reset_obligation ob =
     ob\<lparr>ro_status := Ob_pending, ro_invocationId := None, ro_fulfilledAt := None, ro_consumedAt := None,
        ro_blockedCode := None\<rparr>"

definition buildIncoherentCaptureRearm ::
  "string \<Rightarrow> review_assurance \<Rightarrow> incoherent_input \<Rightarrow> string
     \<Rightarrow> incoherent_block + (review_assurance \<times> review_attempt)" where
  "buildIncoherentCaptureRearm uuid a i now =
     (case resolveRearmTarget a i of
        Inl e \<Rightarrow> Inl e
      | Inr (ob, v, t) \<Rightarrow>
          (case authorizeResolvedTarget a ob (in_maxRetries i) of
             Some e \<Rightarrow> Inl e
           | None \<Rightarrow>
               (let rejected = updateAttemptStatus a (at_attemptId t) At_rejected now None
                                 (Some Consistency_invalid);
                    reset = updateObligation rejected (ro_obligationId ob) (\<lambda>_. reset_obligation ob)
                in Inr (createAttemptForExistingObligation uuid reset (reset_obligation ob) None now
                          (Dispatch_rearm (at_attemptId t) Spent)))))"

section \<open>Settling an unknown outcome and releasing a capacity lock\<close>

definition UNKNOWN_OUTCOME :: string where
  "UNKNOWN_OUTCOME = ''REVIEWER_EXECUTION_OUTCOME_UNKNOWN''"

definition lockedObligation :: "review_assurance \<Rightarrow> obligation_type \<Rightarrow> review_obligation option" where
  "lockedObligation a ty =
     (case as_capacityLock a of
        None \<Rightarrow> None
      | Some lock \<Rightarrow>
          (if cl_code lock \<noteq> UNKNOWN_OUTCOME then None
           else (case find_obligation a (cl_obligationId lock) of
                   None \<Rightarrow> None
                 | Some ob \<Rightarrow> (if ro_obligationType ob = ty \<and> ro_status ob = Ob_blocked \<and>
                                  ro_blockedCode ob = Some UNKNOWN_OUTCOME then Some ob else None))))"

definition unsupersededStaleAttempts :: "review_assurance \<Rightarrow> string \<Rightarrow> review_attempt list" where
  "unsupersededStaleAttempts a obligationId =
     filter (\<lambda>t. at_obligationId t = obligationId \<and> at_status t = At_stale \<and>
                 \<not> list_ex (\<lambda>i. iv_attemptId i = at_attemptId t) (as_invocations a) \<and>
                 \<not> superseded a (at_attemptId t)) (as_attempts a)"

definition unknownOutcomeTarget ::
  "review_assurance \<Rightarrow> obligation_type \<Rightarrow> (review_obligation \<times> review_attempt \<times> review_dispatch) option" where
  "unknownOutcomeTarget a ty =
     (case lockedObligation a ty of
        None \<Rightarrow> None
      | Some ob \<Rightarrow>
          (let ds = filter (\<lambda>d. rd_obligationId d = ro_obligationId ob) (as_dispatches a)
           in if list_ex (\<lambda>d. rd_status d = Di_authorized) ds then None
              else (case unsupersededStaleAttempts a (ro_obligationId ob) of
                      [t] \<Rightarrow>
                        (if at_childSessionId t = None then None
                         else (case filter (\<lambda>d. rd_attemptId d = at_attemptId t) ds of
                                 [d] \<Rightarrow> if rd_status d \<noteq> Di_outcome_unknown then None else Some (ob, t, d)
                               | _ \<Rightarrow> None))
                    | _ \<Rightarrow> None)))"

definition reopenUnknownOutcome ::
  "review_assurance \<Rightarrow> review_obligation \<times> review_attempt \<times> review_dispatch \<Rightarrow> string + review_assurance" where
  "reopenUnknownOutcome a expected =
     (case expected of
        (eo, et, ed) \<Rightarrow>
          (case unknownOutcomeTarget a (ro_obligationType eo) of
             None \<Rightarrow> Inl UNKNOWN_OUTCOME
           | Some (ob, t, d) \<Rightarrow>
               (if ro_obligationId ob \<noteq> ro_obligationId eo \<or> at_attemptId t \<noteq> at_attemptId et \<or>
                   rd_hostCallId d \<noteq> rd_hostCallId ed then Inl UNKNOWN_OUTCOME
                else Inr ((updateObligation a (ro_obligationId eo)
                             (\<lambda>item. item\<lparr>ro_status := Ob_pending, ro_blockedCode := None\<rparr>))
                          \<lparr>as_capacityLock := None\<rparr>))))"

definition RECOVERABLE_CAPACITY_CODES :: "string list" where
  "RECOVERABLE_CAPACITY_CODES = [''REVIEWER_STEP_BUDGET_EXHAUSTED'', ''REVIEWER_OUTPUT_TRUNCATED'']"

definition recoverableCapacityLock :: "review_assurance \<Rightarrow> capacity_lock option" where
  "recoverableCapacityLock a =
     (case as_capacityLock a of
        None \<Rightarrow> None
      | Some lock \<Rightarrow> if cl_code lock \<in> set RECOVERABLE_CAPACITY_CODES then Some lock else None)"

definition lockedCapacityObligation :: "review_assurance \<Rightarrow> capacity_lock \<Rightarrow> review_obligation option" where
  "lockedCapacityObligation a lock =
     (case find_obligation a (cl_obligationId lock) of
        None \<Rightarrow> None
      | Some ob \<Rightarrow> (if ro_status ob = Ob_blocked \<and> ro_blockedCode ob = Some (cl_code lock)
                    then Some ob else None))"

definition hasLiveReviewerExecution :: "review_dispatch list \<Rightarrow> review_attempt list \<Rightarrow> bool" where
  "hasLiveReviewerExecution ds ts =
     (list_ex (\<lambda>d. rd_status d = Di_authorized) ds \<or> list_ex (\<lambda>t. at_status t = At_bound) ts)"

definition terminalCapacityAttempt :: "review_attempt list \<Rightarrow> review_attempt option" where
  "terminalCapacityAttempt ts =
     (case filter (\<lambda>t. at_status t = At_stale) ts of
        [t] \<Rightarrow> if at_childSessionId t = None then None else Some t
      | _ \<Rightarrow> None)"

definition hasSuccessorAttempt :: "review_attempt list \<Rightarrow> string \<Rightarrow> bool" where
  "hasSuccessorAttempt ts attemptId =
     list_ex (\<lambda>t. at_status t = At_created \<or> at_status t = At_bound \<or>
        (case at_origin t of Initial \<Rightarrow> False | Dispatch_rearm p g \<Rightarrow> p = attemptId)) ts"

definition recoverableCapacityTarget ::
  "review_assurance \<Rightarrow> (capacity_lock \<times> review_obligation \<times> review_attempt) option" where
  "recoverableCapacityTarget a =
     (case recoverableCapacityLock a of
        None \<Rightarrow> None
      | Some lock \<Rightarrow>
          (case lockedCapacityObligation a lock of
             None \<Rightarrow> None
           | Some ob \<Rightarrow>
               (let ds = filter (\<lambda>d. rd_obligationId d = ro_obligationId ob) (as_dispatches a);
                    ts = filter (\<lambda>t. at_obligationId t = ro_obligationId ob) (as_attempts a)
                in if hasLiveReviewerExecution ds ts then None
                   else (case terminalCapacityAttempt ts of
                           None \<Rightarrow> None
                         | Some t \<Rightarrow>
                             (if hasSuccessorAttempt ts (at_attemptId t) then None
                              else (case filter (\<lambda>d. rd_attemptId d = at_attemptId t) ds of
                                      [d] \<Rightarrow> (if rd_status d \<noteq> Di_outcome_unknown then None
                                              else Some (lock, ob, t))
                                    | _ \<Rightarrow> None))))))"

definition releaseTerminalCapacityLock ::
  "review_assurance \<Rightarrow> capacity_lock \<times> review_obligation \<times> review_attempt \<Rightarrow> string + review_assurance" where
  "releaseTerminalCapacityLock a expected =
     (case (recoverableCapacityTarget a, expected) of
        (Some (lock, ob, t), (el, eo, et)) \<Rightarrow>
          (if cl_obligationId lock \<noteq> cl_obligationId el \<or> cl_code lock \<noteq> cl_code el \<or>
              at_attemptId t \<noteq> at_attemptId et
           then Inl ''REVIEW_CAPACITY_RECOVERY_UNSAFE'' else Inr (a\<lparr>as_capacityLock := None\<rparr>))
      | _ \<Rightarrow> Inl ''REVIEW_CAPACITY_RECOVERY_UNSAFE'')"

text \<open>\<open>unaddressed\<close>: some prior failing challenge still has no author resolution.\<close>
definition reopenReviewAfterAuthorResolution ::
  "bool \<Rightarrow> string \<Rightarrow> review_assurance \<Rightarrow> string \<Rightarrow> review_assurance" where
  "reopenReviewAfterAuthorResolution unaddressed uuid a now =
     (case as_capacityLock a of
        None \<Rightarrow> a
      | Some lock \<Rightarrow>
          (if cl_code lock \<noteq> ''SUBAGENT_PRIOR_CHALLENGE_UNRESOLVED'' then a
           else (case find_obligation a (cl_obligationId lock) of
                   None \<Rightarrow> a
                 | Some ob \<Rightarrow>
                     (if ro_obligationType ob \<noteq> Ob_implement \<or> ro_status ob \<noteq> Ob_blocked \<or> unaddressed \<or>
                         list_ex (\<lambda>d. rd_obligationId d = ro_obligationId ob \<and> rd_status d = Di_authorized)
                           (as_dispatches a)
                      then a
                      else (case filter (\<lambda>t. map rd_status
                                     (filter (\<lambda>d. rd_attemptId d = at_attemptId t \<and>
                                                  rd_obligationId d = ro_obligationId ob) (as_dispatches a))
                                     = [Di_outcome_unknown])
                                   (unsupersededStaleAttempts a (ro_obligationId ob)) of
                              [t] \<Rightarrow>
                                (let pending = updateObligation a (ro_obligationId ob)
                                       (\<lambda>item. item\<lparr>ro_status := Ob_pending, ro_blockedCode := None\<rparr>)
                                 in case buildInterruptedDispatchRearm uuid pending t now of
                                      Inl e \<Rightarrow> a
                                    | Inr (rearmed, fresh) \<Rightarrow> rearmed\<lparr>as_capacityLock := None\<rparr>)
                            | _ \<Rightarrow> a)))))"

section \<open>The next legal step\<close>

text \<open>A carriage return, with the line feed that may follow it, becomes one line feed.\<close>
fun normalizeReviewContent :: "string \<Rightarrow> string" where
  "normalizeReviewContent [] = []"
| "normalizeReviewContent (c # s) =
     (if c = char_of (13::nat)
      then char_of (10::nat) # (case s of [] \<Rightarrow> [] | d # r \<Rightarrow> if d = char_of (10::nat) then normalizeReviewContent r
                                                    else normalizeReviewContent s)
      else c # normalizeReviewContent s)"

definition hashCanonicalReviewContent :: "(string \<Rightarrow> string) \<Rightarrow> string \<Rightarrow> string" where
  "hashCanonicalReviewContent hash content = hash (normalizeReviewContent content)"

text \<open>A verification that succeeds is \<open>None\<close>, a blocked one its reason.\<close>

definition verify_material :: "(string \<Rightarrow> string) \<Rightarrow> review_material \<Rightarrow> string option" where
  "verify_material hash m =
     (if rm_content m \<noteq> normalizeReviewContent (rm_content m)
      then Some ''persisted material is not canonically normalized''
      else if hashCanonicalReviewContent hash (rm_content m) \<noteq> rm_materialDigest m
      then Some ''persisted material digest does not match its canonical content''
      else None)"

definition verifyFrozenReviewerContext ::
  "(string \<Rightarrow> string) \<Rightarrow> review_obligation option \<Rightarrow> review_material option \<Rightarrow> string option" where
  "verifyFrozenReviewerContext hash obo mo =
     (case obo of
        None \<Rightarrow> Some ''review obligation is missing''
      | Some ob \<Rightarrow>
          (case mo of
             None \<Rightarrow> Some ''frozen review material is unavailable for this obligation''
           | Some m \<Rightarrow>
               (case verify_material hash m of
                  Some r \<Rightarrow> Some r
                | None \<Rightarrow>
                    (case ro_reviewSubject ob of
                       None \<Rightarrow> None
                     | Some subject \<Rightarrow>
                         (if hashCanonicalReviewContent hash (rm_content m) \<noteq> subject_materialDigest subject
                          then Some ''persisted material digest does not match the frozen review subject''
                          else if ro_subjectDigest ob \<noteq> subject_subjectDigest subject
                          then Some ''obligation subject digest does not match the frozen review subject''
                          else None)))))"

definition verifyFrozenArtifactMaterial ::
  "(string \<Rightarrow> string) \<Rightarrow> review_obligation \<Rightarrow> review_material option \<Rightarrow> string option" where
  "verifyFrozenArtifactMaterial hash ob mo =
     (let expected = (case ro_obligationType ob of Ob_plan \<Rightarrow> Some Art_plan
                        | Ob_architecture \<Rightarrow> Some Art_adr | _ \<Rightarrow> None)
      in if \<not> (case ro_reviewSubjectScope ob of
                   Scope_artifact k d sections \<Rightarrow> Some k = expected \<and> d = ro_subjectDigest ob
                 | _ \<Rightarrow> False)
         then Some ''frozen artifact scope does not match the obligation subject digest''
         else (case mo of
                 None \<Rightarrow> Some ''frozen review material is unavailable for this obligation''
               | Some m \<Rightarrow>
                   (case verify_material hash m of
                      Some r \<Rightarrow> Some r
                    | None \<Rightarrow> (if rm_subjectDigest m \<noteq> ro_subjectDigest ob
                               then Some ''frozen material generation does not match the artifact subject digest''
                               else None))))"

definition verifyFrozenMaterialForObligation ::
  "(string \<Rightarrow> string) \<Rightarrow> review_obligation option \<Rightarrow> review_material option \<Rightarrow> string option" where
  "verifyFrozenMaterialForObligation hash obo mo =
     (case obo of
        None \<Rightarrow> Some ''review obligation is missing''
      | Some ob \<Rightarrow>
          (if ro_obligationType ob = Ob_plan \<or> ro_obligationType ob = Ob_architecture
           then verifyFrozenArtifactMaterial hash ob mo
           else verifyFrozenReviewerContext hash (Some ob) mo))"

datatype continuation =
    Awaiting_task review_obligation string
  | Interrupted_dispatch review_obligation string
  | Integrity_blocked review_obligation string
  | Awaiting_verdict review_obligation
  | Blocked_continuation review_obligation
  | Missing_attempt review_obligation
  | No_continuation

definition resolveReviewContinuation ::
  "(string \<Rightarrow> string) \<Rightarrow> review_assurance \<Rightarrow> obligation_type \<Rightarrow> continuation" where
  "resolveReviewContinuation hash a ty =
     (case findLatestReviewObligation (as_obligations a) ty of
        None \<Rightarrow> No_continuation
      | Some ob \<Rightarrow>
          (if ro_status ob = Ob_blocked then Blocked_continuation ob
           else if ro_status ob = Ob_fulfilled then Awaiting_verdict ob
           else if ro_status ob \<noteq> Ob_pending then No_continuation
           else
             (case findBindableAttempt a (ro_obligationId ob) of
                Some t \<Rightarrow>
                  (if hasReleasedDispatch (Some a) (at_attemptId t)
                   then Interrupted_dispatch ob (at_attemptId t) else Awaiting_task ob (at_attemptId t))
              | None \<Rightarrow>
                  (case findSpentStaleAttempt a (ro_obligationId ob) of
                     Some t \<Rightarrow> Interrupted_dispatch ob (at_attemptId t)
                   | None \<Rightarrow>
                       (case verifyFrozenMaterialForObligation hash (Some ob) (ro_reviewMaterial ob) of
                          Some reason \<Rightarrow> Integrity_blocked ob reason
                        | None \<Rightarrow> Missing_attempt ob)))))"

definition resolveReviewDispatchAuthority ::
  "string \<Rightarrow> string \<Rightarrow> review_assurance \<Rightarrow> string \<Rightarrow> (review_obligation \<times> review_attempt) option" where
  "resolveReviewDispatchAuthority criteria mandate a obligationId =
     (case find_obligation a obligationId of
        None \<Rightarrow> None
      | Some ob \<Rightarrow>
          (if ro_status ob \<noteq> Ob_pending \<or> \<not> isCurrentReviewGeneration criteria mandate ob then None
           else
             (case findBindableAttempt a obligationId of
                None \<Rightarrow> None
              | Some t \<Rightarrow>
                  (if at_obligationId t \<noteq> ro_obligationId ob \<or> at_status t \<noteq> At_created \<or>
                      at_subjectDigest t \<noteq> ro_subjectDigest ob \<or> hasReleasedDispatch (Some a) (at_attemptId t)
                   then None else Some (ob, t)))))"

end
