(* ===== verification/Review_Invariant.thy ===== *)
theory Review_Invariant
  imports Review_Lifecycle
begin

text \<open>The writers of the review ledger, composed: whatever sequence of them runs, the schema accepts the
  state, an attempt is released to the host at most once and evidence belongs to exactly one completed
  release.  The invariant is local to an attempt, its releases and its evidence, so each writer is one
  instance of the lemma \<open>ledger_update\<close> or of the three lemmas about appended records.\<close>

section \<open>The invariant\<close>

abbreviation releases :: "review_assurance \<Rightarrow> string \<Rightarrow> review_dispatch list" where
  "releases a x \<equiv> filter (\<lambda>d. rd_attemptId d = x) (as_dispatches a)"

abbreviation evidence :: "review_assurance \<Rightarrow> string \<Rightarrow> review_invocation list" where
  "evidence a x \<equiv> filter (\<lambda>i. iv_attemptId i = x) (as_invocations a)"

definition linked :: "review_dispatch list \<Rightarrow> review_invocation list \<Rightarrow> review_attempt \<Rightarrow> bool" where
  "linked ds es t =
     (\<exists>d i. ds = [d] \<and> es = [i] \<and> rd_status d = Di_completed \<and> truthy (rd_completedAt d) \<and>
        dispatchLinksInvocation d i \<and> iv_obligationId i = at_obligationId t \<and>
        iv_obligationType i = at_obligationType t \<and> at_childSessionId t = Some (iv_childSessionId i))"

definition unlinked :: "dispatch_status set \<Rightarrow> review_dispatch list \<Rightarrow> review_invocation list \<Rightarrow> bool" where
  "unlinked st ds es =
     (es = [] \<and> length ds \<le> 1 \<and>
      (\<forall>d \<in> set ds. rd_status d \<in> st \<and> (rd_status d = Di_authorized \<longrightarrow> \<not> truthy (rd_completedAt d))))"

definition attempt_state :: "review_dispatch list \<Rightarrow> review_invocation list \<Rightarrow> review_attempt \<Rightarrow> bool" where
  "attempt_state ds es t =
     (lifecycle_ok t \<and> (\<forall>d \<in> set ds. rd_obligationId d = at_obligationId t) \<and>
      (case at_status t of
         At_created \<Rightarrow> unlinked {Di_authorized} ds es
       | At_stale \<Rightarrow> unlinked {Di_authorized, Di_outcome_unknown} ds es
       | At_bound \<Rightarrow> linked ds es t
       | At_rejected \<Rightarrow> (at_rejectionReason t = None \<and> unlinked {Di_outcome_unknown} ds es \<or>
                        at_rejectionReason t = Some Consistency_invalid \<and> linked ds es t)))"

definition retired :: "rearm_trigger \<Rightarrow> review_dispatch list \<Rightarrow> review_attempt \<Rightarrow> bool" where
  "retired g ds u =
     (at_status u = At_stale \<and> (\<exists>d \<in> set ds. rd_status d = Di_outcome_unknown) \<or>
      at_status u = At_rejected \<and> at_rejectionReason u = Some Consistency_invalid \<and> g = Spent \<and>
        (\<exists>d \<in> set ds. rd_status d = Di_completed))"

definition obligation_state :: "review_invocation list \<Rightarrow> review_obligation \<Rightarrow> bool" where
  "obligation_state es ob =
     (refineReviewCycleCoherence ob \<and>
      (truthy (ro_invocationId ob) \<longrightarrow>
         (\<exists>i \<in> set es. ro_invocationId ob = Some (iv_invocationId i) \<and>
            iv_obligationId i = ro_obligationId ob \<and> iv_obligationType i = ro_obligationType ob)) \<and>
      (ro_status ob = Ob_fulfilled \<or> ro_status ob = Ob_consumed \<longrightarrow>
         truthy (ro_invocationId ob) \<and> truthy (ro_fulfilledAt ob)) \<and>
      (ro_status ob = Ob_consumed \<longrightarrow> truthy (ro_consumedAt ob)))"

definition invocation_state :: "review_attempt list \<Rightarrow> review_invocation \<Rightarrow> bool" where
  "invocation_state ts i =
     (iv_attemptId i \<in> at_attemptId ` set ts \<and> refineInvocationTransport i \<and> iv_invocationId i \<noteq> [] \<and>
      (iv_consumedByObligationId i = None \<or> iv_consumedByObligationId i = Some (iv_obligationId i)))"

definition lineage_state :: "review_assurance \<Rightarrow> review_attempt \<Rightarrow> bool" where
  "lineage_state a t =
     (case at_origin t of
        Initial \<Rightarrow> at_ordinal t = 1
      | Dispatch_rearm p g \<Rightarrow> at_ordinal t \<noteq> 1 \<and> p \<noteq> [] \<and>
          (\<exists>u \<in> set (as_attempts a). at_attemptId u = p \<and> predecessor_coherent t u \<and> retired g (releases a p) u))"

definition attempt_authority :: "review_obligation list \<Rightarrow> review_attempt \<Rightarrow> bool" where
  "attempt_authority obs t =
     (\<exists>ob \<in> set obs. ro_obligationId ob = at_obligationId t \<and> ro_obligationType ob = at_obligationType t \<and>
        ro_subjectDigest ob = at_subjectDigest t)"

abbreviation attempts_of :: "review_attempt list \<Rightarrow> string \<Rightarrow> review_attempt list" where
  "attempts_of ts b \<equiv> filter (\<lambda>t. at_obligationId t = b) ts"

definition ordinals_state :: "review_attempt list \<Rightarrow> bool" where
  "ordinals_state ts = (\<forall>b. map at_ordinal (attempts_of ts b) = [1..<Suc (length (attempts_of ts b))])"

definition identities :: "review_assurance \<Rightarrow> bool" where
  "identities a =
     (refineAssuranceIdentityUniqueness a \<and> distinct (map rd_dispatchId (as_dispatches a)) \<and>
      distinct (map rd_hostCallId (as_dispatches a)) \<and>
      (\<forall>d \<in> set (as_dispatches a). rd_attemptId d \<in> at_attemptId ` set (as_attempts a)) \<and>
      (\<forall>t \<in> set (as_attempts a). at_attemptId t \<noteq> []))"

definition ledger_state :: "string \<Rightarrow> review_assurance \<Rightarrow> bool" where
  "ledger_state c a =
     (identities a \<and> ordinals_state (as_attempts a) \<and>
      (\<forall>t \<in> set (as_attempts a). attempt_state (releases a (at_attemptId t)) (evidence a (at_attemptId t)) t \<and>
         at_createdAt t \<le> c \<and> attempt_authority (as_obligations a) t \<and> lineage_state a t) \<and>
      (\<forall>i \<in> set (as_invocations a). invocation_state (as_attempts a) i) \<and>
      (\<forall>ob \<in> set (as_obligations a). obligation_state (as_invocations a) ob) \<and>
      refineAssuranceCapacityLockCoherence a)"

section \<open>The invariant implies the schema\<close>

lemma ordinals_sorted:
  assumes "ordinals_state ts"
  shows "distinct (map at_ordinal (attempts_of ts b))"
  using assms by (simp add: ordinals_state_def del: upt_Suc)

lemma ordinal_positive:
  assumes "ordinals_state ts" and "t \<in> set ts"
  shows "1 \<le> at_ordinal t"
proof -
  have "at_ordinal t \<in> set (map at_ordinal (attempts_of ts (at_obligationId t)))" using assms(2) by auto
  then show ?thesis using assms(1) unfolding ordinals_state_def by (auto simp del: upt_Suc)
qed

lemma distinct_map_pair:
  "(\<And>b. distinct (map g (filter (\<lambda>t. f t = b) ts))) \<Longrightarrow> distinct (map (\<lambda>t. (f t, g t)) ts)"
proof (induction ts)
  case (Cons t ts)
  have "distinct (map g (filter (\<lambda>t. f t = b) ts))" for b using Cons.prems [of b] by (auto split: if_splits)
  moreover have "(f t, g t) \<notin> set (map (\<lambda>t. (f t, g t)) ts)" using Cons.prems [of "f t"] by auto
  ultimately show ?case using Cons.IH by simp
qed simp

lemma ordinals_state_keys:
  assumes "ordinals_state ts"
  shows "distinct (map ordinal_key ts)"
proof -
  have "distinct (map (\<lambda>t. (at_obligationId t, at_ordinal t)) ts)"
    by (rule distinct_map_pair) (rule ordinals_sorted [OF assms])
  then show ?thesis by (auto simp: distinct_map inj_on_def ordinal_key_eq)
qed

lemma coherent_ordinalsI:
  assumes "ordinals_state ts" and "\<forall>t \<in> set ts. at_origin t = Initial \<longrightarrow> at_ordinal t = 1"
  shows "coherent_ordinals ts"
proof -
  have one: "at_ordinal t = 1" if "t \<in> set ts" "at_origin t = Initial" for t
    using that assms(2) by blast
  have "distinct (map (\<lambda>t. (at_obligationId t, at_ordinal t)) ts)"
    by (rule distinct_map_pair) (rule ordinals_sorted [OF assms(1)])
  then have "distinct (map (\<lambda>t. (at_obligationId t, at_ordinal t)) (filter (\<lambda>t. at_origin t = Initial) ts))"
    by (rule distinct_map_filter)
  then have "distinct (map at_obligationId (filter (\<lambda>t. at_origin t = Initial) ts))"
    using one unfolding distinct_map inj_on_def by fastforce
  moreover have "at_ordinal t \<le> at_ordinal u" if "t \<in> set ts" "u \<in> set ts" "at_origin t = Initial" for t u
    using ordinal_positive [OF assms(1) that(2)] one [OF that(1,3)] by simp
  ultimately show ?thesis
    unfolding coherent_ordinals_def using ordinals_state_keys [OF assms(1)] by blast
qed

lemma find_by_id:
  "distinct (map key xs) \<Longrightarrow> List.find (\<lambda>x. key x = k) xs = Some x \<longleftrightarrow> x \<in> set xs \<and> key x = k"
  by (induction xs) (auto simp: image_iff)

lemma last_by_id:
  "distinct (map key xs) \<Longrightarrow> last_by key xs k = Some x \<longleftrightarrow> x \<in> set xs \<and> key x = k"
  unfolding last_by_def using find_by_id [of key "rev xs" k x] by (simp add: rev_map [symmetric])

lemma distinct_by_class:
  "(\<And>x. length (filter (\<lambda>y. key y = x) ys) \<le> 1) \<Longrightarrow> distinct (map key ys)"
proof (induction ys)
  case (Cons y ys)
  have "length (filter (\<lambda>z. key z = x) ys) \<le> 1" for x using Cons.prems [of x] by (auto split: if_splits)
  moreover have "filter (\<lambda>z. key z = key y) ys = []" using Cons.prems [of "key y"] by simp
  then have "key y \<notin> key ` set ys" by (auto simp: filter_empty_conv)
  ultimately show ?case using Cons.IH by simp
qed simp

lemma attempt_state_releases:
  assumes "attempt_state ds es t"
  shows "length ds \<le> 1"
    and "\<And>d. d \<in> set ds \<Longrightarrow> rd_obligationId d = at_obligationId t"
    and "\<And>d. d \<in> set ds \<Longrightarrow> rd_status d = Di_authorized \<Longrightarrow> \<not> truthy (rd_completedAt d)"
    and "\<And>d. d \<in> set ds \<Longrightarrow> rd_status d = Di_completed \<Longrightarrow> truthy (rd_completedAt d) \<and> linked ds es t"
    and "\<And>i. i \<in> set es \<Longrightarrow> linked ds es t \<and> (at_status t = At_bound \<or> at_status t = At_rejected)"
  using assms by (auto simp: attempt_state_def unlinked_def linked_def split: attempt_status.splits)

lemma ledger_stateD:
  assumes "ledger_state c a"
  shows "identities a" and "ordinals_state (as_attempts a)"
    and "\<And>t. t \<in> set (as_attempts a) \<Longrightarrow> at_createdAt t \<le> c"
    and "\<And>t. t \<in> set (as_attempts a) \<Longrightarrow> attempt_authority (as_obligations a) t"
    and "\<And>t. t \<in> set (as_attempts a) \<Longrightarrow> lineage_state a t"
    and "\<And>i. i \<in> set (as_invocations a) \<Longrightarrow> invocation_state (as_attempts a) i"
    and "\<And>ob. ob \<in> set (as_obligations a) \<Longrightarrow> obligation_state (as_invocations a) ob"
    and "refineAssuranceCapacityLockCoherence a"
  using assms by (simp_all add: ledger_state_def)

lemma ledger_stateI:
  assumes "identities a" and "ordinals_state (as_attempts a)"
    and "\<And>t. t \<in> set (as_attempts a) \<Longrightarrow>
      attempt_state (releases a (at_attemptId t)) (evidence a (at_attemptId t)) t \<and> at_createdAt t \<le> c \<and>
      attempt_authority (as_obligations a) t \<and> lineage_state a t"
    and "\<And>i. i \<in> set (as_invocations a) \<Longrightarrow> invocation_state (as_attempts a) i"
    and "\<And>ob. ob \<in> set (as_obligations a) \<Longrightarrow> obligation_state (as_invocations a) ob"
    and "refineAssuranceCapacityLockCoherence a"
  shows "ledger_state c a"
  using assms by (simp add: ledger_state_def)

lemma ledger_identities:
  assumes "ledger_state c a"
  shows "distinct (map at_attemptId (as_attempts a))" and "distinct (map iv_invocationId (as_invocations a))"
    and "distinct (map ro_obligationId (as_obligations a))"
    and "distinct (map rd_dispatchId (as_dispatches a))" and "distinct (map rd_hostCallId (as_dispatches a))"
  using assms by (simp_all add: ledger_state_def identities_def refineAssuranceIdentityUniqueness_def)

lemma state_of_attempt:
  "ledger_state c a \<Longrightarrow> t \<in> set (as_attempts a) \<Longrightarrow>
     attempt_state (releases a (at_attemptId t)) (evidence a (at_attemptId t)) t"
  by (simp add: ledger_state_def)

lemma release_owner:
  assumes "ledger_state c a" and "d \<in> set (as_dispatches a)"
  shows "\<exists>t \<in> set (as_attempts a). at_attemptId t = rd_attemptId d \<and> d \<in> set (releases a (at_attemptId t))"
  using assms by (force simp: ledger_state_def identities_def)

lemma evidence_owner:
  assumes "ledger_state c a" and "i \<in> set (as_invocations a)"
  shows "\<exists>t \<in> set (as_attempts a). at_attemptId t = iv_attemptId i \<and> i \<in> set (evidence a (at_attemptId t))"
  using assms by (force simp: ledger_state_def invocation_state_def)

lemma dispatches_coherent:
  assumes inv: "ledger_state c a"
  shows "refineAssuranceDispatchCoherence a"
proof -
  note attempt_ids = ledger_identities(1) [OF inv]
  have "dispatch_ok (as_attempts a) d" if din: "d \<in> set (as_dispatches a)" for d
  proof -
    obtain t where t: "t \<in> set (as_attempts a)" "at_attemptId t = rd_attemptId d"
        "d \<in> set (releases a (at_attemptId t))" using release_owner [OF inv din] by blast
    have "last_by at_attemptId (as_attempts a) (rd_attemptId d) = Some t"
      using last_by_id [OF attempt_ids] t by blast
    then show ?thesis
      using attempt_state_releases [OF state_of_attempt [OF inv t(1)]] t(3) by (auto simp: dispatch_ok_def)
  qed
  moreover have "length (filter (\<lambda>d. rd_attemptId d = x) (as_dispatches a)) \<le> 1" for x
  proof (cases "x \<in> at_attemptId ` set (as_attempts a)")
    case True
    then show ?thesis using attempt_state_releases(1) [OF state_of_attempt [OF inv]] by auto
  next
    case False
    then have "filter (\<lambda>d. rd_attemptId d = x) (as_dispatches a) = []"
      using inv by (auto simp: filter_empty_conv ledger_state_def identities_def)
    then show ?thesis by simp
  qed
  then have "distinct (map rd_attemptId (as_dispatches a))" by (rule distinct_by_class)
  ultimately show ?thesis
    using inv by (auto simp: dispatch_coherence_iff list_all_iff ledger_state_def identities_def
      intro: distinct_map_filter)
qed

lemma lineage_coherent:
  assumes inv: "ledger_state c a"
  shows "refineAssuranceAttemptLineageCoherence a"
proof -
  note attempt_ids = ledger_identities(1) [OF inv]
  have life: "lifecycle_ok t" if "t \<in> set (as_attempts a)" for t
    using state_of_attempt [OF inv that] by (simp add: attempt_state_def)
  have lin: "lineage_state a t" if "t \<in> set (as_attempts a)" for t
    using inv that by (simp add: ledger_state_def)
  have "lineage_ok a t" if tin: "t \<in> set (as_attempts a)" for t
  proof (cases "at_origin t")
    case (Dispatch_rearm p g)
    then obtain u where u: "u \<in> set (as_attempts a)" "at_attemptId u = p" "predecessor_coherent t u"
        "retired g (releases a p) u" "p \<noteq> []"
      using lin [OF tin] by (auto simp: lineage_state_def)
    have "last_by at_attemptId (as_attempts a) p = Some u" using last_by_id [OF attempt_ids] u by blast
    moreover have "g \<in> set (triggerReasonsForPredecessor u (as_dispatches a))"
      using u(2,4) by (cases g) (auto simp: retired_def triggerReasonsForPredecessor_def Let_def list_ex_iff)
    ultimately show ?thesis using u Dispatch_rearm by (simp add: lineage_ok_def)
  qed (simp add: lineage_ok_def)
  moreover have "coherent_ordinals (as_attempts a)"
  proof (rule coherent_ordinalsI)
    show "ordinals_state (as_attempts a)" using inv by (simp add: ledger_state_def)
    show "\<forall>t \<in> set (as_attempts a). at_origin t = Initial \<longrightarrow> at_ordinal t = 1"
      using lin by (fastforce simp: lineage_state_def)
  qed
  ultimately show ?thesis
    using life by (simp add: refineAssuranceAttemptLineageCoherence_def coherent_ordinals_iff list_all_iff
      hasCoherentLifecycleFields_def hasCoherentPredecessorLineage_def)
qed

lemma linked_member:
  "linked ds es t \<Longrightarrow> i \<in> set es \<Longrightarrow>
     at_obligationId t = iv_obligationId i \<and> at_obligationType t = iv_obligationType i \<and>
     at_childSessionId t = Some (iv_childSessionId i)"
  by (auto simp: linked_def)

lemma release_links:
  assumes "attempt_state ds es t" and "d \<in> set ds"
  shows "let n = length (filter (dispatchLinksInvocation d) es)
    in \<not> (rd_status d = Di_completed \<and> n \<noteq> 1) \<and> \<not> (rd_status d \<noteq> Di_completed \<and> 0 < n)"
  using assms by (auto simp: attempt_state_def linked_def unlinked_def split: attempt_status.splits)

lemma linkage_coherent:
  assumes inv: "ledger_state c a"
  shows "refineAssuranceInvocationDispatchLinkage a"
proof -
  have "length (filter (\<lambda>d. dispatchLinksInvocation d i \<and> rd_status d = Di_completed \<and> rd_completedAt d \<noteq> None)
          (releases a (iv_attemptId i))) = 1" if i: "i \<in> set (as_invocations a)" for i
  proof -
    obtain t where t: "t \<in> set (as_attempts a)" "at_attemptId t = iv_attemptId i"
        "i \<in> set (evidence a (at_attemptId t))" using evidence_owner [OF inv i] by blast
    have "linked (releases a (at_attemptId t)) (evidence a (at_attemptId t)) t"
      using attempt_state_releases(5) [OF state_of_attempt [OF inv t(1)] t(3)] by simp
    then obtain d j where dj: "releases a (at_attemptId t) = [d]" "evidence a (at_attemptId t) = [j]"
        "rd_status d = Di_completed" "truthy (rd_completedAt d)" "dispatchLinksInvocation d j"
      by (auto simp: linked_def)
    have "j = i" using t(3) unfolding dj(2) by simp
    with dj show ?thesis unfolding t(2) [symmetric] dj(1) by (auto simp: truthy_def split: option.splits)
  qed
  moreover have "let n = length (filter (dispatchLinksInvocation d) (evidence a (rd_attemptId d)))
      in \<not> (rd_status d = Di_completed \<and> n \<noteq> 1) \<and> \<not> (rd_status d \<noteq> Di_completed \<and> 0 < n)"
    if d: "d \<in> set (as_dispatches a)" for d
  proof -
    obtain t where t: "t \<in> set (as_attempts a)" "at_attemptId t = rd_attemptId d"
        "d \<in> set (releases a (at_attemptId t))" using release_owner [OF inv d] by blast
    from release_links [OF state_of_attempt [OF inv t(1)] t(3)] show ?thesis unfolding t(2) .
  qed
  ultimately show ?thesis
    by (simp add: refineAssuranceInvocationDispatchLinkage_def validateInvocationDispatchLinks_def
      validateDispatchInvocationLinks_def list_all_iff del: filter_filter)
qed

text \<open>Every state with the invariant passes the modelled part of the schema.\<close>

theorem ledger_schema:
  assumes inv: "ledger_state c a"
  shows "assurance_ok a"
proof -
  note ids = ledger_identities [OF inv]
  have "bound_attempt_ok a i" if i: "i \<in> set (as_invocations a)" for i
  proof -
    obtain t where t: "t \<in> set (as_attempts a)" "at_attemptId t = iv_attemptId i"
        "i \<in> set (evidence a (at_attemptId t))" using evidence_owner [OF inv i] by blast
    have st: "attempt_state (releases a (at_attemptId t)) (evidence a (at_attemptId t)) t"
      by (rule state_of_attempt [OF inv t(1)])
    have link: "linked (releases a (at_attemptId t)) (evidence a (at_attemptId t)) t"
      and "at_status t = At_bound \<or> at_status t = At_rejected"
      using attempt_state_releases(5) [OF st t(3)] by blast+
    moreover have "at_status t \<noteq> At_created \<Longrightarrow> truthy (at_completedAt t)"
      using st by (auto simp: attempt_state_def lifecycle_ok_def)
    moreover have "last_by at_attemptId (as_attempts a) (iv_attemptId i) = Some t"
      using last_by_id [OF ids(1)] t by blast
    ultimately show ?thesis
      using linked_member [OF link t(3)] by (auto simp: bound_attempt_ok_def)
  qed
  moreover have "back_reference_ok a ob \<and> refineReviewCycleCoherence ob" if ob: "ob \<in> set (as_obligations a)" for ob
  proof -
    have st: "obligation_state (as_invocations a) ob" using inv ob by (simp add: ledger_state_def)
    have "case last_by iv_invocationId (as_invocations a) (the (ro_invocationId ob)) of
            None \<Rightarrow> False
          | Some i \<Rightarrow> iv_obligationId i = ro_obligationId ob \<and> iv_obligationType i = ro_obligationType ob"
      if linked: "truthy (ro_invocationId ob)"
    proof -
      obtain i where "i \<in> set (as_invocations a)" "ro_invocationId ob = Some (iv_invocationId i)"
          "iv_obligationId i = ro_obligationId ob" "iv_obligationType i = ro_obligationType ob"
        using st linked by (auto simp: obligation_state_def)
      moreover from this have "last_by iv_invocationId (as_invocations a) (the (ro_invocationId ob)) = Some i"
        using last_by_id [OF ids(2)] by simp
      ultimately show ?thesis by simp
    qed
    then show ?thesis using st by (auto simp: back_reference_ok_def obligation_state_def)
  qed
  moreover have "refineAssuranceIdentityUniqueness a" "refineAssuranceCapacityLockCoherence a"
    and "\<forall>i \<in> set (as_invocations a). invocation_state (as_attempts a) i"
    using inv by (simp_all add: ledger_state_def identities_def)
  ultimately show ?thesis
    using lineage_coherent [OF inv] dispatches_coherent [OF inv] linkage_coherent [OF inv]
    by (auto simp: assurance_ok_def list_all_iff hasBoundAttemptLinkage_def hasObligationBackReference_def
      hasConsumedByInvariant_def invocation_state_def)
qed

section \<open>Updates in place\<close>

definition same_attempt :: "review_attempt \<Rightarrow> review_attempt \<Rightarrow> bool" where
  "same_attempt t u =
     (at_attemptId t = at_attemptId u \<and> at_obligationId t = at_obligationId u \<and>
      at_obligationType t = at_obligationType u \<and> at_subjectDigest t = at_subjectDigest u \<and>
      at_ordinal t = at_ordinal u \<and> at_origin t = at_origin u \<and> at_createdAt t = at_createdAt u)"

definition same_release :: "review_dispatch \<Rightarrow> review_dispatch \<Rightarrow> bool" where
  "same_release d e =
     (rd_dispatchId d = rd_dispatchId e \<and> rd_hostCallId d = rd_hostCallId e \<and>
      rd_attemptId d = rd_attemptId e \<and> rd_obligationId d = rd_obligationId e)"

definition same_obligation :: "review_obligation \<Rightarrow> review_obligation \<Rightarrow> bool" where
  "same_obligation x y =
     (ro_obligationId x = ro_obligationId y \<and> ro_obligationType x = ro_obligationType y \<and>
      ro_subjectDigest x = ro_subjectDigest y)"

lemma map_same_key: "(\<And>x. x \<in> set xs \<Longrightarrow> key (f x) = key x) \<Longrightarrow> map key (map f xs) = map key xs"
  by simp

lemma releases_map:
  "(\<And>d. same_release (g d) d) \<Longrightarrow> filter (\<lambda>d. rd_attemptId d = x) (map g ds) = map g (filter (\<lambda>d. rd_attemptId d = x) ds)"
  by (simp add: filter_map o_def same_release_def)

lemma attempts_of_map:
  "(\<And>t. same_attempt (f t) t) \<Longrightarrow> attempts_of (map f ts) b = map f (attempts_of ts b)"
  by (simp add: filter_map o_def same_attempt_def)

lemma ordinals_map:
  "(\<And>t. same_attempt (f t) t) \<Longrightarrow> ordinals_state ts \<Longrightarrow> ordinals_state (map f ts)"
  unfolding ordinals_state_def by (simp add: attempts_of_map o_def same_attempt_def del: upt_Suc)

lemma ledger_update:
  assumes inv: "ledger_state c a" and c: "c \<le> c'"
    and f: "\<And>t. same_attempt (f t) t" and g: "\<And>d. same_release (g d) d"
    and k: "\<And>ob. ob \<in> set (as_obligations a) \<Longrightarrow> same_obligation (k ob) ob \<and> obligation_state es (k ob)"
    and es: "distinct (map iv_invocationId es)" "\<And>i. i \<in> set es \<Longrightarrow> invocation_state (as_attempts a) i"
    and st: "\<And>t. t \<in> set (as_attempts a) \<Longrightarrow>
      attempt_state (map g (releases a (at_attemptId t))) (filter (\<lambda>i. iv_attemptId i = at_attemptId t) es) (f t)"
    and ret: "\<And>t r. t \<in> set (as_attempts a) \<Longrightarrow> retired r (releases a (at_attemptId t)) t \<Longrightarrow>
      retired r (map g (releases a (at_attemptId t))) (f t)"
    and a': "a' = \<lparr>as_obligations = map k (as_obligations a), as_invocations = es,
      as_attempts = map f (as_attempts a), as_dispatches = map g (as_dispatches a), as_capacityLock = l\<rparr>"
    and lock: "refineAssuranceCapacityLockCoherence a'"
  shows "ledger_state c' a'"
proof -
  have keys: "at_attemptId (f t) = at_attemptId t" "at_obligationId (f t) = at_obligationId t" for t
    using f by (simp_all add: same_attempt_def)
  have gk: "rd_dispatchId (g d) = rd_dispatchId d" "rd_hostCallId (g d) = rd_hostCallId d"
      "rd_attemptId (g d) = rd_attemptId d" for d
    using g by (simp_all add: same_release_def)
  have kk: "ro_obligationId (k ob) = ro_obligationId ob" if "ob \<in> set (as_obligations a)" for ob
    using k [OF that] by (simp add: same_obligation_def)
  have rel: "releases a' x = map g (releases a x)" for x
    unfolding a' by (simp add: releases_map [OF g])
  have "identities a'"
    using inv es(1) kk unfolding a'
    by (simp add: ledger_state_def identities_def refineAssuranceIdentityUniqueness_def o_def keys gk
      image_image cong: map_cong)
  moreover have "ordinals_state (as_attempts a')"
    using inv ordinals_map [OF f] unfolding a' by (simp add: ledger_state_def)
  moreover have "attempt_authority (as_obligations a') (f t)" if tin: "t \<in> set (as_attempts a)" for t
  proof -
    obtain ob where "ob \<in> set (as_obligations a)" "ro_obligationId ob = at_obligationId t"
        "ro_obligationType ob = at_obligationType t" "ro_subjectDigest ob = at_subjectDigest t"
      using inv tin by (auto simp: ledger_state_def attempt_authority_def)
    then show ?thesis
      using k f [of t] unfolding a' attempt_authority_def
      by (intro bexI [of _ "k ob"]) (auto simp: same_obligation_def same_attempt_def)
  qed
  moreover have "lineage_state a' (f t)" if "t \<in> set (as_attempts a)" for t
  proof (cases "at_origin t")
    case Initial
    then show ?thesis
      using inv that f [of t] by (auto simp: ledger_state_def lineage_state_def same_attempt_def)
  next
    case (Dispatch_rearm p r)
    have lin: "lineage_state a t" using inv that by (simp add: ledger_state_def)
    then obtain u where u: "u \<in> set (as_attempts a)" "at_attemptId u = p" "predecessor_coherent t u"
        "retired r (releases a p) u"
      using Dispatch_rearm by (auto simp: lineage_state_def)
    have "retired r (releases a' p) (f u)" using ret [OF u(1)] u(2,4) unfolding rel by simp
    moreover have "predecessor_coherent (f t) (f u)"
      using u(3) f [of t] f [of u] by (simp add: predecessor_coherent_def same_attempt_def)
    moreover have "f u \<in> set (as_attempts a')" unfolding a' using u(1) by simp
    ultimately show ?thesis
      using lin Dispatch_rearm f [of t] u(2) keys by (auto simp: lineage_state_def same_attempt_def)
  qed
  moreover have "attempt_state (releases a' (at_attemptId (f t))) (evidence a' (at_attemptId (f t))) (f t)"
    if "t \<in> set (as_attempts a)" for t
    using st [OF that] unfolding rel keys by (simp add: a')
  moreover have "at_createdAt (f t) \<le> c'" if "t \<in> set (as_attempts a)" for t
    using inv that c f [of t] by (auto simp: ledger_state_def same_attempt_def)
  moreover have "invocation_state (as_attempts a') i" if "i \<in> set es" for i
    using es(2) [OF that] unfolding a' by (simp add: invocation_state_def image_image keys)
  ultimately show ?thesis
    using k lock unfolding ledger_state_def by (simp add: a')
qed

section \<open>Appended records\<close>

lemma ordinals_snoc:
  assumes "ordinals_state ts" and "at_ordinal t = length (attempts_of ts (at_obligationId t)) + 1"
  shows "ordinals_state (ts @ [t])"
  using assms unfolding ordinals_state_def by (auto simp: upt_Suc_append)

lemma lineage_state_mono:
  "lineage_state a t \<Longrightarrow> set (as_attempts a) \<subseteq> set (as_attempts b) \<Longrightarrow>
     set (as_dispatches a) \<subseteq> set (as_dispatches b) \<Longrightarrow> lineage_state b t"
  unfolding lineage_state_def retired_def by (auto split: attempt_origin.splits) blast+

lemma no_owner:
  assumes "ledger_state c a" and "x \<notin> at_attemptId ` set (as_attempts a)"
  shows "releases a x = []" and "evidence a x = []"
proof -
  have "\<forall>d \<in> set (as_dispatches a). rd_attemptId d \<noteq> x"
    using assms unfolding ledger_state_def identities_def by blast
  then show "releases a x = []" unfolding filter_empty_conv .
  have "\<forall>i \<in> set (as_invocations a). iv_attemptId i \<noteq> x"
    using assms unfolding ledger_state_def invocation_state_def by blast
  then show "evidence a x = []" unfolding filter_empty_conv .
qed

lemma same_id: "distinct (map key xs) \<Longrightarrow> x \<in> set xs \<Longrightarrow> y \<in> set xs \<Longrightarrow> key x = key y \<Longrightarrow> x = y"
  by (auto simp: distinct_map dest: inj_onD)

lemma find_append: "List.find P xs = Some x \<Longrightarrow> List.find P (xs @ ys) = Some x"
  by (induction xs) (auto split: if_splits)

lemma lock_same:
  "as_capacityLock b = as_capacityLock a \<Longrightarrow> as_obligations b = as_obligations a \<Longrightarrow>
     refineAssuranceCapacityLockCoherence b = refineAssuranceCapacityLockCoherence a"
  by (simp only: refineAssuranceCapacityLockCoherence_def)

lemma append_attempt:
  assumes inv: "ledger_state c a" and c: "c \<le> at_createdAt t" "at_createdAt t \<le> c'"
    and fresh: "at_attemptId t \<notin> at_attemptId ` set (as_attempts a)" "at_attemptId t \<noteq> []"
    and new: "at_status t = At_created" "at_completedAt t = None" "at_rejectionReason t = None"
    and ord: "at_ordinal t = length (attempts_of (as_attempts a) (at_obligationId t)) + 1"
    and auth: "attempt_authority (as_obligations a) t"
    and lin: "lineage_state (appendReviewAttempt a t) t"
  shows "ledger_state c' (appendReviewAttempt a t)"
proof (rule ledger_stateI)
  let ?b = "appendReviewAttempt a t"
  have b: "as_attempts ?b = as_attempts a @ [t]" "as_dispatches ?b = as_dispatches a"
      "as_invocations ?b = as_invocations a" "as_obligations ?b = as_obligations a"
    by (simp_all add: appendReviewAttempt_def)
  show "identities ?b"
    using ledger_stateD(1) [OF inv] fresh
    by (auto simp: identities_def refineAssuranceIdentityUniqueness_def b)
  show "ordinals_state (as_attempts ?b)" unfolding b by (rule ordinals_snoc [OF ledger_stateD(2) [OF inv] ord])
  show "refineAssuranceCapacityLockCoherence ?b"
    using ledger_stateD(8) [OF inv] lock_same [of ?b a] by (simp add: b) (simp add: appendReviewAttempt_def)
  show "obligation_state (as_invocations ?b) ob" if "ob \<in> set (as_obligations ?b)" for ob
    using ledger_stateD(7) [OF inv] that by (simp add: b)
  show "invocation_state (as_attempts ?b) i" if "i \<in> set (as_invocations ?b)" for i
    using ledger_stateD(6) [OF inv] that by (simp add: b invocation_state_def)
  fix u assume "u \<in> set (as_attempts ?b)"
  then consider "u \<in> set (as_attempts a)" | "u = t" unfolding b by auto
  then show "attempt_state (releases ?b (at_attemptId u)) (evidence ?b (at_attemptId u)) u \<and>
      at_createdAt u \<le> c' \<and> attempt_authority (as_obligations ?b) u \<and> lineage_state ?b u"
  proof cases
    case 1
    have "lineage_state ?b u" by (rule lineage_state_mono [OF ledger_stateD(5) [OF inv 1]]) (auto simp: b)
    moreover have "at_createdAt u \<le> c'" using ledger_stateD(3) [OF inv 1] c by (meson order_trans)
    ultimately show ?thesis
      using state_of_attempt [OF inv 1] ledger_stateD(4) [OF inv 1] by (simp add: b)
  next
    case 2
    have "attempt_state [] [] t"
      using new by (simp add: attempt_state_def lifecycle_ok_def truthy_def unlinked_def)
    then show ?thesis using c auth lin no_owner [OF inv fresh(1)] unfolding 2 b by simp
  qed
qed

lemma append_release:
  assumes inv: "ledger_state c a" and t: "t \<in> set (as_attempts a)" "at_status t = At_created"
    and d: "rd_attemptId d = at_attemptId t" "rd_obligationId d = at_obligationId t" "rd_status d = Di_authorized"
      "rd_completedAt d = None"
    and none: "releases a (at_attemptId t) = []"
    and fresh: "rd_dispatchId d \<notin> rd_dispatchId ` set (as_dispatches a)"
      "rd_hostCallId d \<notin> rd_hostCallId ` set (as_dispatches a)"
  shows "ledger_state c (appendReviewDispatch (Some a) d)"
proof (rule ledger_stateI)
  let ?b = "appendReviewDispatch (Some a) d"
  have b: "as_attempts ?b = as_attempts a" "as_dispatches ?b = as_dispatches a @ [d]"
      "as_invocations ?b = as_invocations a" "as_obligations ?b = as_obligations a"
    by (simp_all add: appendReviewDispatch_def ensureReviewAssurance_def Let_def)
  show "identities ?b"
    using ledger_stateD(1) [OF inv] fresh t(1) d(1)
    by (auto simp: identities_def refineAssuranceIdentityUniqueness_def b)
  show "ordinals_state (as_attempts ?b)" unfolding b by (rule ledger_stateD(2) [OF inv])
  show "refineAssuranceCapacityLockCoherence ?b"
    using ledger_stateD(8) [OF inv] lock_same [of ?b a]
    by (simp add: b) (simp add: appendReviewDispatch_def ensureReviewAssurance_def Let_def)
  show "obligation_state (as_invocations ?b) ob" if "ob \<in> set (as_obligations ?b)" for ob
    using ledger_stateD(7) [OF inv] that by (simp add: b)
  show "invocation_state (as_attempts ?b) i" if "i \<in> set (as_invocations ?b)" for i
    using ledger_stateD(6) [OF inv] that by (simp add: b)
  fix u assume "u \<in> set (as_attempts ?b)"
  then have u: "u \<in> set (as_attempts a)" unfolding b .
  have "lineage_state ?b u" by (rule lineage_state_mono [OF ledger_stateD(5) [OF inv u]]) (auto simp: b)
  moreover have "attempt_state (releases ?b (at_attemptId u)) (evidence ?b (at_attemptId u)) u"
  proof (cases "at_attemptId u = at_attemptId t")
    case True
    then have "u = t" by (rule same_id [OF ledger_identities(1) [OF inv] u t(1)])
    then show ?thesis
      using state_of_attempt [OF inv t(1)] d none t(2)
      unfolding b by (simp add: attempt_state_def unlinked_def truthy_def)
  next
    case False
    then show ?thesis using state_of_attempt [OF inv u] d(1) unfolding b by simp
  qed
  ultimately show "attempt_state (releases ?b (at_attemptId u)) (evidence ?b (at_attemptId u)) u \<and>
      at_createdAt u \<le> c \<and> attempt_authority (as_obligations ?b) u \<and> lineage_state ?b u"
    using ledger_stateD(3,4) [OF inv u] by (simp add: b(4))
qed

lemma append_obligation:
  assumes inv: "ledger_state c a" and new: "fresh_obligation ob" "refineReviewCycleCoherence ob"
    and fresh: "ro_obligationId ob \<notin> ro_obligationId ` set (as_obligations a)"
  shows "ledger_state c (a\<lparr>as_obligations := as_obligations a @ [ob]\<rparr>)"
proof (rule ledger_stateI)
  let ?b = "a\<lparr>as_obligations := as_obligations a @ [ob]\<rparr>"
  show "identities ?b"
    using ledger_stateD(1) [OF inv] fresh by (auto simp: identities_def refineAssuranceIdentityUniqueness_def)
  show "ordinals_state (as_attempts ?b)" using ledger_stateD(2) [OF inv] by simp
  have "obligation_state (as_invocations a) ob"
    using new by (simp add: obligation_state_def fresh_obligation_def truthy_def)
  then show "obligation_state (as_invocations ?b) o1" if "o1 \<in> set (as_obligations ?b)" for o1
    using ledger_stateD(7) [OF inv] that by auto
  show "invocation_state (as_attempts ?b) i" if "i \<in> set (as_invocations ?b)" for i
    using ledger_stateD(6) [OF inv] that by simp
  show "refineAssuranceCapacityLockCoherence ?b"
  proof (cases "as_capacityLock a")
    case (Some lock)
    with ledger_stateD(8) [OF inv] obtain o1
      where "List.find (\<lambda>o1. ro_obligationId o1 = cl_obligationId lock) (as_obligations a) = Some o1"
        "ro_status o1 = Ob_blocked" "ro_blockedCode o1 = Some (cl_code lock)"
      by (auto simp: refineAssuranceCapacityLockCoherence_def opt_test_def split: option.splits)
    with Some show ?thesis by (simp add: refineAssuranceCapacityLockCoherence_def opt_test_def find_append)
  qed (simp add: refineAssuranceCapacityLockCoherence_def)
  fix u assume "u \<in> set (as_attempts ?b)"
  then have u: "u \<in> set (as_attempts a)" by simp
  have "lineage_state ?b u" by (rule lineage_state_mono [OF ledger_stateD(5) [OF inv u]]) auto
  moreover have "attempt_authority (as_obligations ?b) u"
    using ledger_stateD(4) [OF inv u] by (auto simp: attempt_authority_def)
  ultimately show "attempt_state (releases ?b (at_attemptId u)) (evidence ?b (at_attemptId u)) u \<and>
      at_createdAt u \<le> c \<and> attempt_authority (as_obligations ?b) u \<and> lineage_state ?b u"
    using state_of_attempt [OF inv u] ledger_stateD(3) [OF inv u] by simp
qed

section \<open>Updates of one part\<close>

lemma update_execution:
  assumes inv: "ledger_state c a" and c: "c \<le> c'"
    and f: "\<And>t. same_attempt (f t) t" and g: "\<And>d. same_release (g d) d"
    and st: "\<And>t. t \<in> set (as_attempts a) \<Longrightarrow>
      attempt_state (map g (releases a (at_attemptId t))) (evidence a (at_attemptId t)) (f t)"
    and ret: "\<And>t r. t \<in> set (as_attempts a) \<Longrightarrow> retired r (releases a (at_attemptId t)) t \<Longrightarrow>
      retired r (map g (releases a (at_attemptId t))) (f t)"
  shows "ledger_state c' (a\<lparr>as_attempts := map f (as_attempts a), as_dispatches := map g (as_dispatches a)\<rparr>)"
proof (rule ledger_update [OF inv c f g, where k = "\<lambda>ob. ob" and es = "as_invocations a" and l = "as_capacityLock a"])
  show "refineAssuranceCapacityLockCoherence
      (a\<lparr>as_attempts := map f (as_attempts a), as_dispatches := map g (as_dispatches a)\<rparr>)"
    using ledger_stateD(8) [OF inv] by (subst lock_same [of _ a]) simp_all
qed (use ledger_stateD [OF inv] ledger_identities [OF inv] st ret in \<open>simp_all add: same_obligation_def\<close>)

lemma update_obligations:
  assumes inv: "ledger_state c a" and c: "c \<le> c'"
    and k: "\<And>ob. ob \<in> set (as_obligations a) \<Longrightarrow> same_obligation (k ob) ob \<and> obligation_state (as_invocations a) (k ob)"
    and lock: "refineAssuranceCapacityLockCoherence (a\<lparr>as_obligations := map k (as_obligations a), as_capacityLock := l\<rparr>)"
  shows "ledger_state c' (a\<lparr>as_obligations := map k (as_obligations a), as_capacityLock := l\<rparr>)"
proof (rule ledger_update [OF inv c _ _ k, where f = "\<lambda>t. t" and g = "\<lambda>d. d" and l = l])
  show "refineAssuranceCapacityLockCoherence (a\<lparr>as_obligations := map k (as_obligations a), as_capacityLock := l\<rparr>)"
    by (rule lock)
qed (use ledger_stateD [OF inv] ledger_identities [OF inv] state_of_attempt [OF inv]
     in \<open>simp_all add: same_attempt_def same_release_def\<close>)

lemma same_with_status: "same_attempt (with_status st now child reason t) t"
  by (simp add: same_attempt_def with_status_def)

lemma same_stale_other: "same_attempt (stale_other b e now t) t"
  by (simp add: same_attempt_def stale_other_def)

text \<open>A host call names one release.\<close>

lemma releases_single:
  assumes "ledger_state c a" and "t \<in> set (as_attempts a)" and "d \<in> set (releases a (at_attemptId t))"
  shows "releases a (at_attemptId t) = [d]"
  using attempt_state_releases(1) [OF state_of_attempt [OF assms(1,2)]] assms(3)
  by (cases "releases a (at_attemptId t)") auto

definition close_release :: "string \<Rightarrow> review_dispatch \<Rightarrow> review_dispatch" where
  "close_release h d =
     (if rd_hostCallId d = h \<and> rd_status d = Di_authorized then d\<lparr>rd_status := Di_outcome_unknown\<rparr> else d)"

definition end_attempt ::
  "string \<Rightarrow> attempt_status \<Rightarrow> string \<Rightarrow> string option \<Rightarrow> rejection_reason option \<Rightarrow> review_attempt \<Rightarrow> review_attempt" where
  "end_attempt x st now child reason t =
     (if at_attemptId t \<noteq> x then t else with_status st now child reason t)"

lemma abandon_update:
  "updateAttemptStatus (abandonReviewDispatch (Some a) h) x st now child reason =
     a\<lparr>as_attempts := map (end_attempt x st now child reason) (as_attempts a),
       as_dispatches := map (close_release h) (as_dispatches a)\<rparr>"
  by (simp add: updateAttemptStatus_def abandonReviewDispatch_def ensureReviewAssurance_def Let_def
    close_release_def [abs_def] end_attempt_def [abs_def])

lemma close_attempt:
  assumes inv: "ledger_state c a" and c: "c \<le> now" "now \<noteq> []"
    and t: "t \<in> set (as_attempts a)" "at_status t = At_created \<or> at_status t = At_stale \<and> st = At_stale"
    and d: "d \<in> set (as_dispatches a)" "rd_attemptId d = at_attemptId t"
    and st: "st = At_stale \<or> st = At_rejected"
  shows "ledger_state now
    (updateAttemptStatus (abandonReviewDispatch (Some a) (rd_hostCallId d)) (at_attemptId t) st now child None)"
  unfolding abandon_update
proof (rule update_execution [OF inv c(1)])
  let ?h = "rd_hostCallId d" and ?x = "at_attemptId t"
  have one: "releases a ?x = [d]" using releases_single [OF inv t(1)] d by simp
  have stt: "attempt_state [d] (evidence a ?x) t" using state_of_attempt [OF inv t(1)] unfolding one .
  have other: "map (close_release ?h) (releases a (at_attemptId u)) = releases a (at_attemptId u)"
    if "at_attemptId u \<noteq> ?x" for u
  proof (rule map_idI)
    fix e assume e: "e \<in> set (releases a (at_attemptId u))"
    then have "rd_hostCallId e \<noteq> ?h"
      using same_id [OF ledger_identities(5) [OF inv] _ d(1), of e] d(2) that by auto
    then show "close_release ?h e = e" by (simp add: close_release_def)
  qed
  have "attempt_state (map (close_release ?h) [d]) (evidence a ?x) (with_status st now child None t)"
    using stt t(2) st c(2)
    by (auto simp: attempt_state_def unlinked_def lifecycle_ok_def with_status_def close_release_def truthy_def
      split: attempt_status.splits)
  moreover have "u = t" if "u \<in> set (as_attempts a)" "at_attemptId u = ?x" for u
    by (rule same_id [OF ledger_identities(1) [OF inv] that(1) t(1) that(2)])
  ultimately show "attempt_state (map (close_release ?h) (releases a (at_attemptId u))) (evidence a (at_attemptId u))
      (end_attempt ?x st now child None u)" if "u \<in> set (as_attempts a)" for u
    using that state_of_attempt [OF inv that] other [of u] one
    by (cases "at_attemptId u = ?x") (auto simp: end_attempt_def simp del: filter_filter)
  show "retired r (map (close_release ?h) (releases a (at_attemptId u))) (end_attempt ?x st now child None u)"
    if u: "u \<in> set (as_attempts a)" "retired r (releases a (at_attemptId u)) u" for u r
  proof (cases "at_attemptId u = ?x")
    case True
    then have "u = t" by (rule same_id [OF ledger_identities(1) [OF inv] u(1) t(1)])
    then show ?thesis
      using u(2) t(2) unfolding one by (auto simp: retired_def one end_attempt_def with_status_def close_release_def)
  next
    case False
    then show ?thesis using u(2) other [OF False] by (simp add: end_attempt_def)
  qed
qed (simp_all add: end_attempt_def same_with_status close_release_def same_release_def, simp add: same_attempt_def)

lemma attempt_state_child:
  assumes "attempt_state ds es t" and "at_childSessionId t = None \<or> child = at_childSessionId t"
  shows "attempt_state ds es (t\<lparr>at_childSessionId := child\<rparr>)"
proof (cases "at_childSessionId t")
  case None
  with assms(1) show ?thesis
    by (auto simp: attempt_state_def lifecycle_ok_def linked_def split: attempt_status.splits)
next
  case (Some x)
  with assms(2) have "t\<lparr>at_childSessionId := child\<rparr> = t" by (cases t) auto
  with assms(1) show ?thesis by simp
qed

lemma update_attempts:
  assumes "ledger_state c a" and "c \<le> c'" and "\<And>t. same_attempt (f t) t"
    and "\<And>t. t \<in> set (as_attempts a) \<Longrightarrow>
      attempt_state (releases a (at_attemptId t)) (evidence a (at_attemptId t)) (f t)"
    and "\<And>t r. t \<in> set (as_attempts a) \<Longrightarrow> retired r (releases a (at_attemptId t)) t \<Longrightarrow>
      retired r (releases a (at_attemptId t)) (f t)"
  shows "ledger_state c' (a\<lparr>as_attempts := map f (as_attempts a)\<rparr>)"
  using update_execution [OF assms(1-3), of "\<lambda>d. d"] assms(4,5) by (simp add: same_release_def)

lemma bind_child_state:
  assumes inv: "ledger_state c a"
  shows "ledger_state c (bindStaleChildSession a x child)"
proof (cases child)
  case (Some s)
  have "ledger_state c (a\<lparr>as_attempts := map (\<lambda>t. if at_attemptId t = x \<and> at_childSessionId t = None
          then t\<lparr>at_childSessionId := Some s\<rparr> else t) (as_attempts a)\<rparr>)"
    by (rule update_attempts [OF inv order_refl])
      (use attempt_state_child [OF state_of_attempt [OF inv]] state_of_attempt [OF inv]
       in \<open>auto simp: same_attempt_def retired_def\<close>)
  then show ?thesis by (simp add: bindStaleChildSession_def Some)
qed (simp add: bindStaleChildSession_def inv)

lemma bound_child_state:
  assumes inv: "ledger_state c a" and t: "\<And>t. t \<in> set (as_attempts a) \<Longrightarrow> at_attemptId t = x \<Longrightarrow>
      at_status t = At_created \<and> (at_childSessionId t = None \<or> at_childSessionId t = Some s)"
  shows "ledger_state c (updateAttemptStatus a x At_created now (Some s) None)"
  unfolding updateAttemptStatus_def
proof (rule update_attempts [OF inv order_refl])
  fix t assume tin: "t \<in> set (as_attempts a)"
  have "with_status At_created now (Some s) None t =
      t\<lparr>at_childSessionId := (if truthy (Some s) \<and> \<not> truthy (at_childSessionId t) then Some s
                             else at_childSessionId t)\<rparr>" if "at_attemptId t = x"
    using t [OF tin that] by (cases t) (simp add: with_status_def)
  then show "attempt_state (releases a (at_attemptId t)) (evidence a (at_attemptId t))
      (if at_attemptId t \<noteq> x then t else with_status At_created now (Some s) None t)"
    using attempt_state_child [OF state_of_attempt [OF inv tin]] state_of_attempt [OF inv tin] t [OF tin] by auto
  show "retired r (releases a (at_attemptId t)) (if at_attemptId t \<noteq> x then t
      else with_status At_created now (Some s) None t)" if "retired r (releases a (at_attemptId t)) t" for r
    using that t [OF tin] by (auto simp: retired_def)
qed (use same_with_status in \<open>auto simp: same_attempt_def\<close>)

lemma stale_others_state:
  assumes inv: "ledger_state c a" and c: "c \<le> now" "now \<noteq> []"
  shows "ledger_state now (staleObligationAttempts a b e now)"
  unfolding staleObligationAttempts_def
proof (rule update_attempts [OF inv c(1)])
  fix t assume tin: "t \<in> set (as_attempts a)"
  show "attempt_state (releases a (at_attemptId t)) (evidence a (at_attemptId t)) (stale_other b e now t)"
    using state_of_attempt [OF inv tin] c(2)
    by (auto simp: attempt_state_def unlinked_def lifecycle_ok_def stale_other_def truthy_def)
  show "retired r (releases a (at_attemptId t)) (stale_other b e now t)"
    if "retired r (releases a (at_attemptId t)) t" for r
    using that by (auto simp: retired_def stale_other_def)
qed (rule same_stale_other)

lemma mark_unknown_state:
  assumes inv: "ledger_state c a" and t: "t \<in> set (as_attempts a)" "at_status t = At_stale"
  shows "ledger_state c (markDispatchOutcomeUnknown (Some a) (at_attemptId t))"
proof -
  let ?x = "at_attemptId t"
  let ?g = "\<lambda>d. if rd_attemptId d = ?x \<and> rd_status d \<noteq> Di_outcome_unknown
                then d\<lparr>rd_status := Di_outcome_unknown\<rparr> else d"
  have same: "u = t" if "u \<in> set (as_attempts a)" "at_attemptId u = ?x" for u
    by (rule same_id [OF ledger_identities(1) [OF inv] that(1) t(1) that(2)])
  have other: "map ?g (releases a y) = releases a y" if "y \<noteq> ?x" for y
    using that by (intro map_idI) auto
  have mine: "attempt_state (map ?g (releases a ?x)) (evidence a ?x) t"
    using state_of_attempt [OF inv t(1)] t(2) by (auto simp: attempt_state_def unlinked_def)
  have "ledger_state c (a\<lparr>as_attempts := map (\<lambda>t. t) (as_attempts a), as_dispatches := map ?g (as_dispatches a)\<rparr>)"
  proof (rule update_execution [OF inv order_refl])
    fix u assume u: "u \<in> set (as_attempts a)"
    show "attempt_state (map ?g (releases a (at_attemptId u))) (evidence a (at_attemptId u)) u"
    proof (cases "at_attemptId u = ?x")
      case True
      then show ?thesis using mine same [OF u True] by simp
    next
      case False
      show ?thesis unfolding other [OF False] by (rule state_of_attempt [OF inv u])
    qed
    show "retired r (map ?g (releases a (at_attemptId u))) u" if "retired r (releases a (at_attemptId u)) u" for r
    proof (cases "at_attemptId u = ?x")
      case True
      then show ?thesis using that same [OF u True] t(2) by (auto simp: retired_def)
    next
      case False
      show ?thesis unfolding other [OF False] by (rule that)
    qed
  qed (simp_all add: same_attempt_def same_release_def)
  then show ?thesis by (simp add: markDispatchOutcomeUnknown_def ensureReviewAssurance_def Let_def)
qed

section \<open>Minting an attempt\<close>

definition minted_attempt ::
  "string \<Rightarrow> review_assurance \<Rightarrow> review_obligation \<Rightarrow> string \<Rightarrow> attempt_origin \<Rightarrow> review_attempt" where
  "minted_attempt uuid a ob now origin =
     createReviewAttempt uuid (ro_obligationId ob) (ro_obligationType ob) (ro_subjectDigest ob)
       (length (attempts_of (as_attempts a) (ro_obligationId ob)) + 1) None origin now"

lemma stale_append:
  "staleObligationAttempts (appendReviewAttempt a t) b (at_attemptId t) now =
     appendReviewAttempt (staleObligationAttempts a b (at_attemptId t) now) t"
  by (simp add: staleObligationAttempts_def appendReviewAttempt_def stale_other_def)

lemma mint_eq:
  "createAttemptForExistingObligation uuid a ob None now origin =
     (appendReviewAttempt (staleObligationAttempts a (ro_obligationId ob) uuid now) (minted_attempt uuid a ob now origin),
      minted_attempt uuid a ob now origin)"
  using stale_append [of a "minted_attempt uuid a ob now origin" "ro_obligationId ob" now]
  by (simp add: createAttemptForExistingObligation_def Let_def minted_attempt_def createReviewAttempt_def)

lemma mark_append:
  "markDispatchOutcomeUnknown (Some (appendReviewAttempt a t)) x =
     appendReviewAttempt (markDispatchOutcomeUnknown (Some a) x) t"
  by (simp add: markDispatchOutcomeUnknown_def appendReviewAttempt_def ensureReviewAssurance_def Let_def)

lemma authority_obligation:
  assumes inv: "ledger_state c a" and t: "t \<in> set (as_attempts a)" and ob: "ob \<in> set (as_obligations a)"
    and id: "ro_obligationId ob = at_obligationId t"
  shows "ro_obligationType ob = at_obligationType t \<and> ro_subjectDigest ob = at_subjectDigest t"
proof -
  obtain o1 where o1: "o1 \<in> set (as_obligations a)" "ro_obligationId o1 = at_obligationId t"
      "ro_obligationType o1 = at_obligationType t" "ro_subjectDigest o1 = at_subjectDigest t"
    using ledger_stateD(4) [OF inv t] by (auto simp: attempt_authority_def)
  moreover have "ob = o1"
    by (rule same_id [OF ledger_identities(3) [OF inv] ob o1(1)]) (simp add: id o1(2))
  ultimately show ?thesis by simp
qed

lemma ordinal_bound:
  assumes "ordinals_state ts" and "t \<in> set ts"
  shows "at_ordinal t \<le> length (attempts_of ts (at_obligationId t))"
proof -
  have "at_ordinal t \<in> set (map at_ordinal (attempts_of ts (at_obligationId t)))" using assms(2) by auto
  then show ?thesis using assms(1) unfolding ordinals_state_def by (auto simp del: upt_Suc)
qed

lemma append_rearmed:
  assumes inv: "ledger_state now a" and ob: "ob \<in> set (as_obligations a)"
    and uuid: "uuid \<notin> at_attemptId ` set (as_attempts a)" "uuid \<noteq> []"
    and u: "u \<in> set (as_attempts a)" "at_obligationId u = ro_obligationId ob"
      "retired g (releases a (at_attemptId u)) u"
    and len: "length (attempts_of (as_attempts b) (ro_obligationId ob)) =
      length (attempts_of (as_attempts a) (ro_obligationId ob))"
  shows "ledger_state now (appendReviewAttempt a (minted_attempt uuid b ob now (Dispatch_rearm (at_attemptId u) g)))"
proof (rule append_attempt [OF inv])
  let ?t = "minted_attempt uuid b ob now (Dispatch_rearm (at_attemptId u) g)"
  have t: "at_attemptId ?t = uuid" "at_obligationId ?t = ro_obligationId ob" "at_createdAt ?t = now"
      "at_obligationType ?t = ro_obligationType ob" "at_subjectDigest ?t = ro_subjectDigest ob"
      "at_origin ?t = Dispatch_rearm (at_attemptId u) g" "at_status ?t = At_created" "at_completedAt ?t = None"
      "at_rejectionReason ?t = None"
      "at_ordinal ?t = length (attempts_of (as_attempts a) (ro_obligationId ob)) + 1"
    by (simp_all add: minted_attempt_def createReviewAttempt_def len)
  show "now \<le> at_createdAt ?t" "at_createdAt ?t \<le> now" by (simp_all add: t)
  show "at_attemptId ?t \<notin> at_attemptId ` set (as_attempts a)" "at_attemptId ?t \<noteq> []" using uuid by (simp_all add: t)
  show "attempt_authority (as_obligations a) ?t" using ob by (auto simp: attempt_authority_def t)
  show "at_ordinal ?t = length (attempts_of (as_attempts a) (at_obligationId ?t)) + 1" by (simp add: t)
  have le: "at_ordinal u \<le> length (attempts_of (as_attempts a) (ro_obligationId ob))"
    using ordinal_bound [OF ledger_stateD(2) [OF inv] u(1)] u(2) by simp
  moreover have "1 \<le> at_ordinal u" by (rule ordinal_positive [OF ledger_stateD(2) [OF inv] u(1)])
  moreover have "predecessor_coherent ?t u"
    using authority_obligation [OF inv u(1) ob] u(2) ledger_stateD(3) [OF inv u(1)] le
    by (auto simp: predecessor_coherent_def t not_less)
  moreover have "at_attemptId u \<noteq> []" using ledger_stateD(1) [OF inv] u(1) by (simp add: identities_def)
  ultimately show "lineage_state (appendReviewAttempt a ?t) ?t"
    using u by (auto simp: lineage_state_def t appendReviewAttempt_def)
qed (simp_all add: minted_attempt_def createReviewAttempt_def)

lemma stale_length: "length (attempts_of (as_attempts (staleObligationAttempts a b e now)) x) = length (attempts_of (as_attempts a) x)"
  by (simp add: staleObligationAttempts_def attempts_of_map [OF same_stale_other])

lemma stale_ids: "at_attemptId ` set (as_attempts (staleObligationAttempts a b e now)) = at_attemptId ` set (as_attempts a)"
  using same_stale_other by (auto simp: staleObligationAttempts_def image_image same_attempt_def)

section \<open>Re-arming keeps the invariant\<close>

lemma find_attemptD: "find_attempt a x = Some t \<Longrightarrow> t \<in> set (as_attempts a) \<and> at_attemptId t = x"
  unfolding find_attempt_def by (drule find_Some_in) simp

lemma find_obligationD: "find_obligation a b = Some ob \<Longrightarrow> ob \<in> set (as_obligations a) \<and> ro_obligationId ob = b"
  unfolding find_obligation_def by (drule find_Some_in) simp

lemma rearm_trigger_facts:
  assumes "dispatchRearmTrigger a spent = Some g"
  shows "at_status spent = At_created \<or> at_status spent = At_stale"
    and "\<exists>d \<in> set (as_dispatches a). rd_attemptId d = at_attemptId spent"
  using assms by (auto simp: dispatchRearmTrigger_def Let_def list_ex_iff split: if_splits)

lemma rearm_facts:
  assumes "buildInterruptedDispatchRearm uuid a spent now = Inr (a', t)"
  shows "\<exists>ob g. find_obligation a (at_obligationId spent) = Some ob \<and> ro_status ob = Ob_pending \<and>
     countReviewAttempts a (ro_obligationId ob) < ro_maxReviewerAttempts ob \<and>
     dispatchRearmTrigger a spent = Some g \<and>
     t = minted_attempt uuid a ob now (Dispatch_rearm (at_attemptId spent) g) \<and>
     a' = appendReviewAttempt (markDispatchOutcomeUnknown
            (Some (staleObligationAttempts a (ro_obligationId ob) uuid now)) (at_attemptId spent)) t"
proof (cases "authorizeDispatchRearm a spent")
  case (Inr x)
  then obtain ob g where "find_obligation a (at_obligationId spent) = Some ob" "dispatchRearmTrigger a spent = Some g"
      "x = (ob, Dispatch_rearm (at_attemptId spent) g)"
      "\<not> (ro_status ob = Ob_fulfilled \<or> ro_status ob = Ob_consumed \<or> ro_status ob = Ob_blocked)"
      "\<not> ro_maxReviewerAttempts ob \<le> countReviewAttempts a (ro_obligationId ob)"
    by (auto simp: authorizeDispatchRearm_def split: option.splits if_splits)
  moreover from this have "ro_status ob = Ob_pending" by (cases "ro_status ob") auto
  ultimately show ?thesis
    using assms Inr by (auto simp: buildInterruptedDispatchRearm_def mint_eq mark_append)
qed (use assms in \<open>simp add: buildInterruptedDispatchRearm_def\<close>)

theorem rearm_state:
  assumes inv: "ledger_state c a" and c: "c \<le> now" "now \<noteq> []"
    and spent: "spent \<in> set (as_attempts a)"
    and uuid: "uuid \<notin> at_attemptId ` set (as_attempts a)" "uuid \<noteq> []"
    and rearm: "buildInterruptedDispatchRearm uuid a spent now = Inr (a', t)"
  shows "ledger_state now a'"
proof -
  obtain ob g where ob: "find_obligation a (at_obligationId spent) = Some ob"
    and g: "dispatchRearmTrigger a spent = Some g"
    and t: "t = minted_attempt uuid a ob now (Dispatch_rearm (at_attemptId spent) g)"
    and a': "a' = appendReviewAttempt (markDispatchOutcomeUnknown
            (Some (staleObligationAttempts a (ro_obligationId ob) uuid now)) (at_attemptId spent)) t"
    using rearm_facts [OF rearm] by blast
  let ?b = "staleObligationAttempts a (ro_obligationId ob) uuid now"
  let ?s = "stale_other (ro_obligationId ob) uuid now spent"
  let ?m = "markDispatchOutcomeUnknown (Some ?b) (at_attemptId spent)"
  note obD = find_obligationD [OF ob]
  have id: "at_attemptId ?s = at_attemptId spent" "at_obligationId ?s = ro_obligationId ob"
    using same_stale_other [of "ro_obligationId ob" uuid now spent] obD by (simp_all add: same_attempt_def)
  have "at_attemptId spent \<noteq> uuid" using uuid(1) spent by auto
  then have st: "at_status ?s = At_stale"
    using rearm_trigger_facts(1) [OF g] obD by (auto simp: stale_other_def)
  have s: "?s \<in> set (as_attempts ?b)" using spent by (simp add: staleObligationAttempts_def)
  have m: "ledger_state now ?m"
    using mark_unknown_state [OF stale_others_state [OF inv c] s st] by (simp add: id)
  have same: "as_attempts ?m = as_attempts ?b" "as_obligations ?m = as_obligations a"
    by (simp_all add: markDispatchOutcomeUnknown_def ensureReviewAssurance_def Let_def staleObligationAttempts_def)
  obtain d where d: "d \<in> set (as_dispatches a)" "rd_attemptId d = at_attemptId spent"
    using rearm_trigger_facts(2) [OF g] by blast
  let ?g = "\<lambda>d. if rd_attemptId d = at_attemptId spent \<and> rd_status d \<noteq> Di_outcome_unknown
                then d\<lparr>rd_status := Di_outcome_unknown\<rparr> else d"
  have "as_dispatches ?m = map ?g (as_dispatches a)"
    by (simp add: markDispatchOutcomeUnknown_def ensureReviewAssurance_def Let_def staleObligationAttempts_def)
  then have "?g d \<in> set (releases ?m (at_attemptId spent))" using d by auto
  moreover have "rd_status (?g d) = Di_outcome_unknown" using d(2) by auto
  ultimately have "\<exists>e \<in> set (releases ?m (at_attemptId spent)). rd_status e = Di_outcome_unknown" by blast
  then have "retired g (releases ?m (at_attemptId spent)) ?s" using st unfolding retired_def by blast
  then have ret: "retired g (releases ?m (at_attemptId ?s)) ?s" unfolding id(1) .
  have "ledger_state now (appendReviewAttempt ?m (minted_attempt uuid a ob now (Dispatch_rearm (at_attemptId ?s) g)))"
  proof (rule append_rearmed [OF m _ _ uuid(2) _ id(2) ret])
    show "ob \<in> set (as_obligations ?m)" unfolding same by (rule conjunct1 [OF obD])
    show "uuid \<notin> at_attemptId ` set (as_attempts ?m)" unfolding same stale_ids by (rule uuid(1))
    show "?s \<in> set (as_attempts ?m)" unfolding same by (rule s)
    show "length (attempts_of (as_attempts a) (ro_obligationId ob)) =
        length (attempts_of (as_attempts ?m) (ro_obligationId ob))" unfolding same stale_length ..
  qed
  then show ?thesis unfolding a' t id(1) .
qed

section \<open>Blocking keeps the invariant\<close>

definition lock_allows :: "review_assurance \<Rightarrow> string \<Rightarrow> string \<Rightarrow> bool" where
  "lock_allows a b code =
     (case as_capacityLock a of None \<Rightarrow> True | Some l \<Rightarrow> cl_obligationId l = b \<longrightarrow> cl_code l = code)"

lemma find_map_same:
  "(\<And>x. x \<in> set xs \<Longrightarrow> key (f x) = key x) \<Longrightarrow>
     List.find (\<lambda>x. key x = k) (map f xs) = map_option f (List.find (\<lambda>x. key x = k) xs)"
  by (induction xs) auto

lemma block_coherent:
  assumes "refineAssuranceCapacityLockCoherence a" and "lock_allows a b code"
  shows "refineAssuranceCapacityLockCoherence (blockObligation a b code)"
proof (cases "as_capacityLock a")
  case (Some l)
  let ?k = "\<lambda>ob. if ro_obligationId ob \<noteq> b then ob else ob\<lparr>ro_status := Ob_blocked, ro_blockedCode := Some code\<rparr>"
  obtain o1 where o1: "List.find (\<lambda>o1. ro_obligationId o1 = cl_obligationId l) (as_obligations a) = Some o1"
      "ro_status o1 = Ob_blocked" "ro_blockedCode o1 = Some (cl_code l)"
    using assms(1) Some by (auto simp: refineAssuranceCapacityLockCoherence_def opt_test_def split: option.splits)
  have "ro_obligationId o1 = cl_obligationId l" using find_Some_in [OF o1(1)] by simp
  moreover have "List.find (\<lambda>o1. ro_obligationId o1 = cl_obligationId l) (map ?k (as_obligations a)) = Some (?k o1)"
    using o1(1) by (subst find_map_same) simp_all
  ultimately show ?thesis
    using Some assms(2) o1 by (auto simp: refineAssuranceCapacityLockCoherence_def blockObligation_def
      updateObligation_def lock_allows_def)
qed (simp add: refineAssuranceCapacityLockCoherence_def blockObligation_def updateObligation_def)

lemma block_state:
  assumes inv: "ledger_state c a" and lock: "lock_allows a b code"
  shows "ledger_state c (blockObligation a b code)"
proof -
  let ?k = "\<lambda>ob. if ro_obligationId ob \<noteq> b then ob else ob\<lparr>ro_status := Ob_blocked, ro_blockedCode := Some code\<rparr>"
  have eq: "blockObligation a b code =
      a\<lparr>as_obligations := map ?k (as_obligations a), as_capacityLock := as_capacityLock a\<rparr>"
    by (simp add: blockObligation_def updateObligation_def)
  show ?thesis unfolding eq
  proof (rule update_obligations [OF inv order_refl])
    fix ob assume "ob \<in> set (as_obligations a)"
    from ledger_stateD(7) [OF inv this]
    show "same_obligation (?k ob) ob \<and> obligation_state (as_invocations a) (?k ob)"
      by (auto simp: same_obligation_def obligation_state_def refineReviewCycleCoherence_def)
  next
    from block_coherent [OF ledger_stateD(8) [OF inv] lock] show "refineAssuranceCapacityLockCoherence
        (a\<lparr>as_obligations := map ?k (as_obligations a), as_capacityLock := as_capacityLock a\<rparr>)"
      unfolding eq .
  qed
qed

text \<open>An abandoned release closes its attempt; the two outcomes of \<open>abandonAndRearmByHostCall\<close> follow.\<close>

lemma authorized_releaseD:
  assumes "authorized_release a h = Some t"
  shows "t \<in> set (as_attempts a) \<and> at_status t = At_created \<and>
     (\<exists>d \<in> set (as_dispatches a). rd_attemptId d = at_attemptId t \<and> rd_hostCallId d = h)"
proof -
  obtain d where d: "filter (\<lambda>d. rd_hostCallId d = h \<and> rd_status d = Di_authorized) (as_dispatches a) = [d]"
      "find_attempt a (rd_attemptId d) = Some t" "at_status t = At_created"
    using assms by (auto simp: authorized_release_def split: list.splits option.splits if_splits)
  have "d \<in> set (filter (\<lambda>d. rd_hostCallId d = h \<and> rd_status d = Di_authorized) (as_dispatches a))"
    unfolding d(1) by simp
  then show ?thesis using d(3) find_attemptD [OF d(2)] by auto
qed

lemma abandon_state:
  assumes inv: "ledger_state c a" and c: "c \<le> now" "now \<noteq> []" and rel: "authorized_release a h = Some t"
  shows "ledger_state now (updateAttemptStatus (abandonReviewDispatch (Some a) h) (at_attemptId t) At_stale now None None)"
proof -
  obtain d where "d \<in> set (as_dispatches a)" "rd_attemptId d = at_attemptId t" "rd_hostCallId d = h"
    using authorized_releaseD [OF rel] by blast
  then show ?thesis
    using close_attempt [OF inv c, of t At_stale d None] authorized_releaseD [OF rel] by auto
qed

lemma settled_lock_allows:
  assumes inv: "ledger_state c a" and ob: "ob \<in> set (as_obligations a)" "ro_status ob \<noteq> Ob_blocked"
  shows "lock_allows a (ro_obligationId ob) code"
proof (cases "as_capacityLock a")
  case (Some l)
  then obtain o1 where o1: "List.find (\<lambda>o1. ro_obligationId o1 = cl_obligationId l) (as_obligations a) = Some o1"
      "ro_status o1 = Ob_blocked"
    using ledger_stateD(8) [OF inv] by (auto simp: refineAssuranceCapacityLockCoherence_def opt_test_def
      split: option.splits)
  have "cl_obligationId l \<noteq> ro_obligationId ob"
  proof
    assume eq: "cl_obligationId l = ro_obligationId ob"
    have "o1 = ob"
      using same_id [OF ledger_identities(3) [OF inv] _ ob(1), of o1] find_Some_in [OF o1(1)] eq by simp
    then show False using o1(2) ob(2) by simp
  qed
  with Some show ?thesis by (simp add: lock_allows_def)
qed (simp add: lock_allows_def)

lemma ids_map:
  "as_attempts b = map f (as_attempts a) \<Longrightarrow> (\<And>t. at_attemptId (f t) = at_attemptId t) \<Longrightarrow>
     at_attemptId ` set (as_attempts b) = at_attemptId ` set (as_attempts a)"
  by (simp add: image_image)

lemma bind_stale_ids:
  "at_attemptId ` set (as_attempts (bindStaleChildSession a x child)) = at_attemptId ` set (as_attempts a)"
  "as_obligations (bindStaleChildSession a x child) = as_obligations a"
  "as_capacityLock (bindStaleChildSession a x child) = as_capacityLock a"
proof -
  show "at_attemptId ` set (as_attempts (bindStaleChildSession a x child)) = at_attemptId ` set (as_attempts a)"
  proof (cases child)
    case (Some s)
    show ?thesis
      by (rule ids_map [of _ "\<lambda>t. if at_attemptId t = x \<and> at_childSessionId t = None
            then t\<lparr>at_childSessionId := Some s\<rparr> else t"]) (simp_all add: bindStaleChildSession_def Some)
  qed (simp add: bindStaleChildSession_def)
qed (simp_all add: bindStaleChildSession_def split: option.splits)

lemma abandon_ids:
  "at_attemptId ` set (as_attempts (updateAttemptStatus (abandonReviewDispatch (Some a) h) x st now child reason)) =
     at_attemptId ` set (as_attempts a)"
  "as_obligations (updateAttemptStatus (abandonReviewDispatch (Some a) h) x st now child reason) = as_obligations a"
  "as_capacityLock (updateAttemptStatus (abandonReviewDispatch (Some a) h) x st now child reason) = as_capacityLock a"
proof -
  show "at_attemptId ` set (as_attempts (updateAttemptStatus (abandonReviewDispatch (Some a) h) x st now child reason)) =
      at_attemptId ` set (as_attempts a)"
    by (rule ids_map [of _ "end_attempt x st now child reason"])
      (simp_all add: abandon_update end_attempt_def with_status_def)
qed (simp_all add: abandon_update)

theorem abandon_and_rearm_state:
  assumes inv: "ledger_state c a" and c: "c \<le> now" "now \<noteq> []"
    and uuid: "uuid \<notin> at_attemptId ` set (as_attempts a)" "uuid \<noteq> []"
  shows "ledger_state now (snd (abandonAndRearmByHostCall uuid a h now child))"
proof (cases "authorized_release a h")
  case None
  have "ledger_state now a"
    using update_attempts [OF inv c(1), of "\<lambda>t. t"] state_of_attempt [OF inv] by (simp add: same_attempt_def)
  then show ?thesis by (simp add: abandonAndRearmByHostCall_def None)
next
  case (Some t)
  let ?s = "bindStaleChildSession (updateAttemptStatus (abandonReviewDispatch (Some a) h) (at_attemptId t) At_stale now
      None None) (at_attemptId t) child"
  have s: "ledger_state now ?s" by (rule bind_child_state [OF abandon_state [OF inv c Some]])
  have now: "ledger_state now a"
    using update_attempts [OF inv c(1), of "\<lambda>t. t"] state_of_attempt [OF inv] by (simp add: same_attempt_def)
  show ?thesis
  proof (cases "find_attempt ?s (at_attemptId t)")
    case None
    then show ?thesis using now Some by (simp add: abandonAndRearmByHostCall_def Let_def)
  next
    case spent: (Some u)
    note u = find_attemptD [OF spent]
    show ?thesis
    proof (cases "buildInterruptedDispatchRearm uuid ?s u now")
      case (Inr x)
      obtain b fresh where x: "x = (b, fresh)" by (cases x)
      have "ledger_state now b"
        using rearm_state [OF s order_refl c(2) conjunct1 [OF u] _ uuid(2)] Inr uuid(1) x
        by (simp add: bind_stale_ids abandon_ids)
      then show ?thesis using Some spent Inr x by (simp add: abandonAndRearmByHostCall_def Let_def)
    next
      case (Inl cause)
      have "ledger_state now (blockObligation ?s (at_obligationId t) code)" if budget: "cause = Budget_exhausted" for code
      proof -
        have oid: "at_obligationId u = at_obligationId t"
        proof -
          obtain w where w: "w \<in> set (as_attempts a)" "at_attemptId w = at_attemptId u" "at_obligationId w = at_obligationId u"
            using u by (auto simp: bindStaleChildSession_def abandon_update end_attempt_def with_status_def
              split: option.splits if_splits)
          have "w = t" using same_id [OF ledger_identities(1) [OF inv] w(1)] authorized_releaseD [OF Some] w(2) u by simp
          then show ?thesis using w(3) by simp
        qed
        obtain ob where ob: "find_obligation ?s (at_obligationId u) = Some ob" "ro_status ob \<noteq> Ob_blocked"
          using Inl budget by (auto simp: buildInterruptedDispatchRearm_def authorizeDispatchRearm_def
            split: option.splits if_splits sum.splits prod.splits)
        have "ledger_state now (blockObligation ?s (ro_obligationId ob) code)"
          by (rule block_state [OF s settled_lock_allows [OF s conjunct1 [OF find_obligationD [OF ob(1)]] ob(2)]])
        then show ?thesis unfolding conjunct2 [OF find_obligationD [OF ob(1)]] oid .
      qed
      then show ?thesis using s Some spent Inl by (simp add: abandonAndRearmByHostCall_def Let_def)
    qed
  qed
qed

end
