(* ===== verification/Review_Steps.thy ===== *)
theory Review_Steps
  imports Review_Invariant
begin

text \<open>Every modelled writer of the review ledger keeps the invariant of \<open>Review_Invariant\<close>; the step
  relation composes them and its reachable states are the ledgers a session can have.\<close>

section \<open>Closing an execution\<close>

lemma ledger_later: "ledger_state c a \<Longrightarrow> c \<le> c' \<Longrightarrow> ledger_state c' a"
  using update_attempts [of c a c' "\<lambda>t. t"] state_of_attempt [of c a] by (simp add: same_attempt_def)

lemma relock_state:
  assumes inv: "ledger_state c a" and "refineAssuranceCapacityLockCoherence (a\<lparr>as_capacityLock := l\<rparr>)"
  shows "ledger_state c (a\<lparr>as_capacityLock := l\<rparr>)"
  using update_obligations [OF inv order_refl, of "\<lambda>ob. ob" l] assms(2) ledger_stateD(7) [OF inv]
  by (simp add: same_obligation_def)

lemma unlocked: "refineAssuranceCapacityLockCoherence (a\<lparr>as_capacityLock := None\<rparr>)"
  by (simp add: refineAssuranceCapacityLockCoherence_def)

lemma find_obligation_update:
  assumes "find_obligation a b = Some ob" and "\<And>o1. ro_obligationId (f o1) = ro_obligationId o1"
  shows "find_obligation (updateObligation a b f) b = Some (f ob)"
proof -
  have "ro_obligationId ob = b" using find_obligationD [OF assms(1)] by simp
  then show ?thesis
    using assms unfolding find_obligation_def updateObligation_def
    by (simp add: find_map_same [of _ ro_obligationId])
qed

lemma lock_of_find:
  "refineAssuranceCapacityLockCoherence a = (case as_capacityLock a of None \<Rightarrow> True
     | Some l \<Rightarrow> opt_test (\<lambda>ob. ro_status ob = Ob_blocked \<and> ro_blockedCode ob = Some (cl_code l))
         (find_obligation a (cl_obligationId l)))"
  unfolding refineAssuranceCapacityLockCoherence_def find_obligation_def ..

theorem abandon_and_block_state:
  assumes inv: "ledger_state c a" and c: "c \<le> now" "now \<noteq> []"
  shows "ledger_state now (snd (abandonAndBlockByHostCall a h code ci now))"
proof (cases "snd (abandonAndBlockByHostCall a h code ci now) = a")
  case True
  then show ?thesis using ledger_later [OF inv c(1)] by simp
next
  case False
  obtain d t ob where d: "resolveExecutionDispatch a h ci = Some d"
    and t: "find_attempt a (rd_attemptId d) = Some t" and ob: "find_obligation a (rd_obligationId d) = Some ob"
    and can: "canCloseExecution t ob (ci_childSessionId ci)"
    and eq: "snd (abandonAndBlockByHostCall a h code ci now) = blockedExecutionState a d (ci_childSessionId ci)
        (case ro_blockedCode ob of None \<Rightarrow> code | Some x \<Rightarrow> x) now"
    using False by (auto simp: abandonAndBlockByHostCall_def Let_def split: option.splits if_splits)
  define code' where "code' = (case ro_blockedCode ob of None \<Rightarrow> code | Some x \<Rightarrow> x)"
  let ?child = "ci_childSessionId ci" and ?b = "rd_obligationId d"
  let ?s = "bindStaleChildSession (updateAttemptStatus (abandonReviewDispatch (Some a) (rd_hostCallId d))
      (rd_attemptId d) At_stale now None None) (rd_attemptId d) ?child"
  have din: "d \<in> set (as_dispatches a)"
  proof -
    obtain P where "filter P (as_dispatches a) = [d]"
      using d by (auto simp: resolveExecutionDispatch_def split: list.splits)
    then have "d \<in> set (filter P (as_dispatches a))" by simp
    then show ?thesis by simp
  qed
  note tD = find_attemptD [OF t]
  have "ledger_state now (updateAttemptStatus (abandonReviewDispatch (Some a) (rd_hostCallId d)) (rd_attemptId d)
      At_stale now None None)"
    using close_attempt [OF inv c conjunct1 [OF tD] _ din, of At_stale None] can tD
    by (auto simp: canCloseExecution_def)
  then have s: "ledger_state now ?s" by (rule bind_child_state)
  have same: "as_capacityLock ?s = as_capacityLock a" "find_obligation ?s ?b = Some ob"
    using ob by (simp_all add: bind_stale_ids abandon_ids find_obligation_def)
  have "lock_allows ?s ?b code'"
    using ledger_stateD(8) [OF inv] ob unfolding lock_of_find lock_allows_def same
    by (auto simp: code'_def split: option.splits)
  then have blocked: "ledger_state now (blockObligation ?s ?b code')" by (rule block_state [OF s])
  have lock: "as_capacityLock (blockObligation ?s ?b code') = as_capacityLock a"
    by (simp add: blockObligation_def updateObligation_def same)
  have "refineAssuranceCapacityLockCoherence ((blockObligation ?s ?b code')\<lparr>as_capacityLock :=
      (case as_capacityLock a of Some l \<Rightarrow> Some l
       | None \<Rightarrow> Some \<lparr>cl_code = code', cl_obligationId = ?b, cl_createdAt = now\<rparr>)\<rparr>)"
  proof (cases "as_capacityLock a")
    case None
    have "find_obligation (blockObligation ?s ?b code') ?b = Some (ob\<lparr>ro_status := Ob_blocked, ro_blockedCode := Some code'\<rparr>)"
      unfolding blockObligation_def by (rule find_obligation_update [OF same(2)]) simp
    then show ?thesis using None by (simp add: lock_of_find find_obligation_def)
  next
    case (Some l)
    have "(blockObligation ?s ?b code')\<lparr>as_capacityLock := Some l\<rparr> = blockObligation ?s ?b code'"
      using lock Some by simp
    then show ?thesis using Some ledger_stateD(8) [OF blocked] by simp
  qed
  from relock_state [OF blocked this] show ?thesis
    unfolding eq blockedExecutionState_def Let_def code'_def by simp
qed

section \<open>Obligations and evidence\<close>

lemma update_unblocked:
  assumes inv: "ledger_state c a" and ob: "find_obligation a b = Some ob" "ro_status ob \<noteq> Ob_blocked"
    and f: "same_obligation (f ob) ob" "obligation_state (as_invocations a) (f ob)"
  shows "ledger_state c (updateObligation a b f)"
proof -
  let ?k = "\<lambda>o1. if ro_obligationId o1 \<noteq> b then o1 else f o1"
  note obD = find_obligationD [OF ob(1)]
  have eq: "updateObligation a b f = a\<lparr>as_obligations := map ?k (as_obligations a), as_capacityLock := as_capacityLock a\<rparr>"
    by (simp add: updateObligation_def)
  have only: "o1 = ob" if "o1 \<in> set (as_obligations a)" "ro_obligationId o1 = b" for o1
    using same_id [OF ledger_identities(3) [OF inv] that(1)] obD that(2) by simp
  have kid: "ro_obligationId (?k o1) = ro_obligationId o1" if "o1 \<in> set (as_obligations a)" for o1
    using only [OF that] f(1) by (auto simp: same_obligation_def)
  show ?thesis unfolding eq
  proof (rule update_obligations [OF inv order_refl])
    fix o1 assume o1: "o1 \<in> set (as_obligations a)"
    then show "same_obligation (?k o1) o1 \<and> obligation_state (as_invocations a) (?k o1)"
      using only [OF o1] f ledger_stateD(7) [OF inv o1] by (auto simp: same_obligation_def)
  next
    show "refineAssuranceCapacityLockCoherence
        (a\<lparr>as_obligations := map ?k (as_obligations a), as_capacityLock := as_capacityLock a\<rparr>)"
    proof (cases "as_capacityLock a")
      case (Some l)
      with ledger_stateD(8) [OF inv] obtain o1
        where o1: "find_obligation a (cl_obligationId l) = Some o1" "ro_status o1 = Ob_blocked"
          "ro_blockedCode o1 = Some (cl_code l)"
        by (auto simp: lock_of_find opt_test_def split: option.splits)
      have "ro_obligationId o1 \<noteq> b"
        using only [of o1] find_obligationD [OF o1(1)] o1(2) ob(2) by auto
      moreover have "List.find (\<lambda>o1. ro_obligationId o1 = cl_obligationId l) (map ?k (as_obligations a)) =
          map_option ?k (List.find (\<lambda>o1. ro_obligationId o1 = cl_obligationId l) (as_obligations a))"
        by (rule find_map_same) (rule kid)
      ultimately show ?thesis
        using o1 Some by (simp add: lock_of_find find_obligation_def)
    qed (simp add: lock_of_find)
  qed
qed

definition complete_release :: "string \<Rightarrow> string \<Rightarrow> review_dispatch \<Rightarrow> review_dispatch" where
  "complete_release h now d =
     (if rd_hostCallId d = h \<and> rd_status d = Di_authorized
      then d\<lparr>rd_status := Di_completed, rd_completedAt := Some now\<rparr> else d)"

lemma evidence_update:
  "completeReviewDispatch (Some (appendInvocationEvidence (updateAttemptStatus a x At_bound fin child None) i)) h fin =
     a\<lparr>as_invocations := as_invocations a @ [i], as_attempts := map (end_attempt x At_bound fin child None) (as_attempts a),
       as_dispatches := map (complete_release h fin) (as_dispatches a)\<rparr>"
  by (simp add: completeReviewDispatch_def appendInvocationEvidence_def updateAttemptStatus_def
    ensureReviewAssurance_def Let_def complete_release_def [abs_def] end_attempt_def [abs_def])

lemma evidence_state:
  assumes inv: "ledger_state c a" and t: "t \<in> set (as_attempts a)" "at_status t = At_created"
    and d: "d \<in> set (as_dispatches a)" "rd_attemptId d = at_attemptId t" "rd_status d = Di_authorized"
    and fin: "fin \<noteq> []"
    and i: "iv_attemptId i = at_attemptId t" "iv_obligationId i = at_obligationId t"
      "iv_obligationType i = at_obligationType t" "at_childSessionId t = Some (iv_childSessionId i)"
      "refineInvocationTransport i" "iv_consumedByObligationId i = None"
      "iv_invocationId i \<noteq> []" "iv_invocationId i \<notin> iv_invocationId ` set (as_invocations a)"
    and link: "iv_transportVersion i = 6" "map_option np_nativeCallId (iv_nativeProvenance i) = Some (rd_hostCallId d)"
      "rd_canonicalPromptDigest d = iv_promptHash i"
  shows "ledger_state c (completeReviewDispatch (Some (appendInvocationEvidence
     (updateAttemptStatus a (at_attemptId t) At_bound fin (Some (iv_childSessionId i)) None) i)) (rd_hostCallId d) fin)"
    (is "ledger_state c ?b")
proof (rule ledger_update [OF inv order_refl, where a' = ?b])
  let ?h = "rd_hostCallId d" and ?x = "at_attemptId t" and ?child = "Some (iv_childSessionId i)"
  have one: "releases a ?x = [d]" using releases_single [OF inv t(1)] d by simp
  have stt: "attempt_state [d] (evidence a ?x) t" using state_of_attempt [OF inv t(1)] unfolding one .
  have none: "evidence a ?x = []" using stt t(2) by (simp add: attempt_state_def unlinked_def)
  have other: "map (complete_release ?h fin) (releases a (at_attemptId u)) = releases a (at_attemptId u)"
    if "at_attemptId u \<noteq> ?x" for u
  proof (rule map_idI)
    fix e assume e: "e \<in> set (releases a (at_attemptId u))"
    then have "rd_hostCallId e \<noteq> ?h"
      using same_id [OF ledger_identities(5) [OF inv] _ d(1), of e] d(2) that by auto
    then show "complete_release ?h fin e = e" by (simp add: complete_release_def)
  qed
  have "attempt_state (map (complete_release ?h fin) [d]) [i] (with_status At_bound fin ?child None t)"
    using stt t(2) d i link fin
    by (auto simp: attempt_state_def lifecycle_ok_def with_status_def complete_release_def truthy_def
      linked_def dispatchLinksInvocation_def)
  moreover have same: "u = t" if "u \<in> set (as_attempts a)" "at_attemptId u = ?x" for u
    by (rule same_id [OF ledger_identities(1) [OF inv] that(1) t(1) that(2)])
  ultimately show "attempt_state (map (complete_release ?h fin) (releases a (at_attemptId u)))
      (filter (\<lambda>i. iv_attemptId i = at_attemptId u) (as_invocations a @ [i])) (end_attempt ?x At_bound fin ?child None u)"
    if "u \<in> set (as_attempts a)" for u
    using that state_of_attempt [OF inv that] other [of u] one none i(1)
    by (cases "at_attemptId u = ?x") (auto simp: end_attempt_def simp del: filter_filter)
  show "retired r (map (complete_release ?h fin) (releases a (at_attemptId u))) (end_attempt ?x At_bound fin ?child None u)"
    if u: "u \<in> set (as_attempts a)" "retired r (releases a (at_attemptId u)) u" for u r
  proof (cases "at_attemptId u = ?x")
    case True
    then show ?thesis using same [OF u(1) True] u(2) t(2) by (auto simp: retired_def)
  next
    case False
    then show ?thesis using u(2) other [OF False] by (simp add: end_attempt_def)
  qed
  show "same_obligation ob ob \<and> obligation_state (as_invocations a @ [i]) ob" if "ob \<in> set (as_obligations a)" for ob
    using ledger_stateD(7) [OF inv that] by (auto simp: same_obligation_def obligation_state_def)
  show "distinct (map iv_invocationId (as_invocations a @ [i]))"
    using ledger_identities(2) [OF inv] i(8) by simp
  show "invocation_state (as_attempts a) j" if "j \<in> set (as_invocations a @ [i])" for j
    using ledger_stateD(6) [OF inv] that i t(1) by (auto simp: invocation_state_def)
  show "?b = \<lparr>as_obligations = map (\<lambda>ob. ob) (as_obligations a), as_invocations = as_invocations a @ [i],
      as_attempts = map (end_attempt ?x At_bound fin ?child None) (as_attempts a),
      as_dispatches = map (complete_release ?h fin) (as_dispatches a), as_capacityLock = as_capacityLock a\<rparr>"
    unfolding evidence_update by simp
  show "refineAssuranceCapacityLockCoherence ?b"
    using ledger_stateD(8) [OF inv] unfolding evidence_update by (subst lock_same [of _ a]) simp_all
qed (simp_all add: end_attempt_def same_with_status complete_release_def same_release_def, simp add: same_attempt_def)

lemma fulfill_state:
  assumes inv: "ledger_state c a" and fulfil: "fulfillObligation a b x now = Inr a'" and now: "now \<noteq> []" "x \<noteq> []"
    and i: "i \<in> set (as_invocations a)" "iv_invocationId i = x" "iv_obligationId i = b"
      "\<And>ob. find_obligation a b = Some ob \<Longrightarrow> iv_obligationType i = ro_obligationType ob"
  shows "ledger_state c a'"
proof -
  obtain ob where ob: "find_obligation a b = Some ob"
    using fulfil by (auto simp: fulfillObligation_def split: option.splits)
  note obD = find_obligationD [OF ob]
  let ?f = "\<lambda>item. item\<lparr>ro_status := Ob_fulfilled, ro_invocationId := Some x, ro_fulfilledAt := Some now\<rparr>"
  show ?thesis
  proof (cases "ro_status ob = Ob_pending")
    case True
    have "obligation_state (as_invocations a) (?f ob)"
      using ledger_stateD(7) [OF inv conjunct1 [OF obD]] i(4) [OF ob] i(1-3) obD now
      by (auto simp: obligation_state_def truthy_def refineReviewCycleCoherence_def)
    then have "ledger_state c (updateObligation a b ?f)"
      using True by (intro update_unblocked [OF inv ob]) (simp_all add: same_obligation_def)
    then show ?thesis using fulfil ob True by (simp add: fulfillObligation_def)
  next
    case False
    then show ?thesis using fulfil ob inv by (simp add: fulfillObligation_def split: if_splits)
  qed
qed

lemma block_with_invocation_state:
  assumes inv: "ledger_state c a" and block: "blockObligationWithInvocation a b x code now = Inr a'" and x: "x \<noteq> []"
    and i: "i \<in> set (as_invocations a)" "iv_invocationId i = x" "iv_obligationId i = b"
      "\<And>ob. find_obligation a b = Some ob \<Longrightarrow> iv_obligationType i = ro_obligationType ob"
  shows "ledger_state c a'"
proof -
  obtain ob where ob: "find_obligation a b = Some ob"
    using block by (auto simp: blockObligationWithInvocation_def split: option.splits)
  note obD = find_obligationD [OF ob]
  let ?f = "\<lambda>item. item\<lparr>ro_status := Ob_blocked, ro_blockedCode := Some code, ro_invocationId := Some x,
      ro_fulfilledAt := Some now\<rparr>"
  show ?thesis
  proof (cases "ro_status ob = Ob_pending")
    case True
    have "obligation_state (as_invocations a) (?f ob)"
      using ledger_stateD(7) [OF inv conjunct1 [OF obD]] i(4) [OF ob] i(1-3) obD x
      by (auto simp: obligation_state_def truthy_def refineReviewCycleCoherence_def)
    then have "ledger_state c (updateObligation a b ?f)"
      using True by (intro update_unblocked [OF inv ob]) (simp_all add: same_obligation_def)
    then show ?thesis using block ob True by (simp add: blockObligationWithInvocation_def)
  next
    case False
    then show ?thesis using block ob inv by (simp add: blockObligationWithInvocation_def split: if_splits)
  qed
qed

definition consumed_by :: "string \<Rightarrow> string option \<Rightarrow> review_invocation \<Rightarrow> review_invocation" where
  "consumed_by b x i =
     (if \<not> truthy x \<or> Some (iv_invocationId i) \<noteq> x then i else i\<lparr>iv_consumedByObligationId := Some b\<rparr>)"

lemma transport_consumed [simp]:
  "refineInvocationTransport (i\<lparr>iv_consumedByObligationId := y\<rparr>) = refineInvocationTransport i"
  by (simp add: refineInvocationTransport_def transport_generation_ok_def split: option.split)

lemma consumed_by_same [simp]:
  "iv_invocationId (consumed_by b x i) = iv_invocationId i" "iv_obligationId (consumed_by b x i) = iv_obligationId i"
  "iv_obligationType (consumed_by b x i) = iv_obligationType i" "iv_attemptId (consumed_by b x i) = iv_attemptId i"
  "iv_childSessionId (consumed_by b x i) = iv_childSessionId i"
  "refineInvocationTransport (consumed_by b x i) = refineInvocationTransport i"
  "dispatchLinksInvocation d (consumed_by b x i) = dispatchLinksInvocation d i"
  by (simp_all add: consumed_by_def dispatchLinksInvocation_def)

lemma consume_state:
  assumes inv: "ledger_state c a" and ob: "find_obligation a (ro_obligationId ob) = Some o1" "ro_status o1 = Ob_fulfilled"
    and now: "now \<noteq> []"
    and x: "\<And>i. i \<in> set (as_invocations a) \<Longrightarrow>
      Some (iv_invocationId i) = (case acc of None \<Rightarrow> ro_invocationId ob | Some y \<Rightarrow> Some y) \<Longrightarrow>
      iv_obligationId i = ro_obligationId ob"
  shows "ledger_state c (consumeReviewObligation a (Some ob) now acc)"
proof -
  let ?x = "case acc of None \<Rightarrow> ro_invocationId ob | Some y \<Rightarrow> Some y" and ?b = "ro_obligationId ob"
  let ?k = "\<lambda>item. if ro_obligationId item \<noteq> ?b then item else item\<lparr>ro_status := Ob_consumed, ro_consumedAt := Some now\<rparr>"
  let ?es = "map (consumed_by ?b ?x) (as_invocations a)"
  have eq: "consumeReviewObligation a (Some ob) now acc =
      a\<lparr>as_obligations := map ?k (as_obligations a), as_invocations := ?es\<rparr>"
    by (simp add: consumeReviewObligation_def Let_def consumed_by_def [abs_def])
  have evs: "filter (\<lambda>i. iv_attemptId i = y) ?es = map (consumed_by ?b ?x) (evidence a y)" for y
    by (simp add: filter_map o_def)
  have "obligation_state ?es o2 = obligation_state (as_invocations a) o2" for o2
    by (simp add: obligation_state_def image_iff)
  then have keep: "obligation_state ?es o2" if "o2 \<in> set (as_obligations a)" for o2
    using ledger_stateD(7) [OF inv that] by simp
  have "ledger_state c (updateObligation (a\<lparr>as_invocations := ?es\<rparr>) ?b
      (\<lambda>item. item\<lparr>ro_status := Ob_consumed, ro_consumedAt := Some now\<rparr>))"
  proof (rule update_unblocked)
    show "ledger_state c (a\<lparr>as_invocations := ?es\<rparr>)"
    proof (rule ledger_update [OF inv order_refl, where f = "\<lambda>t. t" and g = "\<lambda>d. d" and k = "\<lambda>ob. ob"
          and es = ?es and l = "as_capacityLock a"])
      show "attempt_state (map (\<lambda>d. d) (releases a (at_attemptId t)))
          (filter (\<lambda>i. iv_attemptId i = at_attemptId t) ?es) t" if "t \<in> set (as_attempts a)" for t
        using state_of_attempt [OF inv that] unfolding evs
        by (auto simp: attempt_state_def unlinked_def linked_def simp del: filter_filter split: attempt_status.splits)
      show "invocation_state (as_attempts a) i" if i: "i \<in> set ?es" for i
      proof -
        obtain j where j: "j \<in> set (as_invocations a)" "i = consumed_by ?b ?x j" using i by auto
        then show ?thesis
          using ledger_stateD(6) [OF inv j(1)] x [OF j(1)] by (auto simp: invocation_state_def consumed_by_def)
      qed
      show "refineAssuranceCapacityLockCoherence (a\<lparr>as_invocations := ?es\<rparr>)"
        using ledger_stateD(8) [OF inv] by (subst lock_same [of _ a]) simp_all
      show "distinct (map iv_invocationId ?es)" using ledger_identities(2) [OF inv] by (simp add: o_def)
    qed (use keep in \<open>simp_all add: same_attempt_def same_release_def same_obligation_def\<close>)
    show "find_obligation (a\<lparr>as_invocations := ?es\<rparr>) ?b = Some o1" using ob(1) by (simp add: find_obligation_def)
    show "obligation_state (as_invocations (a\<lparr>as_invocations := ?es\<rparr>))
        (o1\<lparr>ro_status := Ob_consumed, ro_consumedAt := Some now\<rparr>)"
      using keep [of o1] find_obligationD [OF ob(1)] ob(2) now
      by (auto simp: obligation_state_def truthy_def refineReviewCycleCoherence_def)
  qed (simp_all add: ob(2) same_obligation_def)
  then show ?thesis unfolding eq by (cases a) (simp add: updateObligation_def)
qed

text \<open>What the capture composition guarantees of the arguments: the prompt is the authorised one, the type
  is the obligation's, the primary model request used the captured model, and no capacity lock is held
  (\<open>nativeReviewDispatchLineage\<close> refuses a locked ledger).\<close>

definition captured_params :: "review_assurance \<Rightarrow> evidence_params \<Rightarrow> bool" where
  "captured_params a p =
     (as_capacityLock a = None \<and> ep_fulfilledAt p \<noteq> [] \<and>
      provenanceMatchesCapture (ep_nativeProvenance p) (ep_capture p) \<and>
      list_all (\<lambda>d. rd_hostCallId d = ep_hostCallId p \<longrightarrow> rd_canonicalPromptDigest d = ep_promptHash p)
        (as_dispatches a) \<and>
      list_all (\<lambda>ob. ro_obligationId ob = ep_obligationId p \<longrightarrow> ro_obligationType ob = ep_obligationType p)
        (as_obligations a))"

lemma settle_state:
  assumes inv: "ledger_state c a" and settle: "settleBoundEvidence a ob p x now = Inr a'"
    and now: "now \<noteq> []" "x \<noteq> []" and ob: "ro_obligationId ob = ep_obligationId p"
    and i: "i \<in> set (as_invocations a)" "iv_invocationId i = x" "iv_obligationId i = ep_obligationId p"
      "\<And>ob. find_obligation a (ep_obligationId p) = Some ob \<Longrightarrow> iv_obligationType i = ro_obligationType ob"
  shows "ledger_state c a'"
proof -
  have fulfil: "ledger_state c b" if "fulfillObligation a (ep_obligationId p) x now = Inr b" for b
    by (rule fulfill_state [OF inv that now i])
  show ?thesis
  proof (cases "ep_overallVerdict p = Some ''unable_to_review'' \<and> ep_obligationType p = Ob_review")
    case True
    then obtain b where b: "fulfillObligation a (ep_obligationId p) x now = Inr b"
        "a' = consumeReviewObligation b (Some ob) now (Some x)"
      using settle by (auto simp: settleBoundEvidence_def split: sum.splits)
    have invb: "ledger_state c b" by (rule fulfil [OF b(1)])
    have "\<exists>o1. find_obligation b (ep_obligationId p) = Some o1 \<and> ro_status o1 = Ob_fulfilled"
      and ivs: "as_invocations b = as_invocations a"
      using b(1) find_obligation_update [of a "ep_obligationId p" _ "\<lambda>item. item\<lparr>ro_status := Ob_fulfilled,
          ro_invocationId := Some x, ro_fulfilledAt := Some now\<rparr>"]
      by (auto simp: fulfillObligation_def updateObligation_def split: option.splits if_splits)
    then obtain o1 where o1: "find_obligation b (ro_obligationId ob) = Some o1" "ro_status o1 = Ob_fulfilled"
      unfolding ob by blast
    show ?thesis unfolding b(2)
    proof (rule consume_state [OF invb o1 now(1)])
      fix j assume j: "j \<in> set (as_invocations b)"
        "Some (iv_invocationId j) = (case Some x of None \<Rightarrow> ro_invocationId ob | Some y \<Rightarrow> Some y)"
      then have "j = i" using same_id [OF ledger_identities(2) [OF inv] _ i(1), of j] i(2) ivs by simp
      then show "iv_obligationId j = ro_obligationId ob" using i(3) ob by simp
    qed
  next
    case False
    then have "fulfillObligation a (ep_obligationId p) x now = Inr a' \<or>
        blockObligationWithInvocation a (ep_obligationId p) x ''SUBAGENT_UNABLE_TO_REVIEW'' now = Inr a'"
      using settle by (auto simp: settleBoundEvidence_def split: if_splits)
    then show ?thesis using fulfil block_with_invocation_state [OF inv _ now(2) i] by blast
  qed
qed

theorem record_evidence_state:
  assumes inv: "ledger_state c a" and c: "c \<le> now" "now \<noteq> []"
    and p: "captured_params a p"
    and uuid: "uuid \<noteq> []" "uuid \<notin> iv_invocationId ` set (as_invocations a)"
    and rec: "applyEvidenceMutation parsed expired pre_bind uuid a now p = Inr (r, a')"
  shows "ledger_state now a'"
proof (cases "r = R_fulfilled")
  case False
  then have "a' = a \<or> a' = blockObligation a (ep_obligationId p) ''SUBAGENT_EVIDENCE_REUSED''"
    using rec by (auto simp: applyEvidenceMutation_def Let_def split: option.splits if_splits sum.splits)
  moreover have "lock_allows a (ep_obligationId p) code" for code using p by (simp add: captured_params_def lock_allows_def)
  ultimately show ?thesis using ledger_later [OF inv c(1)] block_state [OF ledger_later [OF inv c(1)]] by auto
next
  case True
  define i where "i = buildReviewInvocation uuid p"
  let ?b = "\<lambda>x. completeReviewDispatch (Some (appendInvocationEvidence (updateAttemptStatus a x At_bound
      (ep_fulfilledAt p) (Some (ep_childSessionId p)) None) i)) (ep_hostCallId p) (ep_fulfilledAt p)"
  obtain ob x where ob: "find_obligation a (ep_obligationId p) = Some ob"
    and x: "resolveEvidenceLineage a ob p = Some x" and valid: "validCapture parsed p"
    and settle: "settleBoundEvidence (?b x) ob p uuid now = Inr a'"
    using rec True by (auto simp: applyEvidenceMutation_def Let_def i_def buildReviewInvocation_def
      split: option.splits if_splits sum.splits)
  note obD = find_obligationD [OF ob]
  obtain t where t: "find_attempt a (ep_attemptId p) = Some t" "at_obligationId t = ro_obligationId ob"
      "at_obligationType t = ro_obligationType ob" "at_status t = At_created"
      "at_childSessionId t = Some (ep_childSessionId p)" "hasAuthorizedDispatch (Some a) (ep_hostCallId p) (at_attemptId t)"
      "x = at_attemptId t"
    using x by (auto simp: resolveEvidenceLineage_def split: option.splits if_splits)
  note tD = find_attemptD [OF t(1)]
  obtain d where d: "d \<in> set (as_dispatches a)" "rd_hostCallId d = ep_hostCallId p" "rd_attemptId d = at_attemptId t"
      "rd_status d = Di_authorized"
    using t(6) by (auto simp: hasAuthorizedDispatch_def list_ex_iff)
  have ty: "ro_obligationType ob = ep_obligationType p"
    using p obD by (auto simp: captured_params_def list_all_iff)
  have "refineInvocationTransport i"
    using p by (simp add: i_def buildReviewInvocation_def refineInvocationTransport_def transport_generation_ok_def
      captured_params_def)
  moreover have "np_nativeCallId (ep_nativeProvenance p) = rd_hostCallId d" using valid d(2) by (simp add: validCapture_def)
  moreover have "rd_canonicalPromptDigest d = ep_promptHash p"
    using p d(1,2) by (simp add: captured_params_def list_all_iff)
  ultimately have b: "ledger_state c (?b (at_attemptId t))"
    using evidence_state [OF inv conjunct1 [OF tD] t(4) d(1,3,4), of "ep_fulfilledAt p" i] p t(2,3,5) tD obD ty uuid d(2)
    by (simp add: i_def buildReviewInvocation_def captured_params_def)
  show ?thesis
  proof (rule ledger_later [OF _ c(1)], rule settle_state [OF b])
    show "settleBoundEvidence (?b (at_attemptId t)) ob p uuid now = Inr a'" using settle t(7) by simp
    show "ro_obligationId ob = ep_obligationId p" using obD by simp
    show "i \<in> set (as_invocations (?b (at_attemptId t)))" unfolding evidence_update by simp
    show "iv_obligationType i = ro_obligationType o1"
      if "find_obligation (?b (at_attemptId t)) (ep_obligationId p) = Some o1" for o1
      using that ob ty unfolding evidence_update by (simp add: find_obligation_def i_def buildReviewInvocation_def)
  qed (simp_all add: c uuid i_def buildReviewInvocation_def)
qed

section \<open>Releasing, binding and rejecting\<close>

theorem persist_release_state:
  assumes inv: "ledger_state c a" and uuid: "uuid \<notin> rd_dispatchId ` set (as_dispatches a)"
    and rel: "persistAuthorizedReviewDispatch uuid a i = Inr a'"
  shows "ledger_state c a'"
proof (cases "a' = a")
  case True
  then show ?thesis using inv by simp
next
  case False
  have fresh: "filter (\<lambda>d. rd_hostCallId d = di_hostCallId i) (as_dispatches a) = []"
    and none: "\<not> list_ex (\<lambda>d. rd_attemptId d = di_attemptId i \<and> rd_status d = Di_authorized) (as_dispatches a)"
    and a': "a' = appendReviewDispatch (Some a) (authorized_record uuid i)"
    and ok: "assertDispatchAuthorizable a i"
    using rel False by (auto simp: persistAuthorizedReviewDispatch_def resolveExistingDispatchForCall_def
      split: if_splits list.splits)
  obtain ob t where t: "find_obligation a (di_obligationId i) = Some ob" "find_attempt a (di_attemptId i) = Some t"
      "at_obligationId t = ro_obligationId ob" "at_status t = At_created"
    using ok by (auto simp: assertDispatchAuthorizable_def split: option.splits)
  note tD = find_attemptD [OF t(2)] and obD = find_obligationD [OF t(1)]
  have "rd_status d = Di_authorized" if "d \<in> set (releases a (at_attemptId t))" for d
    using state_of_attempt [OF inv conjunct1 [OF tD]] t(4) that by (auto simp: attempt_state_def unlinked_def)
  then have "releases a (at_attemptId t) = []"
    using none tD by (auto simp: list_ex_iff filter_empty_conv)
  then show ?thesis
    unfolding a' using uuid fresh tD obD t
    by (intro append_release [OF inv, of t]) (auto simp: authorized_record_def filter_empty_conv)
qed

lemma lineageD:
  assumes "nativeReviewDispatchLineage criteria mandate a h child = Some (d, t, ob)"
  shows "d \<in> set (as_dispatches a)" and "rd_hostCallId d = h" and "rd_status d = Di_authorized"
    and "t \<in> set (as_attempts a)" and "at_attemptId t = rd_attemptId d" and "at_status t = At_created"
    and "ob \<in> set (as_obligations a)" and "ro_status ob = Ob_pending" and "as_capacityLock a = None"
proof -
  have one: "filter (\<lambda>d. rd_hostCallId d = h) (as_dispatches a) = [d]"
      "filter (\<lambda>t. at_attemptId t = rd_attemptId d) (as_attempts a) = [t]"
      "filter (\<lambda>ob. ro_obligationId ob = rd_obligationId d) (as_obligations a) = [ob]"
    and rest: "rd_status d = Di_authorized" "at_status t = At_created" "ro_status ob = Ob_pending" "as_capacityLock a = None"
    using assms by (auto simp: nativeReviewDispatchLineage_def split: list.splits if_splits)
  have "d \<in> set (filter (\<lambda>d. rd_hostCallId d = h) (as_dispatches a))"
    "t \<in> set (filter (\<lambda>t. at_attemptId t = rd_attemptId d) (as_attempts a))"
    "ob \<in> set (filter (\<lambda>ob. ro_obligationId ob = rd_obligationId d) (as_obligations a))"
    unfolding one by simp_all
  with rest show "d \<in> set (as_dispatches a)" "rd_hostCallId d = h" "rd_status d = Di_authorized"
    "t \<in> set (as_attempts a)" "at_attemptId t = rd_attemptId d" "at_status t = At_created"
    "ob \<in> set (as_obligations a)" "ro_status ob = Ob_pending" "as_capacityLock a = None" by simp_all
qed

theorem bind_native_child_state:
  assumes inv: "ledger_state c a" and bind: "bindNativeReviewChild criteria mandate parent a h child now = Inr a'"
  shows "ledger_state c a'"
proof -
  obtain d t ob where lin: "nativeReviewDispatchLineage criteria mandate a h None = Some (d, t, ob)"
    and child: "at_childSessionId t = None \<or> at_childSessionId t = Some child"
    and a': "a' = updateAttemptStatus a (at_attemptId t) At_created now (Some child) None"
    using bind by (auto simp: bindNativeReviewChild_def split: option.splits if_splits)
  note l = lineageD [OF lin]
  have "u = t" if "u \<in> set (as_attempts a)" "at_attemptId u = at_attemptId t" for u
    by (rule same_id [OF ledger_identities(1) [OF inv] that(1) l(4) that(2)])
  then show ?thesis unfolding a' using l(6) child by (intro bound_child_state [OF inv]) blast
qed

lemma block_execution_parts [simp]:
  "as_attempts (blockObligation a b code) = as_attempts a" "as_dispatches (blockObligation a b code) = as_dispatches a"
  "as_invocations (blockObligation a b code) = as_invocations a"
  "as_capacityLock (blockObligation a b code) = as_capacityLock a"
  by (simp_all add: blockObligation_def updateObligation_def)

theorem reject_capture_state:
  assumes inv: "ledger_state c a" and c: "c \<le> now" "now \<noteq> []"
    and rej: "rejectNativeReviewCapture criteria mandate a h child code now = Inr a'"
  shows "ledger_state now a'"
proof -
  obtain d t ob where lin: "nativeReviewDispatchLineage criteria mandate a h (Some child) = Some (d, t, ob)"
    and a': "a' = updateAttemptStatus (abandonReviewDispatch (Some (blockObligation a (ro_obligationId ob) code)) h)
        (at_attemptId t) At_rejected now None None"
    using rej by (auto simp: rejectNativeReviewCapture_def split: option.splits)
  note l = lineageD [OF lin]
  have "ledger_state c (blockObligation a (ro_obligationId ob) code)"
    by (rule block_state [OF inv]) (simp add: lock_allows_def l(9))
  from close_attempt [OF this c, of t At_rejected d None] show ?thesis unfolding a' using l by simp
qed

lemma abandon_open_state:
  assumes inv: "ledger_state now a" and now: "now \<noteq> []"
    and d: "\<exists>e \<in> set (as_dispatches a). rd_attemptId e = rd_attemptId d \<and> rd_hostCallId e = rd_hostCallId d \<and>
      rd_status e = Di_authorized"
  shows "ledger_state now (abandon_open_release now d a)"
proof -
  obtain e where e: "e \<in> set (as_dispatches a)" "rd_attemptId e = rd_attemptId d" "rd_hostCallId e = rd_hostCallId d"
      "rd_status e = Di_authorized" using d by blast
  obtain t where t: "t \<in> set (as_attempts a)" "at_attemptId t = rd_attemptId e" "e \<in> set (releases a (at_attemptId t))"
    using release_owner [OF inv e(1)] by blast
  let ?n = "abandonReviewDispatch (Some a) (rd_hostCallId d)"
  have "as_attempts ?n = as_attempts a" by (simp add: abandonReviewDispatch_def ensureReviewAssurance_def Let_def)
  then have find: "find_attempt ?n (rd_attemptId d) = Some t"
    using find_by_id [OF ledger_identities(1) [OF inv], of "rd_attemptId d" t] t e(2) by (simp add: find_attempt_def)
  have one: "releases a (at_attemptId t) = [e]" by (rule releases_single [OF inv t(1,3)])
  have "attempt_state [e] (evidence a (at_attemptId t)) t" using state_of_attempt [OF inv t(1)] unfolding one .
  then have st: "at_status t = At_created \<or> at_status t = At_stale"
    using e(4) by (cases "at_status t") (auto simp: attempt_state_def unlinked_def linked_def)
  have closed: "ledger_state now (updateAttemptStatus ?n (at_attemptId t) At_stale now None None)"
    using close_attempt [OF inv order_refl now t(1) _ e(1), of At_stale None] st t(2) e(3) by auto
  show ?thesis
  proof (cases "at_status t = At_created")
    case True
    then show ?thesis using closed find by (simp add: abandon_open_release_def Let_def)
  next
    case False
    then have stale: "at_status t = At_stale" using st by simp
    have "ledger_state now (a\<lparr>as_attempts := map (\<lambda>u. u) (as_attempts a),
        as_dispatches := map (close_release (rd_hostCallId d)) (as_dispatches a)\<rparr>)"
    proof (rule update_execution [OF inv order_refl])
      fix u assume u: "u \<in> set (as_attempts a)"
      have other: "map (close_release (rd_hostCallId d)) (releases a (at_attemptId u)) = releases a (at_attemptId u)"
        if ne: "at_attemptId u \<noteq> at_attemptId t"
      proof (rule map_idI)
        fix g assume g: "g \<in> set (releases a (at_attemptId u))"
        then have "rd_hostCallId g \<noteq> rd_hostCallId e"
          using same_id [OF ledger_identities(5) [OF inv] _ e(1), of g] t(2) ne by auto
        then show "close_release (rd_hostCallId d) g = g" by (simp add: close_release_def e(3))
      qed
      have me: "u = t" if "at_attemptId u = at_attemptId t" by (rule same_id [OF ledger_identities(1) [OF inv] u t(1) that])
      have mine: "attempt_state (map (close_release (rd_hostCallId d)) [e]) (evidence a (at_attemptId t)) t"
        using \<open>attempt_state [e] (evidence a (at_attemptId t)) t\<close> stale
        by (auto simp: attempt_state_def unlinked_def close_release_def)
      show "attempt_state (map (close_release (rd_hostCallId d)) (releases a (at_attemptId u))) (evidence a (at_attemptId u)) u"
      proof (cases "at_attemptId u = at_attemptId t")
        case True
        show ?thesis unfolding me [OF True] one by (rule mine)
      next
        case False
        show ?thesis unfolding other [OF False] by (rule state_of_attempt [OF inv u])
      qed
      show "retired r (map (close_release (rd_hostCallId d)) (releases a (at_attemptId u))) u"
        if ret: "retired r (releases a (at_attemptId u)) u" for r
      proof (cases "at_attemptId u = at_attemptId t")
        case True
        show ?thesis using ret stale unfolding me [OF True] one by (auto simp: retired_def close_release_def)
      next
        case False
        show ?thesis unfolding other [OF False] by (rule ret)
      qed
    qed (simp_all add: same_attempt_def same_release_def close_release_def)
    moreover have "?n = a\<lparr>as_attempts := map (\<lambda>u. u) (as_attempts a),
        as_dispatches := map (close_release (rd_hostCallId d)) (as_dispatches a)\<rparr>"
      by (simp add: abandonReviewDispatch_def ensureReviewAssurance_def Let_def close_release_def [abs_def])
    ultimately show ?thesis using find stale by (simp add: abandon_open_release_def Let_def)
  qed
qed

lemma abandon_open_dispatches:
  "as_dispatches (abandon_open_release now d a) = map (close_release (rd_hostCallId d)) (as_dispatches a)"
  by (auto simp: abandon_open_release_def Let_def abandonReviewDispatch_def ensureReviewAssurance_def
    updateAttemptStatus_def close_release_def [abs_def] split: option.split)

lemma abandon_all_state:
  assumes "ledger_state now a" and "now \<noteq> []" and "distinct (map rd_hostCallId ds)"
    and "\<And>d. d \<in> set ds \<Longrightarrow> d \<in> set (as_dispatches a) \<and> rd_status d = Di_authorized"
  shows "ledger_state now (fold (abandon_open_release now) ds a)"
  using assms
proof (induction ds arbitrary: a)
  case (Cons d ds)
  have step: "ledger_state now (abandon_open_release now d a)"
    using Cons.prems(4) [of d] by (intro abandon_open_state [OF Cons.prems(1,2)]) auto
  have "e \<in> set (as_dispatches (abandon_open_release now d a)) \<and> rd_status e = Di_authorized" if e: "e \<in> set ds" for e
  proof -
    have "rd_hostCallId e \<noteq> rd_hostCallId d" using Cons.prems(3) e by (auto simp: not_in_image)
    then have "close_release (rd_hostCallId d) e = e" by (simp add: close_release_def)
    moreover have "as_dispatches (abandon_open_release now d a) = map (close_release (rd_hostCallId d)) (as_dispatches a)"
      by (rule abandon_open_dispatches)
    ultimately show ?thesis using Cons.prems(4) [of e] e by (metis image_eqI list.set_intros(2) set_map)
  qed
  then show ?case using Cons.IH [OF step Cons.prems(2)] Cons.prems(3) by simp
qed simp

theorem block_outcome_state:
  assumes inv: "ledger_state c a" and c: "c \<le> now" "now \<noteq> []" and lock: "lock_allows a b code"
  shows "ledger_state now (blockReviewOutcome a b code now)"
  unfolding blockReviewOutcome_def Let_def
proof (rule abandon_all_state [OF ledger_later [OF block_state [OF inv lock] c(1)] c(2)])
  show "distinct (map rd_hostCallId (filter (\<lambda>d. rd_obligationId d = b \<and> rd_status d = Di_authorized)
      (as_dispatches (blockObligation a b code))))"
    using ledger_identities(5) [OF inv] by (simp add: distinct_map_filter)
qed simp

section \<open>Re-arming an incoherent capture, settlement and reopening\<close>

lemma rearm_targetD:
  assumes "resolveRearmTarget a i = Inr (ob, v, t)"
  shows "find_obligation a (in_obligationId i) = Some ob" and "ro_status ob = Ob_fulfilled"
    and "find_attempt a (iv_attemptId v) = Some t" and "at_status t = At_bound" and "v \<in> set (as_invocations a)"
    and "Some (iv_invocationId v) = ro_invocationId ob"
  using assms by (auto simp: resolveRearmTarget_def split: option.splits if_splits dest: find_Some_in)

lemma bound_release:
  "attempt_state ds es t \<Longrightarrow> at_status t = At_bound \<Longrightarrow> \<exists>d \<in> set ds. rd_status d = Di_completed"
  by (auto simp: attempt_state_def linked_def)

theorem incoherent_rearm_state:
  assumes inv: "ledger_state c a" and c: "c \<le> now" "now \<noteq> []"
    and uuid: "uuid \<notin> at_attemptId ` set (as_attempts a)" "uuid \<noteq> []"
    and rearm: "buildIncoherentCaptureRearm uuid a i now = Inr (a', fresh)"
  shows "ledger_state now a'"
proof -
  obtain ob v t where target: "resolveRearmTarget a i = Inr (ob, v, t)"
    and a': "a' = fst (createAttemptForExistingObligation uuid
        (updateObligation (updateAttemptStatus a (at_attemptId t) At_rejected now None (Some Consistency_invalid))
           (ro_obligationId ob) (\<lambda>_. reset_obligation ob))
        (reset_obligation ob) None now (Dispatch_rearm (at_attemptId t) Spent))"
    using rearm by (auto simp: buildIncoherentCaptureRearm_def Let_def split: sum.splits option.splits prod.splits)
  note d = rearm_targetD [OF target]
  note obD = find_obligationD [OF d(1)] and tD = find_attemptD [OF d(3)]
  let ?r = "updateAttemptStatus a (at_attemptId t) At_rejected now None (Some Consistency_invalid)"
  let ?f = "end_attempt (at_attemptId t) At_rejected now None (Some Consistency_invalid)"
  have r: "?r = a\<lparr>as_attempts := map ?f (as_attempts a)\<rparr>"
    by (simp add: updateAttemptStatus_def end_attempt_def [abs_def])
  have same: "u = t" if "u \<in> set (as_attempts a)" "at_attemptId u = at_attemptId t" for u
    by (rule same_id [OF ledger_identities(1) [OF inv] that(1) conjunct1 [OF tD] that(2)])
  have stt: "attempt_state (releases a (at_attemptId t)) (evidence a (at_attemptId t)) t"
    by (rule state_of_attempt [OF inv conjunct1 [OF tD]])
  have rej: "attempt_state (releases a (at_attemptId t)) (evidence a (at_attemptId t))
      (with_status At_rejected now None (Some Consistency_invalid) t)"
    using stt d(4) c(2)
    by (auto simp: attempt_state_def with_status_def lifecycle_ok_def truthy_def linked_def)
  have invr: "ledger_state now ?r" unfolding r
  proof (rule update_attempts [OF inv c(1)])
    fix u assume u: "u \<in> set (as_attempts a)"
    show "attempt_state (releases a (at_attemptId u)) (evidence a (at_attemptId u)) (?f u)"
      using rej same [OF u] state_of_attempt [OF inv u]
      by (cases "at_attemptId u = at_attemptId t") (auto simp: end_attempt_def simp del: filter_filter)
    show "retired g (releases a (at_attemptId u)) (?f u)" if "retired g (releases a (at_attemptId u)) u" for g
      using that same [OF u] d(4) by (auto simp: end_attempt_def retired_def)
  qed (use same_with_status in \<open>auto simp: end_attempt_def same_attempt_def\<close>)
  let ?o = "updateObligation ?r (ro_obligationId ob) (\<lambda>_. reset_obligation ob)"
  have fo: "find_obligation ?r (ro_obligationId ob) = Some ob" using d(1) obD unfolding r by (simp add: find_obligation_def)
  have invo: "ledger_state now ?o"
  proof (rule update_unblocked [OF invr fo])
    show "obligation_state (as_invocations ?r) (reset_obligation ob)"
      using ledger_stateD(7) [OF inv conjunct1 [OF obD]]
      by (simp add: obligation_state_def reset_obligation_def truthy_def refineReviewCycleCoherence_def)
  qed (simp_all add: d(2) same_obligation_def reset_obligation_def)
  let ?b = "staleObligationAttempts ?o (ro_obligationId ob) uuid now"
  let ?t = "with_status At_rejected now None (Some Consistency_invalid) t"
  have invb: "ledger_state now ?b" by (rule stale_others_state [OF invo order_refl c(2)])
  have atts: "as_attempts ?o = map ?f (as_attempts a)" by (simp add: updateObligation_def r)
  have tin: "?t \<in> set (as_attempts ?b)"
    using conjunct1 [OF tD] unfolding staleObligationAttempts_def atts
    by (force simp: end_attempt_def stale_other_def with_status_def)
  have owner: "at_obligationId t = ro_obligationId ob"
  proof -
    have v: "v \<in> set (evidence a (at_attemptId t))" using d(5) tD by simp
    have "at_obligationId t = iv_obligationId v"
      using linked_member [OF conjunct1 [OF attempt_state_releases(5) [OF stt v]] v] by simp
    moreover obtain w where "w \<in> set (as_invocations a)" "ro_invocationId ob = Some (iv_invocationId w)"
        "iv_obligationId w = ro_obligationId ob"
      using ledger_stateD(7) [OF inv conjunct1 [OF obD]] d(2) by (auto simp: obligation_state_def)
    moreover from this have "w = v" using same_id [OF ledger_identities(2) [OF inv] _ d(5), of w] d(6) by simp
    ultimately show ?thesis by simp
  qed
  have "\<exists>e \<in> set (releases a (at_attemptId t)). rd_status e = Di_completed"
    by (rule bound_release [OF stt d(4)])
  then have ret: "retired Spent (releases ?b (at_attemptId ?t)) ?t"
    using d(4) by (auto simp: retired_def with_status_def staleObligationAttempts_def updateObligation_def r)
  have "ledger_state now (appendReviewAttempt ?b (minted_attempt uuid ?o (reset_obligation ob) now
      (Dispatch_rearm (at_attemptId ?t) Spent)))"
  proof (rule append_rearmed [OF invb _ _ uuid(2) tin _ ret])
    show "reset_obligation ob \<in> set (as_obligations ?b)"
      using find_obligation_update [OF fo, of "\<lambda>_. reset_obligation ob"] obD
      by (auto simp: staleObligationAttempts_def updateObligation_def r)
    show "uuid \<notin> at_attemptId ` set (as_attempts ?b)"
      unfolding stale_ids atts using uuid(1) by (auto simp: end_attempt_def with_status_def image_iff)
    show "at_obligationId ?t = ro_obligationId (reset_obligation ob)"
      by (simp add: with_status_def reset_obligation_def owner)
    show "length (attempts_of (as_attempts ?o) (ro_obligationId (reset_obligation ob))) =
        length (attempts_of (as_attempts ?b) (ro_obligationId (reset_obligation ob)))" unfolding stale_length ..
  qed
  then show ?thesis unfolding a' mint_eq by (simp add: with_status_def reset_obligation_def)
qed

lemma pending_again:
  assumes inv: "ledger_state c a" and ob: "find_obligation a b = Some ob"
  shows "ledger_state c ((updateObligation a b (\<lambda>item. item\<lparr>ro_status := Ob_pending, ro_blockedCode := None\<rparr>))
           \<lparr>as_capacityLock := None\<rparr>)"
proof -
  let ?k = "\<lambda>o1. if ro_obligationId o1 \<noteq> b then o1 else o1\<lparr>ro_status := Ob_pending, ro_blockedCode := None\<rparr>"
  have eq: "(updateObligation a b (\<lambda>item. item\<lparr>ro_status := Ob_pending, ro_blockedCode := None\<rparr>))\<lparr>as_capacityLock := None\<rparr> =
      a\<lparr>as_obligations := map ?k (as_obligations a), as_capacityLock := None\<rparr>"
    by (simp add: updateObligation_def)
  show ?thesis unfolding eq
  proof (rule update_obligations [OF inv order_refl])
    fix o1 assume "o1 \<in> set (as_obligations a)"
    from ledger_stateD(7) [OF inv this] show "same_obligation (?k o1) o1 \<and> obligation_state (as_invocations a) (?k o1)"
      by (auto simp: same_obligation_def obligation_state_def refineReviewCycleCoherence_def)
  qed (simp add: refineAssuranceCapacityLockCoherence_def)
qed

lemma locked_obligation_find:
  "lockedObligation a ty = Some ob \<Longrightarrow> find_obligation a (ro_obligationId ob) = Some ob"
  unfolding lockedObligation_def
  by (auto split: option.splits if_splits) (use find_obligationD in \<open>metis\<close>)

theorem reopen_unknown_state:
  assumes inv: "ledger_state c a" and reopen: "reopenUnknownOutcome a expected = Inr a'"
  shows "ledger_state c a'"
proof -
  obtain eo et ed where e: "expected = (eo, et, ed)" by (cases expected)
  obtain ob t d where target: "unknownOutcomeTarget a (ro_obligationType eo) = Some (ob, t, d)"
      "ro_obligationId ob = ro_obligationId eo"
    and a': "a' = (updateObligation a (ro_obligationId eo) (\<lambda>item. item\<lparr>ro_status := Ob_pending, ro_blockedCode := None\<rparr>))
           \<lparr>as_capacityLock := None\<rparr>"
    using reopen unfolding e by (auto simp: reopenUnknownOutcome_def split: option.splits if_splits)
  have "lockedObligation a (ro_obligationType eo) = Some ob"
    using target(1) by (auto simp: unknownOutcomeTarget_def Let_def split: option.splits if_splits list.splits)
  then have "find_obligation a (ro_obligationId eo) = Some ob" using locked_obligation_find target(2) by metis
  then show ?thesis unfolding a' by (rule pending_again [OF inv])
qed

theorem release_lock_state:
  assumes inv: "ledger_state c a" and rel: "releaseTerminalCapacityLock a expected = Inr a'"
  shows "ledger_state c a'"
proof -
  have "a' = a\<lparr>as_capacityLock := None\<rparr>"
    using rel by (auto simp: releaseTerminalCapacityLock_def split: option.splits prod.splits if_splits)
  then show ?thesis using relock_state [OF inv unlocked] by simp
qed

abbreviation pending_obligation :: "review_assurance \<Rightarrow> review_obligation \<Rightarrow> review_assurance" where
  "pending_obligation a ob \<equiv>
     updateObligation a (ro_obligationId ob) (\<lambda>item. item\<lparr>ro_status := Ob_pending, ro_blockedCode := None\<rparr>)"

lemma author_resolution_effect:
  assumes False: "reopenReviewAfterAuthorResolution unaddressed uuid a now \<noteq> a"
  obtains l ob t b fresh where "as_capacityLock a = Some l" "find_obligation a (cl_obligationId l) = Some ob"
    "t \<in> set (as_attempts a)" "buildInterruptedDispatchRearm uuid (pending_obligation a ob) t now = Inr (b, fresh)"
    "reopenReviewAfterAuthorResolution unaddressed uuid a now = b\<lparr>as_capacityLock := None\<rparr>"
proof -
  obtain l ob where lo: "as_capacityLock a = Some l" "find_obligation a (cl_obligationId l) = Some ob"
    using False by (auto simp: reopenReviewAfterAuthorResolution_def split: option.splits if_splits)
  let ?f = "filter (\<lambda>t. map rd_status (filter (\<lambda>d. rd_attemptId d = at_attemptId t \<and>
      rd_obligationId d = ro_obligationId ob) (as_dispatches a)) = [Di_outcome_unknown])
      (unsupersededStaleAttempts a (ro_obligationId ob))"
  obtain t where tt: "?f = [t]"
    using False lo by (auto simp: reopenReviewAfterAuthorResolution_def split: if_splits list.splits)
  then have "t \<in> set ?f" by simp
  then have tin: "t \<in> set (as_attempts a)" by (simp add: unsupersededStaleAttempts_def)
  show ?thesis
  proof (cases "buildInterruptedDispatchRearm uuid (pending_obligation a ob) t now")
    case (Inl e)
    then show ?thesis using False lo tt by (simp add: reopenReviewAfterAuthorResolution_def Let_def split: if_splits)
  next
    case (Inr x)
    obtain b fresh where x: "x = (b, fresh)" by (cases x)
    have "reopenReviewAfterAuthorResolution unaddressed uuid a now = b\<lparr>as_capacityLock := None\<rparr>"
      using False lo tt Inr x by (simp add: reopenReviewAfterAuthorResolution_def Let_def split: if_splits)
    then show ?thesis using that lo tin Inr x by blast
  qed
qed

theorem author_resolution_state:
  assumes inv: "ledger_state c a" and c: "c \<le> now" "now \<noteq> []"
    and uuid: "uuid \<notin> at_attemptId ` set (as_attempts a)" "uuid \<noteq> []"
  shows "ledger_state now (reopenReviewAfterAuthorResolution unaddressed uuid a now)"
proof (cases "reopenReviewAfterAuthorResolution unaddressed uuid a now = a")
  case True
  then show ?thesis using ledger_later [OF inv c(1)] by simp
next
  case False
  obtain l ob t b fresh where l: "as_capacityLock a = Some l" "find_obligation a (cl_obligationId l) = Some ob"
    and t: "t \<in> set (as_attempts a)"
    and re: "buildInterruptedDispatchRearm uuid (pending_obligation a ob) t now = Inr (b, fresh)"
    and eq: "reopenReviewAfterAuthorResolution unaddressed uuid a now = b\<lparr>as_capacityLock := None\<rparr>"
    by (rule author_resolution_effect [OF False])
  let ?q = "(pending_obligation a ob)\<lparr>as_capacityLock := None\<rparr>"
  have "find_obligation a (ro_obligationId ob) = Some ob" using l(2) find_obligationD [OF l(2)] by simp
  then have q: "ledger_state c ?q" by (rule pending_again [OF inv])
  have "buildInterruptedDispatchRearm uuid ?q t now = Inr (b\<lparr>as_capacityLock := None\<rparr>, fresh)"
    using re by (auto simp: buildInterruptedDispatchRearm_def authorizeDispatchRearm_def find_obligation_def
      countReviewAttempts_def dispatchRearmTrigger_def createAttemptForExistingObligation_def Let_def
      appendReviewAttempt_def staleObligationAttempts_def markDispatchOutcomeUnknown_def ensureReviewAssurance_def
      split: option.splits if_splits sum.splits)
  from rearm_state [OF q c _ _ uuid(2) this] show ?thesis
    unfolding eq using t uuid(1) by (simp add: updateObligation_def)
qed

theorem open_obligation_state:
  assumes inv: "ledger_state c a" and c: "c \<le> now" "now \<noteq> []"
    and ob: "fresh_obligation ob" "refineReviewCycleCoherence ob" "ro_obligationId ob \<notin> ro_obligationId ` set (as_obligations a)"
    and uuid: "uuid \<notin> at_attemptId ` set (as_attempts a)" "uuid \<noteq> []"
  shows "ledger_state now (appendObligationAndInitialAttempt uuid a ob now)"
proof -
  let ?b = "a\<lparr>as_obligations := as_obligations a @ [ob]\<rparr>"
  have none: "attempts_of (as_attempts a) (ro_obligationId ob) = []"
  proof (rule ccontr)
    assume "attempts_of (as_attempts a) (ro_obligationId ob) \<noteq> []"
    then obtain t where t: "t \<in> set (as_attempts a)" "at_obligationId t = ro_obligationId ob"
      by (auto simp: filter_empty_conv)
    from ledger_stateD(4) [OF inv t(1)] obtain o1 where "o1 \<in> set (as_obligations a)" "ro_obligationId o1 = at_obligationId t"
      by (auto simp: attempt_authority_def)
    then show False using ob(3) t(2) by (metis image_eqI)
  qed
  let ?t = "minted_attempt uuid ?b ob now Initial"
  have "ledger_state now (appendReviewAttempt ?b ?t)"
  proof (rule append_attempt [OF append_obligation [OF inv ob]])
    show "attempt_authority (as_obligations ?b) ?t"
      by (auto simp: attempt_authority_def minted_attempt_def createReviewAttempt_def)
    show "lineage_state (appendReviewAttempt ?b ?t) ?t"
      using none by (simp add: lineage_state_def minted_attempt_def createReviewAttempt_def)
  qed (use c uuid in \<open>simp_all add: minted_attempt_def createReviewAttempt_def\<close>)
  then have "ledger_state now (staleObligationAttempts (appendReviewAttempt ?b ?t) (ro_obligationId ob) uuid now)"
    by (rule stale_others_state) (simp_all add: c)
  then show ?thesis
    by (simp add: appendObligationAndInitialAttempt_def Let_def minted_attempt_def createReviewAttempt_def)
qed

end
