(* ===== verification/Review_Execution.thy ===== *)
theory Review_Execution
  imports Review_Steps
begin

text \<open>Runs of the review ledger: every writer of \<open>reviewAssurance\<close> as one step of a transition system, the
  reachable ledgers, and what holds of all of them: the schema accepts the ledger, no attempt is released
  twice, the re-arm budget bounds the reviewer runs of an obligation, and the next legal step that
  \<open>resolveReviewContinuation\<close> announces is one the writers admit.\<close>

section \<open>The transition system\<close>

definition fresh_attempt_id :: "review_assurance \<Rightarrow> string \<Rightarrow> bool" where
  "fresh_attempt_id a uuid = (uuid \<noteq> [] \<and> uuid \<notin> at_attemptId ` set (as_attempts a))"

inductive review_step :: "string \<Rightarrow> string \<Rightarrow> string \<Rightarrow> review_assurance \<Rightarrow> review_assurance \<Rightarrow> bool"
  for criteria mandate now where
  opens: "fresh_obligation ob \<Longrightarrow> refineReviewCycleCoherence ob \<Longrightarrow>
     ro_obligationId ob \<notin> ro_obligationId ` set (as_obligations a) \<Longrightarrow> fresh_attempt_id a uuid \<Longrightarrow>
     review_step criteria mandate now a (appendObligationAndInitialAttempt uuid a ob now)"
| releases_task: "uuid \<notin> rd_dispatchId ` set (as_dispatches a) \<Longrightarrow>
     authorizeNativeReviewDispatch promptDigest criteria mandate uuid a pending h now = Inr a' \<Longrightarrow>
     review_step criteria mandate now a a'"
| binds_child: "bindNativeReviewChild criteria mandate parent a h child now = Inr a' \<Longrightarrow>
     review_step criteria mandate now a a'"
| abandons: "review_step criteria mandate now a (abandonReviewDispatchByHostCall a h now)"
| closes_execution: "review_step criteria mandate now a (snd (abandonAndBlockByHostCall a h code ci now))"
| abandons_and_rearms: "fresh_attempt_id a uuid \<Longrightarrow>
     review_step criteria mandate now a (snd (abandonAndRearmByHostCall uuid a h now child))"
| rearms: "fresh_attempt_id a uuid \<Longrightarrow> spent \<in> set (as_attempts a) \<Longrightarrow>
     buildInterruptedDispatchRearm uuid a spent now = Inr (a', t) \<Longrightarrow> review_step criteria mandate now a a'"
| records: "captured_params a p \<Longrightarrow> uuid \<noteq> [] \<Longrightarrow> uuid \<notin> iv_invocationId ` set (as_invocations a) \<Longrightarrow>
     applyEvidenceMutation parsed expired pre_bind uuid a now p = Inr (r, a') \<Longrightarrow>
     review_step criteria mandate now a a'"
| rejects: "rejectNativeReviewCapture criteria mandate a h child code now = Inr a' \<Longrightarrow>
     review_step criteria mandate now a a'"
| blocks: "lock_allows a b code \<Longrightarrow> review_step criteria mandate now a (blockReviewOutcome a b code now)"
| rearms_incoherent: "fresh_attempt_id a uuid \<Longrightarrow>
     buildIncoherentCaptureRearm uuid a i now = Inr (a', t) \<Longrightarrow> review_step criteria mandate now a a'"
| consumes: "find_obligation a (ro_obligationId ob) = Some ob \<Longrightarrow> ro_status ob = Ob_fulfilled \<Longrightarrow>
     findAcceptedInvocationForFindings a (Some ob) findings = Some v \<Longrightarrow>
     review_step criteria mandate now a (consumeReviewObligation a (Some ob) now (Some (iv_invocationId v)))"
| reopens: "reopenUnknownOutcome a target = Inr a' \<Longrightarrow> review_step criteria mandate now a a'"
| releases_lock: "releaseTerminalCapacityLock a lock = Inr a' \<Longrightarrow> review_step criteria mandate now a a'"
| resolves: "fresh_attempt_id a uuid \<Longrightarrow>
     review_step criteria mandate now a (reopenReviewAfterAuthorResolution unaddressed uuid a now)"

inductive review_run :: "string \<Rightarrow> string \<Rightarrow> string \<Rightarrow> review_assurance \<Rightarrow> bool" for criteria mandate where
  review_start: "review_run criteria mandate [] emptyReviewAssurance"
| review_next: "review_run criteria mandate c a \<Longrightarrow> c \<le> now \<Longrightarrow> now \<noteq> [] \<Longrightarrow>
     review_step criteria mandate now a a' \<Longrightarrow> review_run criteria mandate now a'"

inductive_cases review_runE: "review_run criteria mandate c a"

lemma release_persists:
  "authorizeNativeReviewDispatch pd criteria mandate uuid a pending h now = Inr a' \<Longrightarrow>
     \<exists>i. persistAuthorizedReviewDispatch uuid a i = Inr a'"
  by (auto simp: authorizeNativeReviewDispatch_def split: option.splits)

lemma accepted_invocation:
  assumes "findAcceptedInvocationForFindings a (Some ob) findings = Some v"
  shows "v \<in> set (as_invocations a)" and "iv_obligationId v = ro_obligationId ob"
  using assms by (auto simp: findAcceptedInvocationForFindings_def split: option.splits dest: find_Some_in)

theorem step_state:
  assumes step: "review_step criteria mandate now a a'" and inv: "ledger_state c a"
    and c: "c \<le> now" "now \<noteq> []"
  shows "ledger_state now a'"
  using step inv
proof cases
  case (opens ob uuid)
  then show ?thesis using open_obligation_state [OF inv c] by (simp add: fresh_attempt_id_def)
next
  case (releases_task uuid pd pending h)
  then obtain i where "persistAuthorizedReviewDispatch uuid a i = Inr a'" using release_persists by blast
  then show ?thesis using persist_release_state [OF inv releases_task(1)] ledger_later c(1) by blast
next
  case (abandons h)
  show ?thesis
    using abandon_state [OF inv c, of h] ledger_later [OF inv c(1)]
    by (cases "authorized_release a h") (simp_all add: abandons abandonReviewDispatchByHostCall_def)
next
  case (records p uuid parsed expired pre_bind r)
  then show ?thesis using record_evidence_state [OF inv c] by blast
next
  case (consumes ob findings v)
  have "iv_obligationId i = ro_obligationId ob" if "i \<in> set (as_invocations a)" "iv_invocationId i = iv_invocationId v" for i
    using same_id [OF ledger_identities(2) [OF inv] that(1) accepted_invocation(1) [OF consumes(4)] that(2)]
      accepted_invocation(2) [OF consumes(4)] by simp
  then have "ledger_state c (consumeReviewObligation a (Some ob) now (Some (iv_invocationId v)))"
    by (intro consume_state [OF inv consumes(2,3) c(2)]) simp
  then show ?thesis using ledger_later [OF _ c(1)] by (simp add: consumes(1))
next
  case (binds_child parent h child)
  then show ?thesis using bind_native_child_state [OF inv] ledger_later [OF _ c(1)] by blast
next
  case (reopens target)
  then show ?thesis using reopen_unknown_state [OF inv] ledger_later [OF _ c(1)] by blast
next
  case (releases_lock l)
  then show ?thesis using release_lock_state [OF inv] ledger_later [OF _ c(1)] by blast
qed (use abandon_and_block_state [OF inv c] abandon_and_rearm_state [OF inv c] rearm_state [OF inv c]
    reject_capture_state [OF inv c] block_outcome_state [OF inv c] incoherent_rearm_state [OF inv c]
    author_resolution_state [OF inv c] in \<open>auto simp: fresh_attempt_id_def\<close>)

lemma empty_state: "ledger_state [] emptyReviewAssurance"
  by (simp add: ledger_state_def emptyReviewAssurance_def identities_def refineAssuranceIdentityUniqueness_def
    ordinals_state_def refineAssuranceCapacityLockCoherence_def)

lemma run_state: "review_run criteria mandate c a \<Longrightarrow> ledger_state c a"
  by (induction rule: review_run.induct) (use empty_state step_state in blast)+

section \<open>The re-arm budget\<close>

text \<open>What the budget reads of a ledger: the owners and origins of the attempts, and the obligations' budgets.\<close>

definition origins :: "review_assurance \<Rightarrow> (string \<times> attempt_origin) list" where
  "origins a = map (\<lambda>t. (at_obligationId t, at_origin t)) (as_attempts a)"

definition budgets :: "review_assurance \<Rightarrow> (string \<times> nat) list" where
  "budgets a = map (\<lambda>ob. (ro_obligationId ob, ro_maxReviewerAttempts ob)) (as_obligations a)"

definition rearm_count :: "(string \<times> attempt_origin) list \<Rightarrow> string \<Rightarrow> nat" where
  "rearm_count os b = length (filter (\<lambda>x. fst x = b \<and> is_rearm (snd x)) os)"

definition within_budget :: "review_assurance \<Rightarrow> bool" where
  "within_budget a = (\<forall>(b, m) \<in> set (budgets a). rearm_count (origins a) b \<le> m)"

lemma count_origins: "countReviewAttempts a b = rearm_count (origins a) b"
  by (simp add: countReviewAttempts_def rearm_count_def origins_def filter_map o_def)

lemma views_assurance [simp]:
  "origins (a\<lparr>as_dispatches := ds\<rparr>) = origins a" "budgets (a\<lparr>as_dispatches := ds\<rparr>) = budgets a"
  "origins (a\<lparr>as_invocations := vs\<rparr>) = origins a" "budgets (a\<lparr>as_invocations := vs\<rparr>) = budgets a"
  "origins (a\<lparr>as_capacityLock := l\<rparr>) = origins a" "budgets (a\<lparr>as_capacityLock := l\<rparr>) = budgets a"
  "origins (a\<lparr>as_obligations := obs\<rparr>) = origins a" "budgets (a\<lparr>as_attempts := ts\<rparr>) = budgets a"
  by (simp_all add: origins_def budgets_def)

lemma views_status [simp]:
  "origins (updateAttemptStatus a x st now child reason) = origins a"
  "budgets (updateAttemptStatus a x st now child reason) = budgets a"
  "origins (staleObligationAttempts a b e now) = origins a"
  "budgets (staleObligationAttempts a b e now) = budgets a"
  "origins (bindStaleChildSession a x ch) = origins a" "budgets (bindStaleChildSession a x ch) = budgets a"
  by (auto simp: origins_def budgets_def updateAttemptStatus_def staleObligationAttempts_def stale_other_def
    with_status_def bindStaleChildSession_def split: option.split)

lemma views_dispatch [simp]:
  "origins (markDispatchOutcomeUnknown (Some a) x) = origins a" "budgets (markDispatchOutcomeUnknown (Some a) x) = budgets a"
  "origins (abandonReviewDispatch (Some a) h) = origins a" "budgets (abandonReviewDispatch (Some a) h) = budgets a"
  "origins (completeReviewDispatch (Some a) h fin) = origins a" "budgets (completeReviewDispatch (Some a) h fin) = budgets a"
  "origins (appendReviewDispatch (Some a) d) = origins a" "budgets (appendReviewDispatch (Some a) d) = budgets a"
  "origins (appendInvocationEvidence a i) = origins a" "budgets (appendInvocationEvidence a i) = budgets a"
  "origins (appendReviewAttempt a t) = origins a @ [(at_obligationId t, at_origin t)]"
  "budgets (appendReviewAttempt a t) = budgets a"
  by (simp_all add: origins_def budgets_def markDispatchOutcomeUnknown_def abandonReviewDispatch_def
    completeReviewDispatch_def appendReviewDispatch_def appendInvocationEvidence_def ensureReviewAssurance_def
    Let_def appendReviewAttempt_def)

lemma views_obligation [simp]:
  "origins (updateObligation a b f) = origins a"
  "(\<And>ob. ro_obligationId (f ob) = ro_obligationId ob \<and> ro_maxReviewerAttempts (f ob) = ro_maxReviewerAttempts ob) \<Longrightarrow>
     budgets (updateObligation a b f) = budgets a"
  "origins (blockObligation a b code) = origins a" "budgets (blockObligation a b code) = budgets a"
  "origins (consumeReviewObligation a obo now x) = origins a" "budgets (consumeReviewObligation a obo now x) = budgets a"
  by (auto simp: origins_def budgets_def updateObligation_def blockObligation_def consumeReviewObligation_def Let_def
    split: option.split)

lemma views_fold [simp]:
  "origins (fold (abandon_open_release now) ds a) = origins a"
  "budgets (fold (abandon_open_release now) ds a) = budgets a"
proof -
  have "origins (abandon_open_release now d a) = origins a \<and> budgets (abandon_open_release now d a) = budgets a" for d a
    by (simp add: abandon_open_release_def Let_def split: option.split)
  then show "origins (fold (abandon_open_release now) ds a) = origins a"
    and "budgets (fold (abandon_open_release now) ds a) = budgets a" by (induction ds arbitrary: a) simp_all
qed

lemma budget_same: "origins a' = origins a \<Longrightarrow> budgets a' = budgets a \<Longrightarrow> within_budget a \<Longrightarrow> within_budget a'"
  by (simp add: within_budget_def)

lemma views_settle:
  "fulfillObligation a b x now = Inr a' \<Longrightarrow> origins a' = origins a \<and> budgets a' = budgets a"
  "blockObligationWithInvocation a b x code now = Inr a' \<Longrightarrow> origins a' = origins a \<and> budgets a' = budgets a"
  by (auto simp: fulfillObligation_def blockObligationWithInvocation_def split: option.splits if_splits)

lemma views_evidence:
  "applyEvidenceMutation parsed expired pre_bind uuid a now p = Inr (r, a') \<Longrightarrow>
     origins a' = origins a \<and> budgets a' = budgets a"
  by (auto simp: applyEvidenceMutation_def settleBoundEvidence_def Let_def split: if_splits option.splits sum.splits
    dest!: views_settle)

text \<open>A re-arm appends one re-arm attempt of an obligation whose budget it has checked.\<close>

lemma budget_rearm:
  assumes ids: "distinct (map fst (budgets a))" and ok: "within_budget a" and ob: "ob \<in> set (as_obligations a)"
    and room: "countReviewAttempts a (ro_obligationId ob) < ro_maxReviewerAttempts ob"
    and views: "origins a' = origins a @ [(ro_obligationId ob, g)]" "budgets a' = budgets a"
  shows "within_budget a'"
  unfolding within_budget_def views
proof safe
  fix b m assume bm: "(b, m) \<in> set (budgets a)"
  have "(ro_obligationId ob, ro_maxReviewerAttempts ob) \<in> set (budgets a)" using ob by (auto simp: budgets_def)
  then have "m = ro_maxReviewerAttempts ob" if b: "b = ro_obligationId ob"
    using eq_key_imp_eq_value [OF ids] bm b by blast
  then show "rearm_count (origins a @ [(ro_obligationId ob, g)]) b \<le> m"
    using room ok bm by (auto simp: rearm_count_def within_budget_def count_origins)
qed

lemma rearm_within_budget:
  assumes rearm: "buildInterruptedDispatchRearm uuid a spent now = Inr (a', t)"
    and ids: "distinct (map fst (budgets a))" and ok: "within_budget a"
  shows "within_budget a'"
proof -
  obtain ob g where g: "authorizeDispatchRearm a spent = Inr (ob, g)"
    and a': "a' = markDispatchOutcomeUnknown (Some (fst (createAttemptForExistingObligation uuid a ob None now g)))
        (at_attemptId spent)"
    using rearm by (auto simp: buildInterruptedDispatchRearm_def split: sum.splits prod.splits)
  have ob: "find_obligation a (at_obligationId spent) = Some ob"
      "countReviewAttempts a (ro_obligationId ob) < ro_maxReviewerAttempts ob"
    using g by (auto simp: authorizeDispatchRearm_def split: option.splits if_splits)
  show ?thesis
    by (rule budget_rearm [OF ids ok conjunct1 [OF find_obligationD [OF ob(1)]] ob(2), of _ g])
      (simp_all add: a' createAttemptForExistingObligation_def createReviewAttempt_def Let_def)
qed

lemma incoherent_within_budget:
  assumes rearm: "buildIncoherentCaptureRearm uuid a i now = Inr (a', t)"
    and ids: "distinct (map fst (budgets a))" and ok: "within_budget a"
  shows "within_budget a'"
proof -
  obtain ob v u where target: "resolveRearmTarget a i = Inr (ob, v, u)"
    and auth: "authorizeResolvedTarget a ob (in_maxRetries i) = None"
    and a': "a' = fst (createAttemptForExistingObligation uuid
        (updateObligation (updateAttemptStatus a (at_attemptId u) At_rejected now None (Some Consistency_invalid))
           (ro_obligationId ob) (\<lambda>_. reset_obligation ob))
        (reset_obligation ob) None now (Dispatch_rearm (at_attemptId u) Spent))"
    using rearm by (auto simp: buildIncoherentCaptureRearm_def Let_def split: sum.splits option.splits prod.splits)
  have ob: "ob \<in> set (as_obligations a)" using find_obligationD [OF rearm_targetD(1) [OF target]] by simp
  have same: "budgets (updateObligation a (ro_obligationId ob) (\<lambda>_. reset_obligation ob)) = budgets a"
  proof -
    have "(ro_obligationId o1, ro_maxReviewerAttempts o1) = (ro_obligationId ob, ro_maxReviewerAttempts ob)"
      if "o1 \<in> set (as_obligations a)" "ro_obligationId o1 = ro_obligationId ob" for o1
      using eq_key_imp_eq_value [OF ids] that ob unfolding budgets_def by force
    then show ?thesis by (auto simp: budgets_def updateObligation_def reset_obligation_def)
  qed
  then have same': "budgets (updateObligation (updateAttemptStatus a x At_rejected now None r) (ro_obligationId ob)
      (\<lambda>_. reset_obligation ob)) = budgets a" for x r
    by (simp add: budgets_def updateObligation_def updateAttemptStatus_def)
  show ?thesis
    by (rule budget_rearm [OF ids ok ob, of _ "Dispatch_rearm (at_attemptId u) Spent"])
      (use auth in \<open>auto simp: a' createAttemptForExistingObligation_def createReviewAttempt_def Let_def
        reset_obligation_def same' [unfolded reset_obligation_def] authorizeResolvedTarget_def split: if_splits\<close>)
qed

theorem step_budget:
  assumes step: "review_step criteria mandate now a a'" and ids: "distinct (map fst (budgets a))"
    and owned: "\<And>t. t \<in> set (as_attempts a) \<Longrightarrow> at_obligationId t \<in> fst ` set (budgets a)"
    and ok: "within_budget a"
  shows "within_budget a'"
  using step
proof cases
  case (opens ob uuid)
  have "rearm_count (origins a) (ro_obligationId ob) = 0"
  proof -
    have "at_obligationId t \<noteq> ro_obligationId ob" if "t \<in> set (as_attempts a)" for t
      using owned [OF that] opens(4) by (auto simp: budgets_def image_iff)
    then show ?thesis by (auto simp: rearm_count_def origins_def filter_empty_conv)
  qed
  moreover have "origins a' = origins a @ [(ro_obligationId ob, Initial)]"
      "budgets a' = budgets a @ [(ro_obligationId ob, ro_maxReviewerAttempts ob)]"
    by (simp_all add: opens(1) appendObligationAndInitialAttempt_def Let_def createReviewAttempt_def)
      (simp add: budgets_def staleObligationAttempts_def appendReviewAttempt_def)
  ultimately show ?thesis using ok unfolding within_budget_def by (auto simp: rearm_count_def)
next
  case (releases_task uuid pd pending h)
  then obtain i where "persistAuthorizedReviewDispatch uuid a i = Inr a'" using release_persists by blast
  then show ?thesis using ok
    by (auto simp: persistAuthorizedReviewDispatch_def split: if_splits existing_dispatch.splits elim!: budget_same [rotated 2])
next
  case (binds_child parent h child)
  then show ?thesis using ok
    by (auto simp: bindNativeReviewChild_def split: option.splits if_splits elim!: budget_same [rotated 2])
next
  case (abandons h)
  then show ?thesis using ok
    by (auto simp: abandonReviewDispatchByHostCall_def split: option.splits elim!: budget_same [rotated 2])
next
  case (closes_execution h code ci)
  have "origins a' = origins a \<and> budgets a' = budgets a"
    unfolding closes_execution abandonAndBlockByHostCall_def
    by (auto simp: blockedExecutionState_def Let_def split: option.split)
  then show ?thesis using ok budget_same by blast
next
  case (abandons_and_rearms uuid h child)
  show ?thesis
  proof (cases "\<exists>t. authorized_release a h = Some t")
    case True
    then obtain t where t: "authorized_release a h = Some t" by blast
    let ?s = "bindStaleChildSession (updateAttemptStatus (abandonReviewDispatch (Some a) h) (at_attemptId t) At_stale now
      None None) (at_attemptId t) child"
    have s: "within_budget ?s" "distinct (map fst (budgets ?s))" using budget_same [of ?s a] ok ids by simp_all
    then show ?thesis
      using rearm_within_budget [of uuid ?s _ now a'] ok
      by (auto simp: abandons_and_rearms(1) abandonAndRearmByHostCall_def t Let_def
        split: option.splits sum.splits intro: budget_same rearm_within_budget)
  qed (auto simp: abandons_and_rearms(1) abandonAndRearmByHostCall_def ok)
next
  case (rearms uuid spent t)
  show ?thesis by (rule rearm_within_budget [OF rearms(3) ids ok])
next
  case (records p uuid parsed expired pre_bind r)
  then show ?thesis using views_evidence budget_same ok by metis
next
  case (rejects h child code)
  then show ?thesis using ok
    by (auto simp: rejectNativeReviewCapture_def split: option.splits elim!: budget_same [rotated 2])
next
  case (blocks b code)
  then show ?thesis using ok by (auto simp: blockReviewOutcome_def Let_def elim!: budget_same [rotated 2])
next
  case (rearms_incoherent uuid i t)
  show ?thesis by (rule incoherent_within_budget [OF rearms_incoherent(2) ids ok])
next
  case (consumes ob findings v)
  then show ?thesis using ok by (auto elim!: budget_same [rotated 2])
next
  case (reopens target)
  then show ?thesis using ok
    by (auto simp: reopenUnknownOutcome_def split: prod.splits option.splits if_splits elim!: budget_same [rotated 2])
next
  case (releases_lock l)
  then show ?thesis using ok
    by (auto simp: releaseTerminalCapacityLock_def split: prod.splits option.splits if_splits elim!: budget_same [rotated 2])
next
  case (resolves uuid unaddressed)
  show ?thesis
  proof (cases "reopenReviewAfterAuthorResolution unaddressed uuid a now = a")
    case False
    then obtain l ob t b u where re: "buildInterruptedDispatchRearm uuid (pending_obligation a ob) t now = Inr (b, u)"
      and eq: "reopenReviewAfterAuthorResolution unaddressed uuid a now = b\<lparr>as_capacityLock := None\<rparr>"
      by (rule author_resolution_effect)
    have "within_budget (pending_obligation a ob)" "distinct (map fst (budgets (pending_obligation a ob)))"
      using budget_same [of "pending_obligation a ob" a] ok ids by simp_all
    from rearm_within_budget [OF re this(2,1)] show ?thesis using budget_same [of a' b] by (simp add: resolves(1) eq)
  qed (simp add: resolves(1) ok)
qed

lemma state_owners:
  assumes "ledger_state c a"
  shows "distinct (map fst (budgets a))"
    and "\<And>t. t \<in> set (as_attempts a) \<Longrightarrow> at_obligationId t \<in> fst ` set (budgets a)"
  using ledger_identities(3) [OF assms] ledger_stateD(4) [OF assms]
  by (force simp: budgets_def o_def attempt_authority_def)+

lemma run_budget: "review_run criteria mandate c a \<Longrightarrow> within_budget a"
proof (induction rule: review_run.induct)
  case review_start
  then show ?case by (simp add: within_budget_def emptyReviewAssurance_def budgets_def)
next
  case (review_next c a now a')
  show ?case
    by (rule step_budget [OF review_next.hyps(4)])
      (use state_owners [OF run_state [OF review_next.hyps(1)]] review_next.IH in auto)
qed

text \<open>Apart from the initial attempt, every attempt of an obligation is a re-arm.\<close>

lemma attempts_bounded:
  assumes inv: "ledger_state c a"
  shows "length (attempts_of (as_attempts a) b) \<le> Suc (countReviewAttempts a b)"
proof -
  let ?ts = "attempts_of (as_attempts a) b"
  have first: "length (filter (\<lambda>t. at_ordinal t = 1) ?ts) \<le> 1"
  proof -
    have "map at_ordinal ?ts = [1..<Suc (length ?ts)]"
      using ledger_stateD(2) [OF inv] by (simp add: ordinals_state_def)
    then have "distinct (map at_ordinal ?ts)" by simp
    then have "distinct (map at_ordinal (filter (\<lambda>t. at_ordinal t = 1) ?ts))" by (rule distinct_map_filter)
    then have "card (at_ordinal ` set (filter (\<lambda>t. at_ordinal t = 1) ?ts)) = length (filter (\<lambda>t. at_ordinal t = 1) ?ts)"
      using distinct_card by fastforce
    moreover have "card (at_ordinal ` set (filter (\<lambda>t. at_ordinal t = 1) ?ts)) \<le> card {1::nat}"
      by (rule card_mono) auto
    ultimately show ?thesis by simp
  qed
  have "filter (\<lambda>t. \<not> is_rearm (at_origin t)) ?ts = filter (\<lambda>t. at_ordinal t = 1) ?ts"
  proof (rule filter_cong [OF refl])
    fix t assume "t \<in> set ?ts"
    then have "lineage_state a t" using ledger_stateD(5) [OF inv] by simp
    then show "(\<not> is_rearm (at_origin t)) = (at_ordinal t = 1)" by (cases "at_origin t") (auto simp: lineage_state_def)
  qed
  then have "length (filter (\<lambda>t. \<not> is_rearm (at_origin t)) ?ts) \<le> 1" using first by simp
  moreover have "countReviewAttempts a b = length (filter (\<lambda>t. is_rearm (at_origin t)) ?ts)"
    by (simp add: countReviewAttempts_def conj_commute)
  ultimately show ?thesis using sum_length_filter_compl [of "\<lambda>t. is_rearm (at_origin t)" ?ts] by simp
qed

lemma distinct_owners:
  assumes inv: "ledger_state c a"
  shows "distinct (map rd_attemptId (as_dispatches a))" and "distinct (map iv_attemptId (as_invocations a))"
proof -
  have one: "length (releases a x) \<le> 1 \<and> length (evidence a x) \<le> 1" for x
  proof (cases "x \<in> at_attemptId ` set (as_attempts a)")
    case True
    then obtain t where "t \<in> set (as_attempts a)" "x = at_attemptId t" by blast
    then show ?thesis
      using state_of_attempt [OF inv, of t]
      by (auto simp: attempt_state_def linked_def unlinked_def split: attempt_status.splits)
  qed (simp add: no_owner [OF inv])
  show "distinct (map rd_attemptId (as_dispatches a))" and "distinct (map iv_attemptId (as_invocations a))"
    by (rule distinct_by_class, use one in blast)+
qed

lemma releases_bounded:
  assumes inv: "ledger_state c a"
  shows "length (filter (\<lambda>d. rd_obligationId d = b) (as_dispatches a)) \<le> length (attempts_of (as_attempts a) b)"
proof -
  let ?ds = "filter (\<lambda>d. rd_obligationId d = b) (as_dispatches a)"
  have "distinct (map rd_attemptId ?ds)" by (rule distinct_map_filter [OF distinct_owners(1) [OF inv]])
  then have "length ?ds = card (rd_attemptId ` set ?ds)" using distinct_card by fastforce
  also have "\<dots> \<le> card (set (map at_attemptId (attempts_of (as_attempts a) b)))"
  proof (rule card_mono)
    show "rd_attemptId ` set ?ds \<subseteq> set (map at_attemptId (attempts_of (as_attempts a) b))"
    proof
      fix x assume "x \<in> rd_attemptId ` set ?ds"
      then obtain d where d: "d \<in> set (as_dispatches a)" "rd_obligationId d = b" "x = rd_attemptId d" by auto
      then obtain t where t: "t \<in> set (as_attempts a)" "at_attemptId t = x"
        using ledger_stateD(1) [OF inv] by (auto simp: identities_def)
      then have "at_obligationId t = b" using state_of_attempt [OF inv t(1)] d by (auto simp: attempt_state_def)
      then show "x \<in> set (map at_attemptId (attempts_of (as_attempts a) b))" using t by auto
    qed
  qed simp
  also have "\<dots> \<le> length (attempts_of (as_attempts a) b)" using card_length [of "map at_attemptId (attempts_of (as_attempts a) b)"] by simp
  finally show ?thesis .
qed

section \<open>The next legal step\<close>

lemma latest_obligationD:
  "findLatestReviewObligation obs ty = Some ob \<Longrightarrow> ob \<in> set obs \<and> ro_obligationType ob = ty"
  by (auto simp: findLatestReviewObligation_def dest: find_Some_in)

lemma bindableD:
  assumes "findBindableAttempt a b = Some t"
  shows "t \<in> set (as_attempts a)" and "at_obligationId t = b" and "at_status t = At_created"
    and "\<not> truthy (at_childSessionId t)"
proof -
  have "filter (\<lambda>t. at_obligationId t = b \<and> at_status t = At_created \<and> \<not> truthy (at_childSessionId t)) (as_attempts a) = [t]"
    using assms by (auto simp: findBindableAttempt_def split: list.splits)
  then have "t \<in> set (filter (\<lambda>t. at_obligationId t = b \<and> at_status t = At_created \<and> \<not> truthy (at_childSessionId t))
      (as_attempts a))" by simp
  then show "t \<in> set (as_attempts a)" and "at_obligationId t = b" and "at_status t = At_created"
    and "\<not> truthy (at_childSessionId t)" by simp_all
qed

lemma foldl_later: "foldl later_attempt t ts \<in> insert t (set ts)"
  by (induction ts arbitrary: t) (auto simp: later_attempt_def)

lemma spent_staleD:
  assumes "findSpentStaleAttempt a b = Some t"
  shows "t \<in> set (as_attempts a)" and "at_obligationId t = b" and "at_status t = At_stale"
    and "\<exists>d \<in> set (releases a (at_attemptId t)). rd_status d = Di_outcome_unknown"
proof -
  let ?P = "\<lambda>t. at_obligationId t = b \<and> at_status t = At_stale \<and>
    list_ex (\<lambda>d. rd_attemptId d = at_attemptId t \<and> rd_status d = Di_outcome_unknown) (as_dispatches a)"
  obtain u us where us: "filter ?P (as_attempts a) = u # us" "t = foldl later_attempt u us"
    using assms by (auto simp: findSpentStaleAttempt_def split: list.splits)
  have "t \<in> set (filter ?P (as_attempts a))" using foldl_later [of u us] by (simp add: us)
  then show "t \<in> set (as_attempts a)" and "at_obligationId t = b" and "at_status t = At_stale"
    and "\<exists>d \<in> set (releases a (at_attemptId t)). rd_status d = Di_outcome_unknown"
    by (auto simp: list_ex_iff)
qed

text \<open>After a re-arm the minted attempt is the only bindable one, and it was not released.\<close>

lemma rearmed_bindable:
  assumes inv: "ledger_state c a" and fresh: "fresh_attempt_id a uuid"
    and rearm: "buildInterruptedDispatchRearm uuid a spent now = Inr (a', t)"
  shows "findBindableAttempt a' (at_obligationId spent) = Some t" and "at_attemptId t = uuid"
    and "\<not> hasReleasedDispatch (Some a') uuid"
    and "as_obligations a' = as_obligations a" and "superseded a' (at_attemptId spent)"
proof -
  obtain ob g where g: "authorizeDispatchRearm a spent = Inr (ob, g)"
    and new: "(fst (createAttemptForExistingObligation uuid a ob None now g), t) =
        createAttemptForExistingObligation uuid a ob None now g"
    and a': "a' = markDispatchOutcomeUnknown (Some (fst (createAttemptForExistingObligation uuid a ob None now g)))
        (at_attemptId spent)"
    using rearm by (auto simp: buildInterruptedDispatchRearm_def split: sum.splits prod.splits)
  have "find_obligation a (at_obligationId spent) = Some ob"
    using g by (auto simp: authorizeDispatchRearm_def split: option.splits if_splits)
  then have b: "ro_obligationId ob = at_obligationId spent" using find_obligationD by blast
  have t: "at_attemptId t = uuid" "at_obligationId t = at_obligationId spent" "at_status t = At_created"
      "at_childSessionId t = None"
    using new b by (auto simp: createAttemptForExistingObligation_def createReviewAttempt_def Let_def)
  have atts: "as_attempts a' = map (stale_other (at_obligationId spent) uuid now) (as_attempts a) @ [t]"
    using new b by (auto simp: a' createAttemptForExistingObligation_def createReviewAttempt_def Let_def
      markDispatchOutcomeUnknown_def ensureReviewAssurance_def staleObligationAttempts_def appendReviewAttempt_def
      stale_other_def)
  have "\<exists>w. g = Dispatch_rearm (at_attemptId spent) w"
    using g by (auto simp: authorizeDispatchRearm_def split: option.splits if_splits)
  then have "\<exists>w. at_origin t = Dispatch_rearm (at_attemptId spent) w"
    using new by (auto simp: createAttemptForExistingObligation_def createReviewAttempt_def Let_def)
  then show "superseded a' (at_attemptId spent)" by (auto simp: superseded_def atts)
  have "filter (\<lambda>t. at_obligationId t = at_obligationId spent \<and> at_status t = At_created \<and> \<not> truthy (at_childSessionId t))
      (map (stale_other (at_obligationId spent) uuid now) (as_attempts a)) = []"
    using fresh by (auto simp: filter_empty_conv stale_other_def fresh_attempt_id_def image_iff)
  then show "findBindableAttempt a' (at_obligationId spent) = Some t"
    using t by (simp add: findBindableAttempt_def atts truthy_def)
  show "at_attemptId t = uuid" by (rule t)
  have ds: "map rd_attemptId (as_dispatches a') = map rd_attemptId (as_dispatches a)"
    by (simp add: a' createAttemptForExistingObligation_def Let_def markDispatchOutcomeUnknown_def
      ensureReviewAssurance_def staleObligationAttempts_def appendReviewAttempt_def o_def if_distrib cong: if_cong)
  have "rd_attemptId d \<noteq> uuid" if "d \<in> set (as_dispatches a)" for d
    using ledger_stateD(1) [OF inv] that fresh by (auto simp: identities_def fresh_attempt_id_def)
  then have "uuid \<notin> set (map rd_attemptId (as_dispatches a'))" unfolding ds by auto
  then show "\<not> hasReleasedDispatch (Some a') uuid"
    by (auto simp: hasReleasedDispatch_def list_ex_iff image_iff)
  show "as_obligations a' = as_obligations a"
    by (simp add: a' createAttemptForExistingObligation_def Let_def markDispatchOutcomeUnknown_def
      ensureReviewAssurance_def staleObligationAttempts_def appendReviewAttempt_def)
qed

lemma find_pending:
  assumes "ledger_state c a" and "ob \<in> set (as_obligations a)"
  shows "find_obligation a (ro_obligationId ob) = Some ob"
  using find_by_id [OF ledger_identities(3) [OF assms(1)]] assms(2) by (simp add: find_obligation_def)

lemma find_attempt_id:
  assumes "ledger_state c a" and "t \<in> set (as_attempts a)"
  shows "find_attempt a (at_attemptId t) = Some t"
  using find_by_id [OF ledger_identities(1) [OF assms(1)]] assms(2) by (simp add: find_attempt_def)

lemma attempt_subject:
  assumes inv: "ledger_state c a" and "t \<in> set (as_attempts a)" "ob \<in> set (as_obligations a)"
    and "at_obligationId t = ro_obligationId ob"
  shows "at_subjectDigest t = ro_subjectDigest ob"
proof -
  obtain o1 where o1: "o1 \<in> set (as_obligations a)" "ro_obligationId o1 = at_obligationId t"
      "ro_subjectDigest o1 = at_subjectDigest t"
    using ledger_stateD(4) [OF inv assms(2)] by (auto simp: attempt_authority_def)
  then have "o1 = ob" using same_id [OF ledger_identities(3) [OF inv] o1(1) assms(3)] assms(4) by simp
  then show ?thesis using o1 by simp
qed

text \<open>A bound child is never the empty string: the attempt lost its child only if it never had one.\<close>

lemma awaiting_taskD:
  assumes "resolveReviewContinuation hash a ty = Awaiting_task ob x"
  shows "ob \<in> set (as_obligations a)" and "ro_status ob = Ob_pending"
    and "\<exists>t. findBindableAttempt a (ro_obligationId ob) = Some t \<and> at_attemptId t = x" and "\<not> hasReleasedDispatch (Some a) x"
  using assms
  by (auto simp: resolveReviewContinuation_def split: option.splits if_splits dest: latest_obligationD)

lemma interruptedD:
  assumes "resolveReviewContinuation hash a ty = Interrupted_dispatch ob x"
  shows "findLatestReviewObligation (as_obligations a) ty = Some ob" and "ro_status ob = Ob_pending"
    and "(\<exists>t. findBindableAttempt a (ro_obligationId ob) = Some t \<and> at_attemptId t = x \<and> hasReleasedDispatch (Some a) x) \<or>
         (\<exists>t. findSpentStaleAttempt a (ro_obligationId ob) = Some t \<and> at_attemptId t = x)"
  using assms
  by (auto simp: resolveReviewContinuation_def split: option.splits if_splits)

section \<open>A sample run\<close>

text \<open>An obligation is opened, its attempt is released, the host call is abandoned and the attempt re-armed.\<close>

definition run_opened :: review_assurance where
  "run_opened = appendObligationAndInitialAttempt ''a1'' emptyReviewAssurance sample_obligation ''t1''"

definition run_release :: dispatch_input where
  "run_release = \<lparr>di_attemptId = ''a1'', di_obligationId = ''o1'', di_hostCallId = ''h1'',
     di_canonicalPromptDigest = ''p'', di_authorizedAt = ''t2''\<rparr>"

definition run_released :: review_assurance where
  "run_released = appendReviewDispatch (Some run_opened) (authorized_record ''d1'' run_release)"

definition run_rearmed :: review_assurance where
  "run_rearmed = snd (abandonAndRearmByHostCall ''a2'' run_released ''h1'' ''t3'' None)"

lemmas run_defs = run_opened_def run_released_def run_rearmed_def run_release_def sample_obligation_def
  emptyReviewAssurance_def appendObligationAndInitialAttempt_def createReviewAttempt_def appendReviewAttempt_def
  staleObligationAttempts_def stale_other_def appendReviewDispatch_def ensureReviewAssurance_def authorized_record_def
  authorizeNativeReviewDispatch_def pendingAttempt_def find_obligation_def find_attempt_def findBindableAttempt_def
  isCurrentReviewGeneration_def assertReleaseAvailable_def superseded_def persistAuthorizedReviewDispatch_def
  assertDispatchAuthorizable_def resolveExistingDispatchForCall_def hasReleasedDispatch_def truthy_def
  abandonAndRearmByHostCall_def authorized_release_def bindStaleChildSession_def updateAttemptStatus_def with_status_def
  abandonReviewDispatch_def buildInterruptedDispatchRearm_def authorizeDispatchRearm_def countReviewAttempts_def
  dispatchRearmTrigger_def createAttemptForExistingObligation_def markDispatchOutcomeUnknown_def

lemma run_opened: "review_run ''c'' ''m'' ''t1'' run_opened"
  unfolding run_opened_def
  by (rule review_next [OF review_start _ _ opens])
    (simp_all add: sample_obligation_def fresh_obligation_def refineReviewCycleCoherence_def emptyReviewAssurance_def
      fresh_attempt_id_def)

lemma run_released: "review_run ''c'' ''m'' ''t2'' run_released"
proof (rule review_next [OF run_opened])
  show "review_step ''c'' ''m'' ''t2'' run_opened run_released"
  proof (rule releases_task)
    show "authorizeNativeReviewDispatch (\<lambda>_ _. ''p'') ''c'' ''m'' ''d1'' run_opened [(''o1'', ''a1'')] ''h1'' ''t2'' = Inr run_released"
      by (simp add: run_defs)
  qed (simp add: run_defs)
qed (simp_all add: less_char_def)

lemma run_rearmed: "review_run ''c'' ''m'' ''t3'' run_rearmed"
  unfolding run_rearmed_def
  by (rule review_next [OF run_released _ _ abandons_and_rearms])
    (simp_all add: run_defs fresh_attempt_id_def less_char_def)

section \<open>Properties\<close>



text \<open>(C6). In every reachable ledger an attempt has been released to the host at most once and carries at
  most one evidence record, and every evidence record belongs to exactly one release, a completed one of the
  same attempt with the same host call and prompt.\<close>

theorem released_at_most_once:
  assumes run: "review_run criteria mandate c a"
  shows "distinct (map rd_attemptId (as_dispatches a)) \<and> distinct (map iv_attemptId (as_invocations a)) \<and>
    (\<forall>v \<in> set (as_invocations a). \<exists>!d. d \<in> set (as_dispatches a) \<and> rd_attemptId d = iv_attemptId v \<and>
       rd_status d = Di_completed \<and> dispatchLinksInvocation d v)"
proof (intro conjI ballI)
  note inv = run_state [OF run]
  show "distinct (map rd_attemptId (as_dispatches a))" by (rule distinct_owners(1) [OF inv])
  show "distinct (map iv_attemptId (as_invocations a))" by (rule distinct_owners(2) [OF inv])
  fix v assume v: "v \<in> set (as_invocations a)"
  then obtain t where t: "t \<in> set (as_attempts a)" "at_attemptId t = iv_attemptId v"
    using ledger_stateD(6) [OF inv v] by (auto simp: invocation_state_def)
  have ve: "v \<in> set (evidence a (at_attemptId t))" using v t by simp
  then have "linked (releases a (at_attemptId t)) (evidence a (at_attemptId t)) t"
    using attempt_state_releases(5) [OF state_of_attempt [OF inv t(1)]] by blast
  then obtain d i where d: "releases a (at_attemptId t) = [d]" "rd_status d = Di_completed" "dispatchLinksInvocation d i"
    and es: "evidence a (at_attemptId t) = [i]"
    unfolding linked_def by blast
  have vi: "i = v" using ve unfolding es by simp
  have "d \<in> set (releases a (at_attemptId t))" unfolding d(1) by simp
  moreover have "e = d" if "e \<in> set (as_dispatches a)" "rd_attemptId e = iv_attemptId v" for e
  proof -
    have "e \<in> set (releases a (at_attemptId t))" using that t by simp
    then show ?thesis unfolding d(1) by simp
  qed
  ultimately show "\<exists>!d. d \<in> set (as_dispatches a) \<and> rd_attemptId d = iv_attemptId v \<and>
      rd_status d = Di_completed \<and> dispatchLinksInvocation d v"
    using d t vi by (intro ex1I [of _ d]) auto
qed

lemma released_at_most_once_witness: "distinct (map rd_attemptId (as_dispatches run_rearmed))"
  using released_at_most_once [OF run_rearmed] by (rule conjunct1)

text \<open>(C7). The frozen re-arm budget bounds the work on an obligation: a reachable ledger holds at most
  \<open>maxReviewerAttempts\<close> re-arms of it, hence at most one more attempts and at most that many releases.\<close>

theorem reviewer_runs_bounded:
  assumes run: "review_run criteria mandate c a" and ob: "ob \<in> set (as_obligations a)"
  shows "countReviewAttempts a (ro_obligationId ob) \<le> ro_maxReviewerAttempts ob \<and>
    length (filter (\<lambda>t. at_obligationId t = ro_obligationId ob) (as_attempts a)) \<le> Suc (ro_maxReviewerAttempts ob) \<and>
    length (filter (\<lambda>d. rd_obligationId d = ro_obligationId ob) (as_dispatches a)) \<le> Suc (ro_maxReviewerAttempts ob)"
proof -
  note inv = run_state [OF run]
  let ?b = "ro_obligationId ob"
  have budget: "countReviewAttempts a ?b \<le> ro_maxReviewerAttempts ob"
    using run_budget [OF run] ob by (auto simp: within_budget_def budgets_def count_origins)
  have attempts: "length (attempts_of (as_attempts a) ?b) \<le> Suc (ro_maxReviewerAttempts ob)"
    using attempts_bounded [OF inv, of ?b] budget by simp
  moreover have "length (filter (\<lambda>d. rd_obligationId d = ?b) (as_dispatches a)) \<le> length (attempts_of (as_attempts a) ?b)"
    by (rule releases_bounded [OF inv])
  ultimately show ?thesis using budget by simp
qed

lemma reviewer_runs_bounded_witness:
  "countReviewAttempts run_rearmed ''o1'' \<le> 2"
  using reviewer_runs_bounded [OF run_rearmed, of sample_obligation] by (simp add: run_defs Let_def)

text \<open>(C9). When the runtime announces that an obligation of the current review generation awaits its task,
  the dispatch authority resolves to exactly that obligation and attempt, the attempt was never released, and
  authorising its native release under a new host call succeeds whenever the release fence is open.\<close>

theorem awaited_task_authorized:
  assumes run: "review_run criteria mandate c a" and ty: "resolveReviewContinuation hash a ty = Awaiting_task ob x"
    and gen: "isCurrentReviewGeneration criteria mandate ob"
  shows "\<exists>t. at_attemptId t = x \<and>
    resolveReviewDispatchAuthority criteria mandate a (ro_obligationId ob) = Some (ob, t) \<and>
    pendingAttempt criteria mandate a [(ro_obligationId ob, x)] =
      (if assertReleaseAvailable a x then Some (ob, t) else None) \<and>
    (at_childSessionId t = None \<and> assertReleaseAvailable a x \<and> h \<notin> rd_hostCallId ` set (as_dispatches a) \<longrightarrow>
      (\<exists>d. rd_attemptId d = x \<and> rd_hostCallId d = h \<and> rd_status d = Di_authorized \<and>
         authorizeNativeReviewDispatch promptDigest criteria mandate uuid a [(ro_obligationId ob, x)] h now =
           Inr (a\<lparr>as_dispatches := as_dispatches a @ [d]\<rparr>)))"
proof -
  note inv = run_state [OF run] and D = awaiting_taskD [OF ty]
  obtain t where t: "findBindableAttempt a (ro_obligationId ob) = Some t" "at_attemptId t = x" using D(3) by blast
  note bD = bindableD [OF t(1)]
  have f: "find_obligation a (ro_obligationId ob) = Some ob" by (rule find_pending [OF inv D(1)])
  have sub: "at_subjectDigest t = ro_subjectDigest ob" by (rule attempt_subject [OF inv bD(1) D(1) bD(2)])
  have ft: "find_attempt a x = Some t" using find_attempt_id [OF inv bD(1)] t(2) by simp
  have pend: "pendingAttempt criteria mandate a [(ro_obligationId ob, x)] =
      (if assertReleaseAvailable a x then Some (ob, t) else None)"
    by (simp add: pendingAttempt_def f t gen D(2))
  have auth: "resolveReviewDispatchAuthority criteria mandate a (ro_obligationId ob) = Some (ob, t)"
    using D(2,4) bD sub t(2) by (simp add: resolveReviewDispatchAuthority_def f t(1) gen)
  have rel: "\<exists>d. rd_attemptId d = x \<and> rd_hostCallId d = h \<and> rd_status d = Di_authorized \<and>
         authorizeNativeReviewDispatch promptDigest criteria mandate uuid a [(ro_obligationId ob, x)] h now =
           Inr (a\<lparr>as_dispatches := as_dispatches a @ [d]\<rparr>)"
    if fence: "assertReleaseAvailable a x" and h: "h \<notin> rd_hostCallId ` set (as_dispatches a)" and ch: "at_childSessionId t = None"
  proof -
    let ?i = "\<lparr>di_attemptId = x, di_obligationId = ro_obligationId ob, di_hostCallId = h,
      di_canonicalPromptDigest = promptDigest ob t, di_authorizedAt = now\<rparr>"
    have none: "filter (\<lambda>d. rd_hostCallId d = h) (as_dispatches a) = []" using h by (auto simp: filter_empty_conv)
    have "\<not> list_ex (\<lambda>d. rd_attemptId d = x \<and> rd_status d = Di_authorized) (as_dispatches a)"
      using fence by (auto simp: assertReleaseAvailable_def list_ex_iff)
    then have "persistAuthorizedReviewDispatch uuid a ?i = Inr (appendReviewDispatch (Some a) (authorized_record uuid ?i))"
      using fence ch bD D(2) t(2)
      by (simp add: persistAuthorizedReviewDispatch_def assertDispatchAuthorizable_def f ft none
        resolveExistingDispatchForCall_def assertReleaseAvailable_def)
    then show ?thesis
      using fence t(2) by (intro exI [of _ "authorized_record uuid ?i"])
        (simp add: authorizeNativeReviewDispatch_def pend authorized_record_def appendReviewDispatch_def
          ensureReviewAssurance_def)
  qed
  show ?thesis by (intro exI [of _ t] conjI impI; (elim conjE)?) (fact t(2), fact auth, fact pend, rule rel)
qed

lemma awaited_task_authorized_witness:
  "\<exists>t. at_attemptId t = ''a1'' \<and> resolveReviewDispatchAuthority ''c'' ''m'' run_opened ''o1'' = Some (sample_obligation, t)"
proof -
  have cont: "resolveReviewContinuation id run_opened Ob_plan = Awaiting_task sample_obligation ''a1''"
    by (simp add: run_defs resolveReviewContinuation_def findLatestReviewObligation_def)
  have gen: "isCurrentReviewGeneration ''c'' ''m'' sample_obligation" and id: "ro_obligationId sample_obligation = ''o1''"
    by (simp_all add: sample_obligation_def isCurrentReviewGeneration_def)
  show ?thesis using awaited_task_authorized [OF run_opened cont gen, unfolded id] by blast
qed

text \<open>(C8). When the runtime announces an interrupted dispatch, re-arming the announced attempt with a fresh
  id either succeeds, and then the same obligation awaits the task of the fresh attempt and the spent attempt no
  longer closes the release fence, or fails because the frozen re-arm budget is used up, and for no other reason.\<close>

theorem interrupted_task_rearms:
  assumes run: "review_run criteria mandate c a" and ty: "resolveReviewContinuation hash a ty = Interrupted_dispatch ob x"
    and fresh: "fresh_attempt_id a uuid"
  shows "\<exists>spent \<in> set (as_attempts a). at_attemptId spent = x \<and>
    (case buildInterruptedDispatchRearm uuid a spent now of
       Inl e \<Rightarrow> e = Budget_exhausted \<and> countReviewAttempts a (ro_obligationId ob) = ro_maxReviewerAttempts ob
     | Inr (a', t) \<Rightarrow> resolveReviewContinuation hash a' ty = Awaiting_task ob uuid \<and> superseded a' x)"
proof -
  note inv = run_state [OF run] and D = interruptedD [OF ty]
  have ob: "ob \<in> set (as_obligations a)" using latest_obligationD [OF D(1)] by simp
  have "\<exists>t. t \<in> set (as_attempts a) \<and> at_attemptId t = x \<and> at_obligationId t = ro_obligationId ob \<and>
      dispatchRearmTrigger a t \<noteq> None"
    using D(3)
  proof (elim disjE exE conjE)
    fix t assume t: "findBindableAttempt a (ro_obligationId ob) = Some t" "at_attemptId t = x" "hasReleasedDispatch (Some a) x"
    note bD = bindableD [OF t(1)]
    obtain d where d: "d \<in> set (releases a (at_attemptId t))" using t(2,3) by (auto simp: hasReleasedDispatch_def list_ex_iff)
    then have "rd_status d = Di_authorized"
      using state_of_attempt [OF inv bD(1)] bD(3) by (auto simp: attempt_state_def unlinked_def)
    then have "dispatchRearmTrigger a t \<noteq> None"
      using bD(3) d by (auto simp: dispatchRearmTrigger_def Let_def list_ex_iff)
    then show ?thesis using bD t(2) by blast
  next
    fix t assume t: "findSpentStaleAttempt a (ro_obligationId ob) = Some t" "at_attemptId t = x"
    note sD = spent_staleD [OF t(1)]
    have "dispatchRearmTrigger a t \<noteq> None"
      using sD(3,4) by (auto simp: dispatchRearmTrigger_def Let_def list_ex_iff)
    then show ?thesis using sD t(2) by blast
  qed
  then obtain t where t: "t \<in> set (as_attempts a)" "at_attemptId t = x" "at_obligationId t = ro_obligationId ob"
    and trigger: "dispatchRearmTrigger a t \<noteq> None" by blast
  have f: "find_obligation a (at_obligationId t) = Some ob" using find_pending [OF inv ob] t(3) by simp
  have max: "countReviewAttempts a (ro_obligationId ob) \<le> ro_maxReviewerAttempts ob"
    using run_budget [OF run] ob by (auto simp: within_budget_def budgets_def count_origins)
  show ?thesis
  proof (intro bexI [of _ t] conjI)
    show "case buildInterruptedDispatchRearm uuid a t now of
       Inl e \<Rightarrow> e = Budget_exhausted \<and> countReviewAttempts a (ro_obligationId ob) = ro_maxReviewerAttempts ob
     | Inr (a', t) \<Rightarrow> resolveReviewContinuation hash a' ty = Awaiting_task ob uuid \<and> superseded a' x"
    proof (cases "buildInterruptedDispatchRearm uuid a t now")
      case (Inl e)
      then show ?thesis
        using trigger max D(2) f
        by (auto simp: buildInterruptedDispatchRearm_def authorizeDispatchRearm_def split: if_splits prod.splits)
    next
      case (Inr r)
      obtain a' n where r: "r = (a', n)" by (cases r)
      note R = rearmed_bindable [OF inv fresh Inr [unfolded r]]
      show ?thesis
        using R t(2,3) D(1,2) by (simp add: Inr r resolveReviewContinuation_def)
    qed
  qed (use t in simp_all)
qed

lemma interrupted_task_rearms_witness:
  "\<exists>spent \<in> set (as_attempts run_released). at_attemptId spent = ''a1'' \<and>
    (case buildInterruptedDispatchRearm ''a2'' run_released spent ''t3'' of
       Inl e \<Rightarrow> e = Budget_exhausted \<and>
         countReviewAttempts run_released (ro_obligationId sample_obligation) = ro_maxReviewerAttempts sample_obligation
     | Inr (a', t) \<Rightarrow> resolveReviewContinuation id a' Ob_plan = Awaiting_task sample_obligation ''a2'' \<and> superseded a' ''a1'')"
  by (rule interrupted_task_rearms [OF run_released])
    (simp_all add: run_defs resolveReviewContinuation_def findLatestReviewObligation_def fresh_attempt_id_def)

section \<open>Releasing a capacity lock\<close>

lemma recoverable_targetD:
  assumes "recoverableCapacityTarget a = Some (l, ob, t)"
  shows "as_capacityLock a = Some l" and "find_obligation a (cl_obligationId l) = Some ob" and "ro_status ob = Ob_blocked"
    and "filter (\<lambda>t. at_status t = At_stale) (attempts_of (as_attempts a) (ro_obligationId ob)) = [t]"
    and "\<And>u. u \<in> set (as_attempts a) \<Longrightarrow> at_obligationId u = ro_obligationId ob \<Longrightarrow>
      at_status u \<noteq> At_created \<and> (\<forall>g. at_origin u \<noteq> Dispatch_rearm (at_attemptId t) g)"
    and "\<exists>d \<in> set (as_dispatches a). rd_attemptId d = at_attemptId t \<and> rd_status d = Di_outcome_unknown"
proof -
  let ?ts = "attempts_of (as_attempts a) (ro_obligationId ob)"
  let ?ds = "filter (\<lambda>d. rd_obligationId d = ro_obligationId ob) (as_dispatches a)"
  have parts: "recoverableCapacityLock a = Some l" "lockedCapacityObligation a l = Some ob"
      "terminalCapacityAttempt ?ts = Some t" "\<not> hasSuccessorAttempt ?ts (at_attemptId t)"
      "\<exists>d. filter (\<lambda>d. rd_attemptId d = at_attemptId t) ?ds = [d] \<and> rd_status d = Di_outcome_unknown"
    using assms by (auto simp: recoverableCapacityTarget_def Let_def simp del: filter_filter
      split: option.splits if_splits list.splits)
  show "as_capacityLock a = Some l" using parts(1) by (auto simp: recoverableCapacityLock_def split: option.splits if_splits)
  show "find_obligation a (cl_obligationId l) = Some ob" and "ro_status ob = Ob_blocked"
    using parts(2) by (auto simp: lockedCapacityObligation_def split: option.splits if_splits)
  show "filter (\<lambda>t. at_status t = At_stale) ?ts = [t]"
    using parts(3) by (auto simp: terminalCapacityAttempt_def simp del: filter_filter split: list.splits if_splits)
  show "at_status u \<noteq> At_created \<and> (\<forall>g. at_origin u \<noteq> Dispatch_rearm (at_attemptId t) g)"
    if "u \<in> set (as_attempts a)" "at_obligationId u = ro_obligationId ob" for u
    using parts(4) that by (auto simp: hasSuccessorAttempt_def list_ex_iff)
  obtain d where d: "filter (\<lambda>d. rd_attemptId d = at_attemptId t) ?ds = [d]" "rd_status d = Di_outcome_unknown"
    using parts(5) by blast
  have "d \<in> set (filter (\<lambda>d. rd_attemptId d = at_attemptId t) ?ds)" unfolding d(1) by simp
  then show "\<exists>d \<in> set (as_dispatches a). rd_attemptId d = at_attemptId t \<and> rd_status d = Di_outcome_unknown"
    using d(2) by auto
qed

lemma never_superseded:
  assumes inv: "ledger_state c a" and t: "t \<in> set (as_attempts a)"
    and succ: "\<And>u. u \<in> set (as_attempts a) \<Longrightarrow> at_obligationId u = at_obligationId t \<Longrightarrow>
      \<forall>g. at_origin u \<noteq> Dispatch_rearm (at_attemptId t) g"
  shows "\<not> superseded a (at_attemptId t)"
proof
  assume "superseded a (at_attemptId t)"
  then obtain u where "u \<in> set (as_attempts a)"
      "case at_origin u of Initial \<Rightarrow> False | Dispatch_rearm p g \<Rightarrow> p = at_attemptId t"
    by (auto simp: superseded_def list_ex_iff)
  then obtain g where u: "u \<in> set (as_attempts a)" "at_origin u = Dispatch_rearm (at_attemptId t) g"
    by (cases "at_origin u") auto
  then obtain w where w: "w \<in> set (as_attempts a)" "at_attemptId w = at_attemptId t" "predecessor_coherent u w"
    using ledger_stateD(5) [OF inv u(1)] by (auto simp: lineage_state_def)
  then have "w = t" using same_id [OF ledger_identities(1) [OF inv] w(1) t] by simp
  then show False using w(3) succ [OF u(1)] u(2) by (auto simp: predecessor_coherent_def)
qed

definition run_locked :: review_assurance where
  "run_locked = snd (abandonAndBlockByHostCall
     (updateAttemptStatus run_released ''a1'' At_created ''t3'' (Some ''s1'') None) ''h1''
     ''REVIEWER_STEP_BUDGET_EXHAUSTED'' \<lparr>ci_childSessionId = Some ''s1'', ci_dispatchId = None, ci_attemptId = None,
       ci_obligationId = None\<rparr> ''t4'')"

lemmas lock_defs = run_defs run_locked_def abandonAndBlockByHostCall_def resolveExecutionDispatch_def
  canCloseExecution_def hasTerminalBlock_def blockedExecutionState_def blockObligation_def updateObligation_def

lemma run_locked: "review_run ''c'' ''m'' ''t4'' run_locked"
proof -
  have "review_run ''c'' ''m'' ''t3'' (updateAttemptStatus run_released ''a1'' At_created ''t3'' (Some ''s1'') None)"
  proof (rule review_next [OF run_released])
    show "review_step ''c'' ''m'' ''t3'' run_released (updateAttemptStatus run_released ''a1'' At_created ''t3'' (Some ''s1'') None)"
    proof (rule binds_child)
      show "bindNativeReviewChild ''c'' ''m'' ''s0'' run_released ''h1'' ''s1'' ''t3'' =
          Inr (updateAttemptStatus run_released ''a1'' At_created ''t3'' (Some ''s1'') None)"
        by (simp add: run_defs bindNativeReviewChild_def nativeReviewDispatchLineage_def)
    qed
  qed (simp_all add: less_char_def)
  then show ?thesis
    unfolding run_locked_def by (rule review_next [OF _ _ _ closes_execution]) (simp_all add: less_char_def)
qed



end
