(* ===== verification/Validation.thy ===== *)
theory Validation
  imports Hashing
begin

text \<open>Validation evidence (\<open>state/evidence-validation.ts\<close>) and the verification candidates it is
  executed from (\<open>state/discovery-schemas.ts\<close>, \<open>state/candidate-identity.ts\<close>): check results and
  attempts, the schema refinement of extracted assertions, the disposition that decides whether a result
  may move the workflow back, and the identity of a candidate, the hash of its definition.

  Repair guidance and assertion diagnostics that no operation reads stay JSON values.\<close>

section \<open>Verification candidates\<close>

datatype check_kind = K_build | K_test | K_lint | K_typecheck | K_format | K_security | K_coverage

fun check_kind_name :: "check_kind \<Rightarrow> string" where
  "check_kind_name K_build = ''build''"
| "check_kind_name K_test = ''test''"
| "check_kind_name K_lint = ''lint''"
| "check_kind_name K_typecheck = ''typecheck''"
| "check_kind_name K_format = ''format''"
| "check_kind_name K_security = ''security''"
| "check_kind_name K_coverage = ''coverage''"

datatype confidence = High | Medium | Low

fun confidence_name :: "confidence \<Rightarrow> string" where
  "confidence_name High = ''high''"
| "confidence_name Medium = ''medium''"
| "confidence_name Low = ''low''"

text \<open>\<open>AssertionReportSpec\<close>: format and provider first, then what the collection mode adds.\<close>
datatype report_spec =
    Run_specific string string string string
  | Snapshot_diff string string "string list"
  | Stdout_report string string

fun report_spec_ok :: "report_spec \<Rightarrow> bool" where
  "report_spec_ok (Run_specific fmt prov out res) =
     (out \<noteq> [] \<and> includes_sub ''{attemptId}'' out \<and> res \<noteq> [] \<and> includes_sub ''{attemptId}'' res)"
| "report_spec_ok (Snapshot_diff fmt prov patterns) = (patterns \<noteq> [] \<and> [] \<notin> set patterns)"
| "report_spec_ok (Stdout_report fmt prov) = True"

datatype capability = Unsupported | Structured report_spec bool

record verification_candidate =
  vc_candidateId :: string
  vc_capability :: capability
  vc_kind :: check_kind
  vc_command :: string
  vc_source :: string
  vc_confidence :: confidence
  vc_reason :: string

fun report_members :: "report_spec \<Rightarrow> jsobject" where
  "report_members (Run_specific fmt prov out res) =
     [(''collection'', JStr ''run_specific''), (''transport'', JStr ''file''), (''format'', JStr fmt),
      (''providerId'', JStr prov), (''outputArgumentTemplate'', JStr out),
      (''resultPatternTemplate'', JStr res)]"
| "report_members (Snapshot_diff fmt prov patterns) =
     [(''collection'', JStr ''snapshot_diff''), (''transport'', JStr ''file''), (''format'', JStr fmt),
      (''providerId'', JStr prov), (''standardPatterns'', JArr (map JStr patterns))]"
| "report_members (Stdout_report fmt prov) =
     [(''collection'', JStr ''stdout''), (''transport'', JStr ''stdout''), (''format'', JStr fmt),
      (''providerId'', JStr prov)]"

fun capability_members :: "capability \<Rightarrow> jsobject" where
  "capability_members Unsupported = [(''assertionCapability'', JStr ''unsupported'')]"
| "capability_members (Structured spec attested) =
     [(''assertionCapability'', JStr ''structured''), (''assertionReport'', JObj (report_members spec))] @
     (if attested then [(''fullCheckScopeAttestation'', JStr ''full_check'')] else [])"

text \<open>The candidate without its identity: \<open>const { candidateId, ...definition } = candidate\<close>.\<close>
definition candidate_definition :: "verification_candidate \<Rightarrow> jsobject" where
  "candidate_definition c =
     [(''kind'', JStr (check_kind_name (vc_kind c))), (''command'', JStr (vc_command c)),
      (''source'', JStr (vc_source c)), (''confidence'', JStr (confidence_name (vc_confidence c))),
      (''reason'', JStr (vc_reason c))] @ capability_members (vc_capability c)"

definition isVerificationCandidateBound :: "(string \<Rightarrow> string) \<Rightarrow> verification_candidate \<Rightarrow> bool" where
  "isVerificationCandidateBound hash c =
     (vc_candidateId c = deriveVerificationCandidateId hash (candidate_definition c))"

section \<open>Results\<close>

datatype validation_outcome = Supported | Inconclusive | Blocked_outcome

datatype assertion_status = A_passed | A_failed | A_errored | A_skipped

record assertion_evidence =
  ae_assertionProvider :: string
  ae_localId :: string
  ae_providerId :: string
  ae_status :: assertion_status
  ae_testName :: string
  ae_failure :: "jsval option"

text \<open>The two refinements of \<open>StructuredAssertionEvidence\<close>.\<close>
definition assertion_evidence_ok :: "assertion_evidence \<Rightarrow> bool" where
  "assertion_evidence_ok a =
     ((ae_status a = A_failed \<or> ae_status a = A_errored \<or> ae_failure a = None) \<and>
      ae_providerId a = ae_assertionProvider a)"

datatype binding_capability = Bind_assertion | Bind_aggregate | Bind_check_only

record extraction_summary =
  es_assertionCount :: nat
  es_passedCount :: nat
  es_failedCount :: nat
  es_erroredCount :: nat
  es_skippedCount :: nat
  es_suiteInfrastructureError :: bool

record extracted_assertions =
  ea_attemptId :: string
  ea_providerId :: string
  ea_format :: string
  ea_bindingCapability :: binding_capability
  ea_reportDigests :: "string list"
  ea_assertions :: "assertion_evidence list"
  ea_summary :: extraction_summary

datatype assertion_extraction =
    Not_configured
  | Extraction_blocked string string string
  | Extraction_inconclusive string string string
  | Extracted extracted_assertions

text \<open>The checks of \<open>superRefine\<close>: true when no issue is added.\<close>
definition extracted_ok :: "extracted_assertions \<Rightarrow> bool" where
  "extracted_ok d =
     (\<not> (ea_bindingCapability d = Bind_check_only \<and> 0 < length (ea_assertions d)) \<and>
      \<not> (ea_bindingCapability d = Bind_aggregate \<and>
         (es_suiteInfrastructureError (ea_summary d) \<or>
          es_passedCount (ea_summary d) + es_failedCount (ea_summary d) +
            es_erroredCount (ea_summary d) + es_skippedCount (ea_summary d)
          \<noteq> es_assertionCount (ea_summary d))) \<and>
      list_all (\<lambda>a. ae_providerId a = ea_providerId d) (ea_assertions d) \<and>
      list_all assertion_evidence_ok (ea_assertions d) \<and> ea_reportDigests d \<noteq> [])"

record validation_result =
  vr_checkId :: string
  vr_passed :: bool
  vr_detail :: string
  vr_executedAt :: string
  vr_kind :: check_kind
  vr_candidateId :: "string option"
  vr_command :: string
  vr_exitCode :: int
  vr_executionMs :: nat
  vr_outputDigest :: string
  vr_timedOut :: bool
  vr_outcome :: validation_outcome
  vr_classificationReason :: "string option"
  vr_assertionExtraction :: "assertion_extraction option"
  vr_fullCheckScope :: bool
  vr_derivedRepairGuidance :: "jsval option"

record execution_observation =
  eo_executionObservedStateDigest :: string
  eo_preCommitStateDigest :: string

text \<open>The scope of an attempt, with the plan or the implementation it binds.\<close>
datatype attempt_scope = Baseline string | For_implementation string string

record validation_attempt =
  va_attemptId :: string
  va_scope :: attempt_scope
  va_observation :: execution_observation
  va_result :: validation_result

section \<open>Disposition\<close>

datatype disposition = D_supported | D_artifact_failure | D_technical_block

definition isExecutionError :: "validation_result \<Rightarrow> bool" where
  "isExecutionError r = (vr_timedOut r \<or> vr_exitCode r = 124 \<or> vr_exitCode r = 127)"

fun extraction_inconclusive :: "assertion_extraction option \<Rightarrow> bool" where
  "extraction_inconclusive (Some (Extraction_inconclusive _ _ _)) = True"
| "extraction_inconclusive _ = False"

definition classifyValidationDisposition :: "validation_result \<Rightarrow> disposition" where
  "classifyValidationDisposition r =
     (if vr_passed r \<and> vr_outcome r = Supported then D_supported
      else if vr_outcome r = Blocked_outcome then D_technical_block
      else if isExecutionError r then D_technical_block
      else if extraction_inconclusive (vr_assertionExtraction r) then D_technical_block
      else D_artifact_failure)"

definition isTechnicalValidationBlock :: "validation_result \<Rightarrow> bool" where
  "isTechnicalValidationBlock r = (classifyValidationDisposition r = D_technical_block)"

section \<open>Lemmas\<close>

lemma check_kind_name_inj: "check_kind_name a = check_kind_name b \<longleftrightarrow> a = b"
  by (cases a; cases b) simp_all

lemma confidence_name_inj: "confidence_name a = confidence_name b \<longleftrightarrow> a = b"
  by (cases a; cases b) simp_all

lemma distinct_report_members: "distinct (map fst (report_members s))"
  by (cases s) simp_all

lemma distinct_candidate_definition: "distinct (map fst (candidate_definition c))"
  by (cases "vc_capability c") (simp_all add: candidate_definition_def)

lemma json_field_report:
  "json_field (report_members s) ''collection'' = Some (JStr (case s of Run_specific _ _ _ _ \<Rightarrow> ''run_specific''
     | Snapshot_diff _ _ _ \<Rightarrow> ''snapshot_diff'' | Stdout_report _ _ \<Rightarrow> ''stdout''))"
  "json_field (report_members s) ''format'' = Some (JStr (case s of Run_specific f _ _ _ \<Rightarrow> f
     | Snapshot_diff f _ _ \<Rightarrow> f | Stdout_report f _ \<Rightarrow> f))"
  "json_field (report_members s) ''providerId'' = Some (JStr (case s of Run_specific _ p _ _ \<Rightarrow> p
     | Snapshot_diff _ p _ \<Rightarrow> p | Stdout_report _ p \<Rightarrow> p))"
  "json_field (report_members (Run_specific f p out res)) ''outputArgumentTemplate'' = Some (JStr out)"
  "json_field (report_members (Run_specific f p out res)) ''resultPatternTemplate'' = Some (JStr res)"
  "json_field (report_members (Snapshot_diff f p ps)) ''standardPatterns'' = Some (JArr (map JStr ps))"
  by (cases s; simp add: json_field_Cons json_field_Nil comp_def split: report_spec.split)+

lemma report_members_inj:
  assumes "json_normal (JObj (report_members s)) = json_normal (JObj (report_members t))"
  shows "s = t"
proof -
  have field: "json_field (report_members s) k = json_field (report_members t) k" for k
    by (rule json_normal_field [OF assms distinct_report_members distinct_report_members])
  note f = field [of "''collection''"] field [of "''format''"] field [of "''providerId''"]
  have pats: "map JStr xs = map JStr ys \<Longrightarrow> xs = ys" for xs ys
    by (simp add: inj_map_eq_map inj_def)
  show ?thesis
  proof (cases s)
    case s: (Run_specific fmt prov out res)
    then obtain fmt' prov' out' res' where t: "t = Run_specific fmt' prov' out' res'"
      using f(1) by (cases t) (simp_all add: json_field_report del: report_members.simps)
    show ?thesis
      using f field [of "''outputArgumentTemplate''"] field [of "''resultPatternTemplate''"]
      by (simp add: s t json_field_report del: report_members.simps)
  next
    case s: (Snapshot_diff fmt prov ps)
    then obtain fmt' prov' ps' where t: "t = Snapshot_diff fmt' prov' ps'"
      using f(1) by (cases t) (simp_all add: json_field_report del: report_members.simps)
    show ?thesis
      using f field [of "''standardPatterns''"]
      by (simp add: s t json_field_report pats del: report_members.simps)
  next
    case s: (Stdout_report fmt prov)
    then obtain fmt' prov' where t: "t = Stdout_report fmt' prov'"
      using f(1) by (cases t) (simp_all add: json_field_report del: report_members.simps)
    show ?thesis using f by (simp add: s t json_field_report del: report_members.simps)
  qed
qed

lemma json_field_candidate:
  "json_field (candidate_definition c) ''kind'' = Some (JStr (check_kind_name (vc_kind c)))"
  "json_field (candidate_definition c) ''command'' = Some (JStr (vc_command c))"
  "json_field (candidate_definition c) ''source'' = Some (JStr (vc_source c))"
  "json_field (candidate_definition c) ''confidence'' = Some (JStr (confidence_name (vc_confidence c)))"
  "json_field (candidate_definition c) ''reason'' = Some (JStr (vc_reason c))"
  "json_field (candidate_definition c) ''assertionReport'' =
     (case vc_capability c of Unsupported \<Rightarrow> None | Structured spec _ \<Rightarrow> Some (json_normal (JObj (report_members spec))))"
  "json_field (candidate_definition c) ''fullCheckScopeAttestation'' =
     (case vc_capability c of Structured _ True \<Rightarrow> Some (JStr ''full_check'') | _ \<Rightarrow> None)"
  by (cases "vc_capability c"; simp add: json_field_Cons json_field_Nil candidate_definition_def split: bool.split)+

lemma candidate_definition_inj:
  assumes "\<And>k. json_field (candidate_definition c) k = json_field (candidate_definition d) k"
  shows "vc_kind c = vc_kind d \<and> vc_command c = vc_command d \<and> vc_source c = vc_source d \<and>
    vc_confidence c = vc_confidence d \<and> vc_reason c = vc_reason d \<and> vc_capability c = vc_capability d"
proof -
  have cap: "vc_capability c = vc_capability d"
    using assms [of "''assertionReport''"] assms [of "''fullCheckScopeAttestation''"]
    by (cases "vc_capability c"; cases "vc_capability d")
      (auto simp: json_field_candidate dest: report_members_inj split: bool.splits)
  show ?thesis
    using assms [of "''kind''"] assms [of "''command''"] assms [of "''source''"]
      assms [of "''confidence''"] assms [of "''reason''"] cap
    by (simp add: json_field_candidate check_kind_name_inj confidence_name_inj)
qed

section \<open>Properties\<close>

text \<open>A bound candidate is determined by its identifier: two bound candidates with the same
  identifier are the same candidate, command, kind and report specification included, as long as the
  hash keeps the texts of these two definitions apart. An edited definition under a reused identifier
  is therefore never bound (C27).\<close>

theorem bound_candidate_is_its_definition:
  assumes "isVerificationCandidateBound hash c" and "isVerificationCandidateBound hash d"
    and "vc_candidateId c = vc_candidateId d"
    and "\<And>x y. x \<in> canonicalJsonStringify ` (\<lambda>c. JObj (candidate_definition c)) ` {c, d} \<Longrightarrow>
            y \<in> canonicalJsonStringify ` (\<lambda>c. JObj (candidate_definition c)) ` {c, d} \<Longrightarrow> hash x = hash y \<Longrightarrow> x = y"
  shows "c = d"
proof -
  let ?text = "\<lambda>c. canonicalJsonStringify (JObj (candidate_definition c))"
  have "hash (?text c) = hash (?text d)"
    using assms(1-3) by (simp add: isVerificationCandidateBound_def deriveVerificationCandidateId_def)
  then have "?text c = ?text d" by (rule assms(4) [rotated 2]) simp_all
  then have "json_normal (JObj (candidate_definition c)) = json_normal (JObj (candidate_definition d))"
    by (simp only: canonicalJsonStringify_eq_iff)
  from candidate_definition_inj [OF json_normal_field [OF this distinct_candidate_definition distinct_candidate_definition]]
  show ?thesis using assms(3) by simp
qed

definition sample_candidate :: "string \<Rightarrow> verification_candidate" where
  "sample_candidate cmd =
     (let c = \<lparr>vc_candidateId = [], vc_capability = Structured (Stdout_report ''junit_xml'' ''junit'') True,
                vc_kind = K_test, vc_command = cmd, vc_source = ''package.json'', vc_confidence = High,
                vc_reason = ''script''\<rparr>
      in c\<lparr>vc_candidateId := deriveVerificationCandidateId (\<lambda>x. x) (candidate_definition c)\<rparr>)"

theorem bound_candidate_is_its_definition_witness:
  "(sample_candidate ''npm test'')\<lparr>vc_command := ''npm'' @ '' test''\<rparr> = sample_candidate ''npm test''"
proof (rule bound_candidate_is_its_definition [where hash = "\<lambda>x. x"])
  show "isVerificationCandidateBound (\<lambda>x. x) ((sample_candidate ''npm test'')\<lparr>vc_command := ''npm'' @ '' test''\<rparr>)"
    and "isVerificationCandidateBound (\<lambda>x. x) (sample_candidate ''npm test'')"
    by code_simp+
qed simp_all


end
