(* ===== verification/Timestamp.thy ===== *)
theory Timestamp
  imports JS_Text
begin

text \<open>The instants the sources compare.  Persisted timestamps are ISO-8601 strings in UTC, the format
  \<open>z.string().datetime()\<close> admits: a calendar date, hours and minutes, optional seconds with an optional
  fraction, and \<open>Z\<close>.  \<open>Date_parse\<close> is \<open>Date.parse\<close> on that format, in milliseconds since the epoch (the
  fraction is truncated to milliseconds); on any other text it is None, the \<open>NaN\<close> of the sources.\<close>

definition digit_val :: "char \<Rightarrow> int" where
  "digit_val c = int (of_char c) - 48"

fun digits_val :: "int \<Rightarrow> string \<Rightarrow> int" where
  "digits_val acc [] = acc"
| "digits_val acc (c # cs) = digits_val (10 * acc + digit_val c) cs"

text \<open>A field of \<open>n\<close> decimal digits at the head of the text.\<close>
definition number_field :: "nat \<Rightarrow> string \<Rightarrow> (int \<times> string) option" where
  "number_field n s =
     (if n \<le> length s \<and> list_all is_digit (take n s) then Some (digits_val 0 (take n s), drop n s) else None)"

definition is_leap :: "int \<Rightarrow> bool" where
  "is_leap y = (y mod 4 = 0 \<and> (y mod 100 \<noteq> 0 \<or> y mod 400 = 0))"

definition days_in_month :: "int \<Rightarrow> int \<Rightarrow> int" where
  "days_in_month y m =
     (if m = 2 then if is_leap y then 29 else 28 else if m \<in> {4, 6, 9, 11} then 30 else 31)"

text \<open>The day number of a civil date, 0 on 1970-01-01; years count from March.\<close>
definition days_from_civil :: "int \<Rightarrow> int \<Rightarrow> int \<Rightarrow> int" where
  "days_from_civil y m d =
     (let y' = (if m \<le> 2 then y - 1 else y);
          doy = (153 * (m + (if m > 2 then - 3 else 9)) + 2) div 5 + d - 1
      in 365 * y' + y' div 4 - y' div 100 + y' div 400 + doy - 719468)"

definition literal :: "char \<Rightarrow> string \<Rightarrow> string option" where
  "literal c s = (case s of [] \<Rightarrow> None | d # ds \<Rightarrow> if c = d then Some ds else None)"

definition parse_date :: "string \<Rightarrow> (int \<times> string) option" where
  "parse_date s =
     Option.bind (number_field 4 s) (\<lambda>(y, s). Option.bind (literal CHR ''-'' s) (\<lambda>s.
     Option.bind (number_field 2 s) (\<lambda>(m, s). Option.bind (literal CHR ''-'' s) (\<lambda>s.
     Option.bind (number_field 2 s) (\<lambda>(d, s).
       if 1 \<le> m \<and> m \<le> 12 \<and> 1 \<le> d \<and> d \<le> days_in_month y m then Some (days_from_civil y m d, s)
       else None)))))"

text \<open>The optional \<open>:SS\<close> with its optional fraction, in milliseconds, and the closing \<open>Z\<close>.\<close>
definition parse_fraction :: "string \<Rightarrow> (int \<times> string) option" where
  "parse_fraction s =
     (case literal CHR ''.'' s of
        None \<Rightarrow> Some (0, s)
      | Some r \<Rightarrow>
          (let ds = takeWhile is_digit r
           in if ds = [] then None
              else Some (digits_val 0 (take 3 (ds @ ''00'')), dropWhile is_digit r)))"

definition parse_seconds :: "string \<Rightarrow> (int \<times> string) option" where
  "parse_seconds s =
     (case literal CHR '':'' s of
        None \<Rightarrow> Some (0, s)
      | Some r \<Rightarrow>
          Option.bind (number_field 2 r) (\<lambda>(sec, r).
            if sec \<le> 59 then Option.bind (parse_fraction r) (\<lambda>(ms, r). Some (1000 * sec + ms, r)) else None))"

definition Date_parse :: "string \<Rightarrow> int option" where
  "Date_parse s =
     Option.bind (parse_date s) (\<lambda>(day, s). Option.bind (literal CHR ''T'' s) (\<lambda>s.
     Option.bind (number_field 2 s) (\<lambda>(h, s). Option.bind (literal CHR '':'' s) (\<lambda>s.
     Option.bind (number_field 2 s) (\<lambda>(mi, s). Option.bind (parse_seconds s) (\<lambda>(ms, s).
       if h \<le> 23 \<and> mi \<le> 59 \<and> s = ''Z'' then Some (86400000 * day + 3600000 * h + 60000 * mi + ms)
       else None))))))"

lemma epoch_start: "Date_parse ''1970-01-01T00:00:00.000Z'' = Some 0"
  by code_simp

lemma leap_day: "Date_parse ''2024-02-29T12:30:05.25Z'' = Some 1709209805250"
  by code_simp

lemma not_leap: "Date_parse ''2023-02-29T12:30:05Z'' = None"
  by code_simp

end
