(* ===== verification/Proof_Claims.thy ===== *)
theory Proof_Claims
  imports Validation Path_Risk Timestamp "HOL-Library.Multiset"
begin

text \<open>The data of the proof graph (\<open>state/proofgraph-primitives.ts\<close>, \<open>state/proofgraph-refs.ts\<close>,
  \<open>state/proofgraph.ts\<close>, \<open>state/proofgraph-contract.ts\<close>, \<open>state/assertion-identity.ts\<close>): declared and
  evaluated claims, the references to their governing sources and to their evidence, provider results and
  counterexamples; the identity of a claim set (\<open>state/proofgraph-claim-set.ts\<close>) and the certified digest of
  a claim (\<open>state/proofgraph-claim-certification.ts\<close>).

  An optional property is an option, the discriminated unions are datatypes.  \<open>hash\<close> is the platform hash.\<close>

section \<open>Vocabulary\<close>

datatype verification_state = PROVEN | UNPROVEN | CONTRADICTED | STALE | BLOCKED | NOT_VERIFIED

datatype provider_kind = Executed_test | Structural_assertion | Schema_compare | Fault_injection

fun provider_kind_name :: "provider_kind \<Rightarrow> string" where
  "provider_kind_name Executed_test = ''executed_test''"
| "provider_kind_name Structural_assertion = ''structural_assertion''"
| "provider_kind_name Schema_compare = ''schema_compare''"
| "provider_kind_name Fault_injection = ''fault_injection''"

datatype counterexample_outcome = Cx_supported | Cx_contradicted | Cx_not_verified | Cx_blocked

datatype adversarial_kind = Adv_counterexample

datatype signal_class = Fact | Derived_signal | Hypothesis

record freshness =
  fr_boundDigest :: string
  fr_evaluatedAt :: string
  fr_stale :: bool

record assertion_identity =
  ai_providerId :: string
  ai_localId :: string

datatype attestation = Flowguard_executed | Flowguard_observed | External_self_reported

section \<open>References\<close>

text \<open>The binding of a materialised declaration to the approval that certified it.\<close>
record approval_binding =
  ab_certificateId :: string
  ab_claimDeclarationsDigest :: string
  ab_decisionAttestationDigest :: string
  ab_declarationId :: string

text \<open>\<open>ClaimAuthorityRef\<close>: what may govern a claim.\<close>
datatype claim_authority =
    Approved_ticket string
  | Plan_adr_section artifact_kind_name string string string
  | Canonical_authority string string "approval_binding option"
  and artifact_kind_name = Of_plan | Of_adr

text \<open>\<open>ClaimEvidenceRef\<close>: what may prove or falsify a claim, and never governs it.\<close>
datatype evidence_ref =
    Validation_attempt_ref string
  | Implementation_ref string "string option"
  | Content_ref string
  | Structural_surface_ref string
  | Mutation_profile_ref string
  | Mutation_attempt_ref string string

section \<open>Claims\<close>

record required_evidence =
  re_positive :: "provider_kind list"
  re_adversarial :: "adversarial_kind list"

text \<open>\<open>CounterexampleRequirement\<close>: the check, then the assertion or the candidate it is bound to.\<close>
datatype counterexample_requirement =
    Req_assertion (req_checkId: string) assertion_identity
  | Req_aggregate (req_checkId: string) "string option"

datatype claim_scope = Specific_behavior | Suite

record certified_plan =
  cp_authoritySectionId :: string
  cp_expectedCheckId :: string
  cp_expectedAssertion :: "assertion_identity option"
  cp_structuralSurface :: "string option"
  cp_mutationProfile :: "string option"
  cp_digest :: string

record declared_claim =
  dc_claimId :: string
  dc_statement :: string
  dc_signalClass :: signal_class
  dc_critical :: bool
  dc_claimScope :: "claim_scope option"
  dc_provenance :: "claim_authority option"
  dc_evidenceRefs :: "evidence_ref list"
  dc_counterexampleRefs :: "evidence_ref list"
  dc_requiredEvidence :: "required_evidence option"
  dc_counterexampleRequirement :: "counterexample_requirement option"
  dc_coversRiskTriggers :: "risk_trigger list option"
  dc_certifiedPlan :: "certified_plan option"
  dc_confidence :: "jsval option"

text \<open>An evaluated claim is a declared one with a state and the freshness of its evidence.\<close>
record proof_claim = declared_claim +
  pc_verificationState :: verification_state
  pc_freshness :: "freshness option"

text \<open>The refinement of \<open>DeclaredClaim\<close>, and the exclusion of \<open>ceremony_only\<close> from coverage.\<close>
definition declared_claim_ok :: "declared_claim \<Rightarrow> bool" where
  "declared_claim_ok c =
     ((dc_counterexampleRefs c = [] \<or> dc_counterexampleRequirement c \<noteq> None) \<and>
      (case dc_coversRiskTriggers c of None \<Rightarrow> True | Some ts \<Rightarrow> list_all specific ts))"

datatype binding_code =
    Check_mismatch | Evidence_missing | Check_only_evidence | Provider_mismatch | Assertion_mismatch
  | Assertion_identity_ambiguous | Evidence_role_collision | Counterexample_conflict
  | Aggregate_check_mismatch | Aggregate_candidate_mismatch | Aggregate_scope_unattested
  | Aggregate_extraction_missing | Aggregate_capability_missing

text \<open>A projection; the diagnostics are a map from claim ids, in insertion order.\<close>
record projection =
  pj_claims :: "proof_claim list"
  pj_evaluatedAt :: string
  pj_claimDiagnostics :: "(string \<times> binding_code) list option"

record proof_contract =
  ct_claims :: "declared_claim list"

section \<open>Provider results and counterexamples\<close>

datatype provider_binding =
    Bound_implementation (pb_digest: string)
  | Bound_plan (pb_digest: string)
  | Bound_surface_set string (pb_digest: string) "string list"

datatype executed_input = Input_command string | Input_assertion string

datatype executed_status = St_pass | St_fail | St_error

record executed_evidence =
  ee_input :: executed_input
  ee_location :: string
  ee_stableId :: string
  ee_binding :: provider_binding
  ee_resultDigest :: string

text \<open>The status of a result decides what else it carries.\<close>
datatype provider_outcome =
    Executed executed_status executed_evidence
  | Unavailable "string option" "string option"

record provider_result =
  pr_claimId :: string
  pr_providerKind :: provider_kind
  pr_providerId :: string
  pr_providerVersion :: string
  pr_executionRecordId :: "string option"
  pr_executedAt :: string
  pr_detail :: "string option"
  pr_attestation :: attestation
  pr_outcome :: provider_outcome

record counterexample =
  cx_claimId :: string
  cx_attemptId :: string
  cx_checkId :: string
  cx_scenario :: string
  cx_outcome :: counterexample_outcome
  cx_boundDigest :: string
  cx_executedAt :: string

section \<open>Claim sets\<close>

definition uniqueClaimIds :: "string list \<Rightarrow> string list option" where
  "uniqueClaimIds ids = (if length (remdups ids) = length ids then Some (remdups ids) else None)"

definition claimOccurrences :: "string list \<Rightarrow> string \<Rightarrow> nat" where
  "claimOccurrences ids i = count_list ids i"

definition claimsMatchDeclaredSet :: "string list \<Rightarrow> string list \<Rightarrow> bool" where
  "claimsMatchDeclaredSet claims ids = list_all (\<lambda>i. claimOccurrences claims i = 1) ids"

section \<open>Certified claims\<close>

text \<open>\<open>PlanClaimDeclaration\<close>, declared with the plan and certified by its approval.\<close>
record plan_claim =
  pl_claimId :: string
  pl_statement :: string
  pl_critical :: bool
  pl_authoritySectionId :: string
  pl_claimScope :: claim_scope
  pl_expectedCheckId :: string
  pl_expectedAssertion :: "assertion_identity option"
  pl_counterexampleRequirement :: "counterexample_requirement option"
  pl_structuralSurface :: "string option"
  pl_mutationProfile :: "string option"
  pl_coversRiskTriggers :: "risk_trigger list option"

definition requiredEvidenceForDeclaration :: "plan_claim \<Rightarrow> required_evidence" where
  "requiredEvidenceForDeclaration d =
     \<lparr>re_positive = [Executed_test] @
        (if truthy (pl_structuralSurface d)
         then [if pl_structuralSurface d = Some ''config-defaults'' then Schema_compare else Structural_assertion]
         else []) @
        (if truthy (pl_mutationProfile d) then [Fault_injection] else []),
      re_adversarial =
        (if pl_critical d \<or> pl_counterexampleRequirement d \<noteq> None then [Adv_counterexample] else [])\<rparr>"

fun scope_name :: "claim_scope \<Rightarrow> string" where
  "scope_name Specific_behavior = ''specific_behavior''"
| "scope_name Suite = ''suite''"

definition identity_json :: "assertion_identity \<Rightarrow> jsval" where
  "identity_json a = JObj [(''providerId'', JStr (ai_providerId a)), (''localId'', JStr (ai_localId a))]"

fun requirement_members :: "counterexample_requirement \<Rightarrow> jsobject" where
  "requirement_members (Req_assertion check a) =
     [(''kind'', JStr ''assertion''), (''checkId'', JStr check), (''assertion'', identity_json a)]"
| "requirement_members (Req_aggregate check cand) =
     [(''kind'', JStr ''aggregate_check''), (''checkId'', JStr check),
      (''candidateId'', case cand of None \<Rightarrow> JUndef | Some c \<Rightarrow> JStr c)]"

definition nullable :: "('a \<Rightarrow> jsval) \<Rightarrow> 'a option \<Rightarrow> jsval" where
  "nullable f x = (case x of None \<Rightarrow> JNull | Some y \<Rightarrow> f y)"

definition undefinable :: "('a \<Rightarrow> jsval) \<Rightarrow> 'a option \<Rightarrow> jsval" where
  "undefinable f x = (case x of None \<Rightarrow> JUndef | Some y \<Rightarrow> f y)"

definition sorted_names :: "('a \<Rightarrow> string) \<Rightarrow> 'a list \<Rightarrow> jsval" where
  "sorted_names f xs = JArr (map JStr (sort (map f xs)))"

definition required_json :: "required_evidence \<Rightarrow> jsval" where
  "required_json r =
     JObj [(''positive'', sorted_names provider_kind_name (re_positive r)),
           (''adversarial'', sorted_names (\<lambda>_. ''counterexample'') (re_adversarial r))]"

text \<open>What \<open>semanticDigest\<close> hashes.\<close>
record claim_semantics =
  sm_claimId :: string
  sm_statement :: string
  sm_critical :: bool
  sm_claimScope :: "claim_scope option"
  sm_authoritySectionId :: string
  sm_expectedCheckId :: string
  sm_expectedAssertion :: "assertion_identity option"
  sm_structuralSurface :: "string option"
  sm_mutationProfile :: "string option"
  sm_counterexampleRequirement :: "counterexample_requirement option"
  sm_coversRiskTriggers :: "risk_trigger list option"
  sm_requiredEvidence :: "required_evidence option"

definition semantic_members :: "claim_semantics \<Rightarrow> jsobject" where
  "semantic_members c =
     [(''claimId'', JStr (sm_claimId c)), (''statement'', JStr (sm_statement c)),
      (''critical'', JBool (sm_critical c)),
      (''claimScope'', undefinable (JStr \<circ> scope_name) (sm_claimScope c)),
      (''authoritySectionId'', JStr (sm_authoritySectionId c)),
      (''expectedCheckId'', JStr (sm_expectedCheckId c)),
      (''expectedAssertion'', undefinable identity_json (sm_expectedAssertion c)),
      (''structuralSurface'', nullable JStr (sm_structuralSurface c)),
      (''mutationProfile'', nullable JStr (sm_mutationProfile c)),
      (''counterexampleRequirement'', nullable (JObj \<circ> requirement_members) (sm_counterexampleRequirement c)),
      (''coversRiskTriggers'',
        sorted_names trigger_name (case sm_coversRiskTriggers c of None \<Rightarrow> [] | Some ts \<Rightarrow> ts)),
      (''requiredEvidence'', nullable required_json (sm_requiredEvidence c))]"

definition semanticDigest :: "(string \<Rightarrow> string) \<Rightarrow> claim_semantics \<Rightarrow> string" where
  "semanticDigest hash c = hash (canonicalJsonStringify (JObj (semantic_members c)))"

definition declaration_semantics :: "plan_claim \<Rightarrow> claim_semantics" where
  "declaration_semantics d =
     \<lparr>sm_claimId = pl_claimId d, sm_statement = pl_statement d, sm_critical = pl_critical d,
      sm_claimScope = Some (pl_claimScope d), sm_authoritySectionId = pl_authoritySectionId d,
      sm_expectedCheckId = pl_expectedCheckId d, sm_expectedAssertion = pl_expectedAssertion d,
      sm_structuralSurface = pl_structuralSurface d, sm_mutationProfile = pl_mutationProfile d,
      sm_counterexampleRequirement = pl_counterexampleRequirement d,
      sm_coversRiskTriggers = pl_coversRiskTriggers d,
      sm_requiredEvidence = Some (requiredEvidenceForDeclaration d)\<rparr>"

definition certifiedClaimDigest :: "(string \<Rightarrow> string) \<Rightarrow> plan_claim \<Rightarrow> string" where
  "certifiedClaimDigest hash d = semanticDigest hash (declaration_semantics d)"

definition materialized_semantics :: "'a declared_claim_scheme \<Rightarrow> certified_plan \<Rightarrow> claim_semantics" where
  "materialized_semantics c origin =
     \<lparr>sm_claimId = dc_claimId c, sm_statement = dc_statement c, sm_critical = dc_critical c,
      sm_claimScope = dc_claimScope c, sm_authoritySectionId = cp_authoritySectionId origin,
      sm_expectedCheckId = cp_expectedCheckId origin, sm_expectedAssertion = cp_expectedAssertion origin,
      sm_structuralSurface = cp_structuralSurface origin, sm_mutationProfile = cp_mutationProfile origin,
      sm_counterexampleRequirement = dc_counterexampleRequirement c,
      sm_coversRiskTriggers = dc_coversRiskTriggers c,
      sm_requiredEvidence = dc_requiredEvidence c\<rparr>"

definition materializedClaimDigest :: "(string \<Rightarrow> string) \<Rightarrow> 'a declared_claim_scheme \<Rightarrow> string option" where
  "materializedClaimDigest hash c =
     (case dc_certifiedPlan c of
        None \<Rightarrow> None
      | Some origin \<Rightarrow>
          if dc_signalClass c \<noteq> Fact then None
          else Some (semanticDigest hash (materialized_semantics c origin)))"

section \<open>Lemmas\<close>

text \<open>Objects written with the same keys in the same order are canonically equal exactly when their
  values are, an undefined value being absent.\<close>

definition member_value :: "jsval \<Rightarrow> jsval option" where
  "member_value v = (if v = JUndef then None else Some (json_normal v))"

lemma json_field_nth:
  "distinct (map fst kvs) \<Longrightarrow> i < length kvs \<Longrightarrow> fst (kvs ! i) \<noteq> ''__proto__'' \<Longrightarrow>
     json_field kvs (fst (kvs ! i)) = member_value (snd (kvs ! i))"
proof -
  assume *: "distinct (map fst kvs)" "i < length kvs" "fst (kvs ! i) \<noteq> ''__proto__''"
  have "map_of kvs (fst (kvs ! i)) = Some (snd (kvs ! i))"
    by (rule map_of_is_SomeI [OF *(1)]) (simp add: nth_mem [OF *(2)])
  then show ?thesis using *(3) by (simp add: json_field_def member_value_def)
qed

lemma json_normal_same_keys:
  assumes "map fst kvs = map fst lws" and "distinct (map fst kvs)" and "''__proto__'' \<notin> set (map fst kvs)"
  shows "json_normal (JObj kvs) = json_normal (JObj lws) \<longleftrightarrow>
     map (member_value \<circ> snd) kvs = map (member_value \<circ> snd) lws"
proof -
  have len: "length kvs = length lws" using assms(1) by (rule map_eq_imp_length_eq)
  have key: "fst (kvs ! i) = fst (lws ! i)" "fst (kvs ! i) \<noteq> ''__proto__''" if "i < length kvs" for i
    using that assms(1,3) len by (metis nth_map, metis nth_map nth_mem length_map)
  have dist: "distinct (map fst lws)" using assms(1,2) by simp
  note at = json_field_nth [OF assms(2) _ key(2)] json_field_nth [OF dist]
  show ?thesis
  proof
    assume eq: "json_normal (JObj kvs) = json_normal (JObj lws)"
    show "map (member_value \<circ> snd) kvs = map (member_value \<circ> snd) lws"
    proof (rule nth_equalityI)
      fix i assume "i < length (map (member_value \<circ> snd) kvs)"
      then have i: "i < length kvs" by simp
      have "json_field kvs (fst (kvs ! i)) = json_field lws (fst (kvs ! i))"
        by (rule json_normal_field [OF eq assms(2) dist])
      then have "member_value (snd (kvs ! i)) = member_value (snd (lws ! i))"
        using at(1) [OF i i] at(2) [of i] key [OF i] i len by simp
      then show "map (member_value \<circ> snd) kvs ! i = map (member_value \<circ> snd) lws ! i"
        using i len by simp
    qed (simp add: len)
  next
    assume eq: "map (member_value \<circ> snd) kvs = map (member_value \<circ> snd) lws"
    show "json_normal (JObj kvs) = json_normal (JObj lws)"
    proof (rule json_normal_objects [OF assms(2) dist])
      fix k
      show "json_field kvs k = json_field lws k"
      proof (cases "k \<in> set (map fst kvs)")
        case True
        then obtain i where i: "i < length kvs" "k = fst (kvs ! i)" by (auto simp: in_set_conv_nth)
        have "member_value (snd (kvs ! i)) = member_value (snd (lws ! i))"
          using eq i(1) len by (metis comp_apply nth_map)
        then show ?thesis using at(1) [OF i(1) i(1)] at(2) [of i] key [OF i(1)] i len by simp
      next
        case False
        then have "map_of kvs k = None" and "map_of lws k = None"
          using assms(1) by (simp_all only: map_of_eq_None_iff set_map [symmetric] simp_thms)
        then show ?thesis by (simp add: json_field_def)
      qed
    qed
  qed
qed

lemma member_value_simps:
  "member_value (JStr a) = Some (JStr a)" "member_value JNull = Some JNull"
  "member_value (JBool b) = Some (JBool b)" "member_value JUndef = None"
  "member_value (JObj kvs) = Some (json_normal (JObj kvs))"
  "member_value (JArr vs) = Some (JArr (map json_normal vs))"
  by (simp_all add: member_value_def)

lemma member_value_nullable:
  assumes "\<And>x y. member_value (f x) = member_value (f y) \<longleftrightarrow> x = y" and "\<And>x. member_value (f x) \<noteq> Some JNull"
  shows "member_value (nullable f x) = member_value (nullable f y) \<longleftrightarrow> x = y"
  using assms(1) assms(2) by (cases x; cases y) (simp_all add: nullable_def member_value_simps, metis)

lemma member_value_undefinable:
  assumes "\<And>x y. member_value (f x) = member_value (f y) \<longleftrightarrow> x = y" and "\<And>x. f x \<noteq> JUndef"
  shows "member_value (undefinable f x) = member_value (undefinable f y) \<longleftrightarrow> x = y"
  using assms by (cases x; cases y) (simp_all add: undefinable_def member_value_def)

lemma identity_json_eq: "member_value (identity_json a) = member_value (identity_json b) \<longleftrightarrow> a = b"
  by (simp add: identity_json_def member_value_simps json_normal_same_keys)
    (auto simp: assertion_identity.splits)

lemma requirement_members_eq:
  "member_value (JObj (requirement_members r)) = member_value (JObj (requirement_members s)) \<longleftrightarrow> r = s"
proof -
  have kinds: "json_normal (JObj (requirement_members (Req_assertion a x))) \<noteq>
      json_normal (JObj (requirement_members (Req_aggregate b y)))" for a b x y
    by (rule notI, drule json_normal_field [where k = "''kind''"])
      (simp_all add: json_field_Cons json_field_Nil)
  have opt: "member_value (case x of None \<Rightarrow> JUndef | Some c \<Rightarrow> JStr c) =
      member_value (case y of None \<Rightarrow> JUndef | Some c \<Rightarrow> JStr c) \<longleftrightarrow> x = y" for x y
    by (cases x; cases y) (simp_all add: member_value_simps)
  have same: "json_normal (JObj (requirement_members (Req_assertion a x))) =
      json_normal (JObj (requirement_members (Req_assertion b y))) \<longleftrightarrow> a = b \<and> x = y"
    "json_normal (JObj (requirement_members (Req_aggregate a u))) =
      json_normal (JObj (requirement_members (Req_aggregate b v))) \<longleftrightarrow> a = b \<and> u = v" for a b x y u v
    by (subst json_normal_same_keys; simp add: member_value_simps(1) identity_json_eq opt)+
  show ?thesis
    by (cases r; cases s) (simp_all only: member_value_simps(5) option.inject same kinds kinds [symmetric]
        counterexample_requirement.simps)
qed

lemma trigger_name_inj: "trigger_name a = trigger_name b \<longleftrightarrow> a = b"
  by (cases a; cases b) simp_all

lemma provider_kind_name_inj: "provider_kind_name a = provider_kind_name b \<longleftrightarrow> a = b"
  by (cases a; cases b) simp_all

lemma sorted_names_eq:
  assumes "\<And>a b. f a = f b \<longleftrightarrow> a = b"
  shows "member_value (sorted_names f xs) = member_value (sorted_names f ys) \<longleftrightarrow> mset xs = mset ys"
proof -
  have "member_value (sorted_names f xs) = member_value (sorted_names f ys) \<longleftrightarrow> sort (map f xs) = sort (map f ys)"
    by (simp add: sorted_names_def member_value_simps comp_def inj_map_eq_map inj_def)
  also have "\<dots> \<longleftrightarrow> image_mset f (mset xs) = image_mset f (mset ys)"
    by (metis mset_map mset_sort sorted_list_of_multiset_mset)
  also have "\<dots> \<longleftrightarrow> mset xs = mset ys"
    using multiset.inj_map [of f] assms by (auto simp: inj_def)
  finally show ?thesis .
qed

lemma required_json_eq:
  "member_value (required_json r) = member_value (required_json s) \<longleftrightarrow>
     mset (re_positive r) = mset (re_positive s) \<and> mset (re_adversarial r) = mset (re_adversarial s)"
proof -
  have one: "(''counterexample'' = ''counterexample'') \<longleftrightarrow> a = b" for a b :: adversarial_kind
    by (cases a; cases b) simp
  show ?thesis
    unfolding required_json_def member_value_simps
    by (simp only: option.inject)
      (subst json_normal_same_keys; simp add: sorted_names_eq [OF provider_kind_name_inj] sorted_names_eq [OF one])
qed

definition covers :: "risk_trigger list option \<Rightarrow> risk_trigger multiset" where
  "covers ts = (case ts of None \<Rightarrow> {#} | Some ts \<Rightarrow> mset ts)"

definition evidence_classes :: "required_evidence \<Rightarrow> provider_kind multiset \<times> adversarial_kind multiset" where
  "evidence_classes r = (mset (re_positive r), mset (re_adversarial r))"

lemma nullable_required_eq:
  "member_value (nullable required_json x) = member_value (nullable required_json y) \<longleftrightarrow>
     map_option evidence_classes x = map_option evidence_classes y"
proof -
  have "member_value (required_json r) \<noteq> Some JNull" for r
    by (simp add: required_json_def member_value_simps json_normal_JObj)
  then show ?thesis
    by (cases x; cases y) (auto simp: nullable_def required_json_eq evidence_classes_def member_value_simps dest: sym)
qed

lemma scope_name_inj: "scope_name a = scope_name b \<longleftrightarrow> a = b"
  by (cases a; cases b) simp_all

lemma semantic_members_eq:
  "json_normal (JObj (semantic_members a)) = json_normal (JObj (semantic_members b)) \<longleftrightarrow>
     sm_claimId a = sm_claimId b \<and> sm_statement a = sm_statement b \<and> sm_critical a = sm_critical b \<and>
     sm_claimScope a = sm_claimScope b \<and> sm_authoritySectionId a = sm_authoritySectionId b \<and>
     sm_expectedCheckId a = sm_expectedCheckId b \<and> sm_expectedAssertion a = sm_expectedAssertion b \<and>
     sm_structuralSurface a = sm_structuralSurface b \<and> sm_mutationProfile a = sm_mutationProfile b \<and>
     sm_counterexampleRequirement a = sm_counterexampleRequirement b \<and>
     covers (sm_coversRiskTriggers a) = covers (sm_coversRiskTriggers b) \<and>
     map_option evidence_classes (sm_requiredEvidence a) = map_option evidence_classes (sm_requiredEvidence b)"
proof -
  have scope: "member_value (undefinable (JStr \<circ> scope_name) x) = member_value (undefinable (JStr \<circ> scope_name) y) \<longleftrightarrow> x = y" for x y
    by (rule member_value_undefinable) (simp_all add: member_value_simps scope_name_inj)
  have ident: "member_value (undefinable identity_json x) = member_value (undefinable identity_json y) \<longleftrightarrow> x = y" for x y
    by (rule member_value_undefinable [OF identity_json_eq]) (simp add: identity_json_def)
  have str: "member_value (nullable JStr x) = member_value (nullable JStr y) \<longleftrightarrow> x = y" for x y
    by (rule member_value_nullable) (simp_all add: member_value_simps)
  have req: "member_value (nullable (JObj \<circ> requirement_members) x) =
      member_value (nullable (JObj \<circ> requirement_members) y) \<longleftrightarrow> x = y" for x y
    by (rule member_value_nullable)
      (simp_all add: requirement_members_eq, simp add: member_value_simps json_normal_JObj)
  have trig: "member_value (sorted_names trigger_name (case x of None \<Rightarrow> [] | Some ts \<Rightarrow> ts)) =
      member_value (sorted_names trigger_name (case y of None \<Rightarrow> [] | Some ts \<Rightarrow> ts)) \<longleftrightarrow> covers x = covers y" for x y
    by (simp add: sorted_names_eq [OF trigger_name_inj] covers_def split: option.split)
  show ?thesis
    unfolding semantic_members_def
    by (subst json_normal_same_keys)
      (simp_all only: list.map prod.sel comp_apply list.inject simp_thms member_value_simps(1,3) option.inject
        jsval.inject scope ident str req trig nullable_required_eq, simp_all)
qed

section \<open>Properties\<close>

text \<open>The certified digest stands for the declared semantics of the claim. A contract claim recomputes
  to the digest its plan approval certified exactly when it is a fact with the same identity, statement,
  criticality and scope, the same section, check, assertion, surface, mutation profile and counterexample
  requirement, the same covered triggers and the required evidence the declaration calls for (both up to
  order), as long as the hash keeps these two texts apart. In particular the materialised claim cannot
  drop an evidence class or widen its trigger coverage (C36).\<close>

theorem certified_digest_is_semantics:
  assumes "dc_certifiedPlan c = Some origin"
    and "inj_on hash {canonicalJsonStringify (JObj (semantic_members (materialized_semantics c origin))),
                      canonicalJsonStringify (JObj (semantic_members (declaration_semantics d)))}"
  shows "materializedClaimDigest hash c = Some (certifiedClaimDigest hash d) \<longleftrightarrow>
     dc_signalClass c = Fact \<and> dc_claimId c = pl_claimId d \<and> dc_statement c = pl_statement d \<and>
     dc_critical c = pl_critical d \<and> dc_claimScope c = Some (pl_claimScope d) \<and>
     cp_authoritySectionId origin = pl_authoritySectionId d \<and>
     cp_expectedCheckId origin = pl_expectedCheckId d \<and>
     cp_expectedAssertion origin = pl_expectedAssertion d \<and>
     cp_structuralSurface origin = pl_structuralSurface d \<and>
     cp_mutationProfile origin = pl_mutationProfile d \<and>
     dc_counterexampleRequirement c = pl_counterexampleRequirement d \<and>
     covers (dc_coversRiskTriggers c) = covers (pl_coversRiskTriggers d) \<and>
     map_option evidence_classes (dc_requiredEvidence c) =
       Some (evidence_classes (requiredEvidenceForDeclaration d))"
proof -
  have "materializedClaimDigest hash c = Some (certifiedClaimDigest hash d) \<longleftrightarrow>
      dc_signalClass c = Fact \<and>
      json_normal (JObj (semantic_members (materialized_semantics c origin))) =
      json_normal (JObj (semantic_members (declaration_semantics d)))"
    unfolding materializedClaimDigest_def certifiedClaimDigest_def semanticDigest_def
      canonicalJsonStringify_eq_iff [symmetric]
    by (simp add: assms(1) inj_on_eq_iff [OF assms(2)])
  then show ?thesis
    by (simp add: semantic_members_eq materialized_semantics_def declaration_semantics_def conj_ac)
qed

definition sample_declaration :: plan_claim where
  "sample_declaration =
     \<lparr>pl_claimId = ''c1'', pl_statement = ''a retry never charges twice'', pl_critical = True,
      pl_authoritySectionId = ''s1'', pl_claimScope = Specific_behavior, pl_expectedCheckId = ''test'',
      pl_expectedAssertion = None,
      pl_counterexampleRequirement = Some (Req_assertion ''build'' \<lparr>ai_providerId = ''junit'', ai_localId = ''t''\<rparr>),
      pl_structuralSurface = Some ''config-defaults'', pl_mutationProfile = None,
      pl_coversRiskTriggers = Some [State_integrity, Migration]\<rparr>"

definition sample_origin :: certified_plan where
  "sample_origin =
     \<lparr>cp_authoritySectionId = ''s1'', cp_expectedCheckId = ''test'', cp_expectedAssertion = None,
      cp_structuralSurface = Some ''config-defaults'', cp_mutationProfile = None, cp_digest = ''d''\<rparr>"

definition sample_claim :: declared_claim where
  "sample_claim =
     \<lparr>dc_claimId = ''c1'', dc_statement = ''a retry never charges twice'', dc_signalClass = Fact,
      dc_critical = True, dc_claimScope = Some Specific_behavior,
      dc_provenance = Some (Canonical_authority ''plan'' ''pd'' None),
      dc_evidenceRefs = [Validation_attempt_ref ''a1''], dc_counterexampleRefs = [Validation_attempt_ref ''a2''],
      dc_requiredEvidence = Some \<lparr>re_positive = [Schema_compare, Executed_test], re_adversarial = [Adv_counterexample]\<rparr>,
      dc_counterexampleRequirement = Some (Req_assertion ''build'' \<lparr>ai_providerId = ''junit'', ai_localId = ''t''\<rparr>),
      dc_coversRiskTriggers = Some [Migration, State_integrity], dc_certifiedPlan = Some sample_origin,
      dc_confidence = None\<rparr>"

theorem certified_digest_is_semantics_witness:
  "materializedClaimDigest (\<lambda>s. CHR ''h'' # s) sample_claim =
     Some (certifiedClaimDigest (\<lambda>s. CHR ''h'' # s) sample_declaration) \<and>
   materializedClaimDigest (\<lambda>s. CHR ''h'' # s) (sample_claim\<lparr>dc_coversRiskTriggers := None\<rparr>) \<noteq>
     Some (certifiedClaimDigest (\<lambda>s. CHR ''h'' # s) sample_declaration)"
proof
  note iff = certified_digest_is_semantics [where hash = "\<lambda>s. CHR ''h'' # s" and d = sample_declaration
      and origin = sample_origin]
  show "materializedClaimDigest (\<lambda>s. CHR ''h'' # s) sample_claim =
      Some (certifiedClaimDigest (\<lambda>s. CHR ''h'' # s) sample_declaration)"
    by (subst iff) (auto simp: sample_claim_def sample_declaration_def sample_origin_def covers_def
        evidence_classes_def requiredEvidenceForDeclaration_def truthy_def inj_on_def)
  show "materializedClaimDigest (\<lambda>s. CHR ''h'' # s) (sample_claim\<lparr>dc_coversRiskTriggers := None\<rparr>) \<noteq>
      Some (certifiedClaimDigest (\<lambda>s. CHR ''h'' # s) sample_declaration)"
    by (subst iff) (auto simp: sample_claim_def sample_declaration_def covers_def inj_on_def)
qed

end
