(* ===== verification/Evidence_Binding.thy ===== *)
theory Evidence_Binding
  imports Proof_Claims
begin

text \<open>The binders that turn recorded executions into evidence for claims: the integrity of an assertion
  report (\<open>state/assertion-evidence-integrity.ts\<close>), the decision whether a report answers one assertion
  requirement (\<open>audit/proofgraph/assertion-evidence-binding.ts\<close>), counterexamples
  (\<open>audit/proofgraph/counterexample-binder.ts\<close>), executed tests
  (\<open>audit/proofgraph/executed-test-binder.ts\<close>) and mutation evidence
  (\<open>audit/proofgraph/mutation-binder.ts\<close>).

  The session state enters as the parts the binders read: the contract, the attempt ledgers and the digest
  of the current implementation.  Mutation verdicts come from report files, so they are a parameter.\<close>

definition quoted :: "string \<Rightarrow> string" where
  "quoted s = CHR 0x27 # s @ [CHR 0x27]"

section \<open>Integrity of an assertion report\<close>

datatype integrity = Integrity_valid | Integrity_invalid binding_code string

definition status_failure :: "string \<Rightarrow> string \<Rightarrow> integrity option" where
  "status_failure code reason =
     (if code = ''assertion_identity_ambiguous''
      then Some (Integrity_invalid Assertion_identity_ambiguous reason)
      else if code = ''assertion_provider_mismatch'' then Some (Integrity_invalid Provider_mismatch reason)
      else None)"

fun extractionStatusFailure :: "assertion_extraction \<Rightarrow> integrity option" where
  "extractionStatusFailure (Extraction_inconclusive _ code reason) = status_failure code reason"
| "extractionStatusFailure (Extraction_blocked _ code reason) = status_failure code reason"
| "extractionStatusFailure _ = None"

definition envelopeFailure :: "extracted_assertions \<Rightarrow> integrity option" where
  "envelopeFailure e =
     (case List.find (\<lambda>a. ae_providerId a \<noteq> ea_providerId e \<or> ae_assertionProvider a \<noteq> ea_providerId e)
            (ea_assertions e) of
        None \<Rightarrow> None
      | Some a \<Rightarrow> Some (Integrity_invalid Provider_mismatch
          (''assertion '' @ quoted (ae_localId a) @ '' belongs to provider '' @ quoted (ae_assertionProvider a) @
           '' but extraction provider is '' @ quoted (ea_providerId e))))"

definition assertion_key :: "assertion_evidence \<Rightarrow> string \<times> string" where
  "assertion_key a = (ae_assertionProvider a, ae_localId a)"

text \<open>The loop over the assertions: a repeated provider-scoped identity is refused.\<close>
fun repeated_identity :: "(string \<times> string) list \<Rightarrow> assertion_evidence list \<Rightarrow> bool" where
  "repeated_identity seen [] = False"
| "repeated_identity seen (a # as) =
     (if assertion_key a \<in> set seen then True else repeated_identity (assertion_key a # seen) as)"

definition duplicateIdentityFailure :: "extracted_assertions \<Rightarrow> integrity option" where
  "duplicateIdentityFailure e =
     (if repeated_identity [] (ea_assertions e)
      then Some (Integrity_invalid Assertion_identity_ambiguous
        (''structured assertion extraction contains duplicate provider-scoped identities; '' @
         ''no result may be selected by order''))
      else None)"

definition or_else :: "'a option \<Rightarrow> 'a option \<Rightarrow> 'a option" where
  "or_else x y = (case x of None \<Rightarrow> y | Some _ \<Rightarrow> x)"

definition assessAssertionEvidenceIntegrity :: "assertion_extraction option \<Rightarrow> integrity" where
  "assessAssertionEvidenceIntegrity x =
     (case x of
        None \<Rightarrow> Integrity_valid
      | Some e \<Rightarrow>
          (case extractionStatusFailure e of
             Some f \<Rightarrow> f
           | None \<Rightarrow>
               (case e of
                  Extracted d \<Rightarrow>
                    if ea_bindingCapability d \<noteq> Bind_assertion then Integrity_valid
                    else (case or_else (envelopeFailure d) (duplicateIdentityFailure d) of
                            Some f \<Rightarrow> f | None \<Rightarrow> Integrity_valid)
                | _ \<Rightarrow> Integrity_valid)))"

section \<open>Binding one assertion\<close>

datatype binding_decision = Bound assertion_evidence string | Rejected binding_code string

fun describeMissingExtraction :: "assertion_extraction option \<Rightarrow> string" where
  "describeMissingExtraction None = ''no extraction result available''"
| "describeMissingExtraction (Some (Extraction_blocked _ _ reason)) = ''extraction blocked: '' @ reason"
| "describeMissingExtraction (Some (Extraction_inconclusive _ _ reason)) = ''extraction inconclusive: '' @ reason"
| "describeMissingExtraction (Some Not_configured) = ''no structured assertion capability configured''"
| "describeMissingExtraction (Some (Extracted _)) = ''extraction status: extracted''"

definition validatePreconditions ::
  "counterexample_requirement \<Rightarrow> string \<Rightarrow> assertion_extraction option \<Rightarrow> binding_decision option" where
  "validatePreconditions req checkId x =
     (case req of
        Req_aggregate _ _ \<Rightarrow>
          Some (Rejected Evidence_missing ''counterexample requirement does not bind a specific assertion'')
      | Req_assertion expected _ \<Rightarrow>
          if checkId \<noteq> expected
          then Some (Rejected Check_mismatch (''expected check '' @ quoted expected @ '', got '' @ quoted checkId))
          else
            (case x of
               Some (Extracted d) \<Rightarrow>
                 if ea_bindingCapability d \<noteq> Bind_assertion
                 then Some (Rejected Check_only_evidence
                   (''check '' @ quoted checkId @ '' only provides check-level evidence''))
                 else None
             | _ \<Rightarrow>
                 (case assessAssertionEvidenceIntegrity x of
                    Integrity_invalid code detail \<Rightarrow> Some (Rejected code detail)
                  | Integrity_valid \<Rightarrow> Some (Rejected Evidence_missing (describeMissingExtraction x)))))"

definition matchAssertion :: "assertion_identity \<Rightarrow> extracted_assertions \<Rightarrow> binding_decision" where
  "matchAssertion a d =
     (if ea_providerId d \<noteq> ai_providerId a
      then Rejected Provider_mismatch (''required '' @ quoted (ai_providerId a) @ '', got '' @ quoted (ea_providerId d))
      else
        (case assessAssertionEvidenceIntegrity (Some (Extracted d)) of
           Integrity_invalid code detail \<Rightarrow> Rejected code detail
         | Integrity_valid \<Rightarrow>
             (case List.find (\<lambda>e. ae_assertionProvider e = ai_providerId a \<and> ae_localId e = ai_localId a)
                    (ea_assertions d) of
                None \<Rightarrow>
                  (let found = join '', '' (map ae_localId (ea_assertions d))
                   in Rejected Assertion_mismatch
                        (''required '' @ quoted (ai_localId a) @ '' not found; found: '' @
                         (if found = [] then ''none'' else found)))
              | Some e \<Rightarrow>
                  if ae_providerId e \<noteq> ai_providerId a
                  then Rejected Provider_mismatch
                    (''required '' @ quoted (ai_providerId a) @ '', assertion belongs to '' @ quoted (ae_providerId e))
                  else Bound e (ea_attemptId d))))"

definition bindAssertionEvidence ::
  "counterexample_requirement \<Rightarrow> string \<Rightarrow> assertion_extraction option \<Rightarrow> binding_decision" where
  "bindAssertionEvidence req checkId x =
     (case validatePreconditions req checkId x of
        Some d \<Rightarrow> d
      | None \<Rightarrow>
          (case (req, x) of
             (Req_assertion _ a, Some (Extracted d)) \<Rightarrow> matchAssertion a d
           | _ \<Rightarrow> Rejected Evidence_missing []))"

section \<open>Counterexamples\<close>

type_synonym diagnostics = "(string \<times> binding_code) list"

definition classifyAggregateOutcome ::
  "validation_result \<Rightarrow> string \<Rightarrow> string option \<Rightarrow> counterexample_outcome \<times> binding_code option" where
  "classifyAggregateOutcome r checkId cand =
     (if vr_checkId r \<noteq> checkId then (Cx_not_verified, Some Aggregate_check_mismatch)
      else if cand \<noteq> None \<and> vr_candidateId r \<noteq> cand then (Cx_not_verified, Some Aggregate_candidate_mismatch)
      else if \<not> vr_fullCheckScope r then (Cx_not_verified, Some Aggregate_scope_unattested)
      else
        (case vr_assertionExtraction r of
           Some (Extracted d) \<Rightarrow>
             if ea_bindingCapability d \<noteq> Bind_aggregate then (Cx_not_verified, Some Aggregate_capability_missing)
             else (if vr_passed r then Cx_supported else Cx_contradicted, None)
         | _ \<Rightarrow> (Cx_not_verified, Some Aggregate_extraction_missing)))"

fun assertion_outcome :: "assertion_status \<Rightarrow> counterexample_outcome" where
  "assertion_outcome A_failed = Cx_contradicted"
| "assertion_outcome A_passed = Cx_supported"
| "assertion_outcome A_errored = Cx_blocked"
| "assertion_outcome A_skipped = Cx_not_verified"

definition classifyClaimOutcome ::
  "validation_result \<Rightarrow> counterexample_requirement \<Rightarrow> counterexample_outcome \<times> binding_code option" where
  "classifyClaimOutcome r req =
     (case req of
        Req_aggregate checkId cand \<Rightarrow> classifyAggregateOutcome r checkId cand
      | Req_assertion _ _ \<Rightarrow>
          if vr_assertionExtraction r = None then (Cx_not_verified, Some Evidence_missing)
          else
            (case bindAssertionEvidence req (vr_checkId r) (vr_assertionExtraction r) of
               Rejected code _ \<Rightarrow> (Cx_not_verified, Some code)
             | Bound a _ \<Rightarrow> (assertion_outcome (ae_status a), None)))"

text \<open>The implementation digest of an attempt, if it has implementation scope.\<close>
definition implementation_scope :: "validation_attempt \<Rightarrow> string option" where
  "implementation_scope a = (case va_scope a of Baseline _ \<Rightarrow> None | For_implementation _ digest \<Rightarrow> Some digest)"

definition implementation_attempt :: "validation_attempt list \<Rightarrow> string \<Rightarrow> (validation_attempt \<times> string) option" where
  "implementation_attempt attempts i =
     (case List.find (\<lambda>a. va_attemptId a = i) attempts of
        None \<Rightarrow> None
      | Some a \<Rightarrow> map_option (\<lambda>digest. (a, digest)) (implementation_scope a))"

text \<open>One reference of a claim: the counterexample it yields, if any, and its diagnostic.\<close>
definition bind_counterexample ::
  "'a declared_claim_scheme \<Rightarrow> validation_attempt list \<Rightarrow> string \<Rightarrow> string \<Rightarrow> evidence_ref \<Rightarrow>
     (counterexample \<times> binding_code option) option" where
  "bind_counterexample claim attempts currentDigest evaluatedAt ref =
     (case ref of
        Validation_attempt_ref i \<Rightarrow>
          if i = [] then None
          else Some
            (case implementation_attempt attempts i of
               None \<Rightarrow>
                 (\<lparr>cx_claimId = dc_claimId claim, cx_attemptId = i, cx_checkId = ''unresolved_validation_attempt'',
                   cx_scenario = ''unresolved counterexample attempt '' @ i, cx_outcome = Cx_not_verified,
                   cx_boundDigest = currentDigest, cx_executedAt = evaluatedAt\<rparr>, None)
             | Some (a, digest) \<Rightarrow>
                 (let (outcome, code) =
                        (case dc_counterexampleRequirement claim of
                           None \<Rightarrow> (Cx_not_verified, None)
                         | Some req \<Rightarrow> classifyClaimOutcome (va_result a) req)
                  in (\<lparr>cx_claimId = dc_claimId claim, cx_attemptId = va_attemptId a,
                        cx_checkId = vr_checkId (va_result a),
                        cx_scenario = ''falsification via check '' @ quoted (vr_checkId (va_result a)),
                        cx_outcome = outcome, cx_boundDigest = digest,
                        cx_executedAt = vr_executedAt (va_result a)\<rparr>, code)))
      | _ \<Rightarrow> None)"

text \<open>\<open>if (!diagnostics.has(id)) diagnostics.set(id, code)\<close>.\<close>
definition note_first :: "string \<Rightarrow> binding_code option \<Rightarrow> diagnostics \<Rightarrow> diagnostics" where
  "note_first i code ds =
     (case code of None \<Rightarrow> ds | Some c \<Rightarrow> if map_of ds i = None then ds @ [(i, c)] else ds)"

definition bindClaimCounterexamples ::
  "validation_attempt list \<Rightarrow> string \<Rightarrow> string \<Rightarrow> 'a declared_claim_scheme \<Rightarrow> diagnostics \<Rightarrow>
     counterexample list \<times> diagnostics" where
  "bindClaimCounterexamples attempts currentDigest evaluatedAt claim ds =
     (let bound = List.map_filter (bind_counterexample claim attempts currentDigest evaluatedAt)
                    (dc_counterexampleRefs claim)
      in (map fst bound, foldl (\<lambda>ds (_, code). note_first (dc_claimId claim) code ds) ds bound))"

definition contract_claims :: "proof_contract option \<Rightarrow> declared_claim list" where
  "contract_claims contract = (case contract of None \<Rightarrow> [] | Some ct \<Rightarrow> ct_claims ct)"

definition bindCounterexamples ::
  "proof_contract option \<Rightarrow> validation_attempt list \<Rightarrow> string option \<Rightarrow> string \<Rightarrow> counterexample list \<times> diagnostics" where
  "bindCounterexamples contract attempts implementation evaluatedAt =
     (case implementation of
        None \<Rightarrow> ([], [])
      | Some currentDigest \<Rightarrow>
          foldl (\<lambda>(cxs, ds) claim.
                   let (new, ds') = bindClaimCounterexamples attempts currentDigest evaluatedAt claim ds
                   in (cxs @ new, ds'))
            ([], []) (contract_claims contract))"

section \<open>Executed tests\<close>

definition EXECUTED_TEST_PROVIDER_ID :: string where
  "EXECUTED_TEST_PROVIDER_ID = ''executed-test''"

definition EXECUTED_TEST_PROVIDER_VERSION :: string where
  "EXECUTED_TEST_PROVIDER_VERSION = ''executed-test.v1''"

definition VALIDATION_CHECK_LOCATION_PREFIX :: string where
  "VALIDATION_CHECK_LOCATION_PREFIX = ''validation-check:''"

definition lacksRequiredSuiteScope :: "'a declared_claim_scheme \<Rightarrow> validation_result \<Rightarrow> bool" where
  "lacksRequiredSuiteScope claim r = (dc_claimScope claim = Some Suite \<and> \<not> vr_fullCheckScope r)"

definition evidence_defect :: "'a declared_claim_scheme \<Rightarrow> validation_result \<Rightarrow> string \<Rightarrow> string option" where
  "evidence_defect claim r attemptId =
     (case assessAssertionEvidenceIntegrity (vr_assertionExtraction r) of
        Integrity_invalid _ detail \<Rightarrow> Some detail
      | Integrity_valid \<Rightarrow>
          if lacksRequiredSuiteScope claim r
          then Some (''suite claim requires a full-check attested attempt for '' @ attemptId) else None)"

definition unavailableAttemptDetail :: "'a declared_claim_scheme \<Rightarrow> validation_result \<Rightarrow> string \<Rightarrow> string option" where
  "unavailableAttemptDetail claim r attemptId =
     (case dc_certifiedPlan claim of
        Some origin \<Rightarrow>
          if vr_checkId r \<noteq> cp_expectedCheckId origin
          then Some (''attempt '' @ attemptId @ '' executed check '' @ quoted (vr_checkId r) @
                     '', not the certified positive check '' @ quoted (cp_expectedCheckId origin))
          else evidence_defect claim r attemptId
      | None \<Rightarrow> evidence_defect claim r attemptId)"

definition unavailable_test :: "string \<Rightarrow> string \<Rightarrow> string \<Rightarrow> provider_result" where
  "unavailable_test claimId evaluatedAt detail =
     \<lparr>pr_claimId = claimId, pr_providerKind = Executed_test, pr_providerId = EXECUTED_TEST_PROVIDER_ID,
      pr_providerVersion = EXECUTED_TEST_PROVIDER_VERSION, pr_executionRecordId = None,
      pr_executedAt = evaluatedAt, pr_detail = Some detail, pr_attestation = Flowguard_executed,
      pr_outcome = Unavailable None None\<rparr>"

definition bind_executed_test ::
  "'a declared_claim_scheme \<Rightarrow> validation_attempt list \<Rightarrow> string \<Rightarrow> evidence_ref \<Rightarrow> provider_result option" where
  "bind_executed_test claim attempts evaluatedAt ref =
     (case ref of
        Validation_attempt_ref i \<Rightarrow> Some
          (case implementation_attempt attempts i of
             None \<Rightarrow> unavailable_test (dc_claimId claim) evaluatedAt (''no implementation validation attempt for '' @ i)
           | Some (a, digest) \<Rightarrow>
               (let r = va_result a
                in case unavailableAttemptDetail claim r i of
                     Some detail \<Rightarrow> unavailable_test (dc_claimId claim) evaluatedAt detail
                   | None \<Rightarrow>
                       \<lparr>pr_claimId = dc_claimId claim, pr_providerKind = Executed_test,
                        pr_providerId = EXECUTED_TEST_PROVIDER_ID,
                        pr_providerVersion = EXECUTED_TEST_PROVIDER_VERSION,
                        pr_executionRecordId = Some (va_attemptId a), pr_executedAt = vr_executedAt r,
                        pr_detail = Some (vr_command r), pr_attestation = Flowguard_executed,
                        pr_outcome = Executed
                          (if vr_passed r then St_pass else if isExecutionError r then St_error else St_fail)
                          \<lparr>ee_input = (if vr_command r \<noteq> [] then Input_command (vr_command r)
                                       else Input_assertion (''check:'' @ vr_checkId r)),
                           ee_location = VALIDATION_CHECK_LOCATION_PREFIX @ vr_checkId r,
                           ee_stableId = vr_checkId r, ee_binding = Bound_implementation digest,
                           ee_resultDigest = vr_outputDigest r\<rparr>\<rparr>))
      | _ \<Rightarrow> None)"

definition bindExecutedTestEvidence ::
  "proof_contract option \<Rightarrow> validation_attempt list \<Rightarrow> string \<Rightarrow> provider_result list" where
  "bindExecutedTestEvidence contract attempts evaluatedAt =
     concat (map (\<lambda>claim. List.map_filter (bind_executed_test claim attempts evaluatedAt) (dc_evidenceRefs claim))
       (contract_claims contract))"

section \<open>Mutation evidence\<close>

record mutation_attempt =
  ma_attemptId :: string
  ma_implementationDigest :: string
  ma_command :: string
  ma_startedAt :: string
  ma_completedAt :: string
  ma_exitCode :: int
  ma_artifactDigest :: string
  ma_projectionDigest :: string
  ma_reportPath :: string
  ma_providerVersion :: string

record profile_verdict =
  pv_survivorCount :: nat
  pv_killedCount :: nat
  pv_covered :: bool

definition MUTATION_PROVIDER_ID :: string where
  "MUTATION_PROVIDER_ID = ''semantic-mutation''"

definition MUTATION_PROVIDER_VERSION :: string where
  "MUTATION_PROVIDER_VERSION = ''semantic-mutation.v1''"

definition unavailable_mutation :: "string \<Rightarrow> string \<Rightarrow> string \<Rightarrow> provider_result" where
  "unavailable_mutation claimId evaluatedAt reason =
     \<lparr>pr_claimId = claimId, pr_providerKind = Fault_injection, pr_providerId = MUTATION_PROVIDER_ID,
      pr_providerVersion = MUTATION_PROVIDER_VERSION, pr_executionRecordId = None,
      pr_executedAt = evaluatedAt, pr_detail = Some reason, pr_attestation = External_self_reported,
      pr_outcome = Unavailable None None\<rparr>"

definition resolveFromAttempt :: "string \<Rightarrow> mutation_attempt \<Rightarrow> string \<Rightarrow> nat \<Rightarrow> nat \<Rightarrow> provider_result" where
  "resolveFromAttempt claimId a profileId survivors killed =
     (let result = (\<lambda>status detail.
            \<lparr>pr_claimId = claimId, pr_providerKind = Fault_injection, pr_providerId = MUTATION_PROVIDER_ID,
             pr_providerVersion = ma_providerVersion a, pr_executionRecordId = None,
             pr_executedAt = ma_completedAt a, pr_detail = Some detail, pr_attestation = External_self_reported,
             pr_outcome = Executed status
               \<lparr>ee_input = Input_command (ma_command a), ee_location = ''mutation-attempt:'' @ ma_attemptId a,
                ee_stableId = ma_attemptId a @ '':'' @ profileId,
                ee_binding = Bound_implementation (ma_implementationDigest a),
                ee_resultDigest = ma_projectionDigest a\<rparr>\<rparr>)
      in if ma_exitCode a \<noteq> 0
         then result St_error (''mutation command exited with code '' @ show_int (ma_exitCode a) @ ''; no valid verdict'')
         else if survivors = 0
         then result St_pass (profileId @ '': '' @ show_nat killed @ '' mutants detected, no survivors'')
         else result St_fail (profileId @ '': '' @ show_nat survivors @ '' surviving mutants ('' @ show_nat killed @ '' detected)''))"

definition bind_mutation ::
  "'a declared_claim_scheme \<Rightarrow> mutation_attempt list \<Rightarrow> (string \<Rightarrow> string \<Rightarrow> profile_verdict option) \<Rightarrow> string \<Rightarrow>
     evidence_ref \<Rightarrow> provider_result option" where
  "bind_mutation claim attempts verdicts evaluatedAt ref =
     (case ref of
        Mutation_attempt_ref i profileId \<Rightarrow> Some
          (case last_by ma_attemptId attempts i of
             None \<Rightarrow> unavailable_mutation (dc_claimId claim) evaluatedAt
               (''referenced mutation attempt '' @ i @ '' not found in session state'')
           | Some a \<Rightarrow>
               (case verdicts i profileId of
                  Some v \<Rightarrow>
                    if pv_covered v
                    then resolveFromAttempt (dc_claimId claim) a profileId (pv_survivorCount v) (pv_killedCount v)
                    else unavailable_mutation (dc_claimId claim) evaluatedAt
                      (''mutation attempt '' @ i @ '' has no digest-verified verdict for profile '' @ profileId)
                | None \<Rightarrow> unavailable_mutation (dc_claimId claim) evaluatedAt
                    (''mutation attempt '' @ i @ '' has no digest-verified verdict for profile '' @ profileId)))
      | Mutation_profile_ref profileId \<Rightarrow> Some
          (unavailable_mutation (dc_claimId claim) evaluatedAt
             (''mutation profile '' @ profileId @ '' referenced but no concrete MutationAttempt recorded; use '' @
              ''flowguard_record_mutation_evidence''))
      | _ \<Rightarrow> None)"

definition bindMutationEvidence ::
  "proof_contract option \<Rightarrow> mutation_attempt list \<Rightarrow> (string \<Rightarrow> string \<Rightarrow> profile_verdict option) \<Rightarrow> string \<Rightarrow>
     provider_result list" where
  "bindMutationEvidence contract attempts verdicts evaluatedAt =
     concat (map (\<lambda>claim. List.map_filter (bind_mutation claim attempts verdicts evaluatedAt) (dc_evidenceRefs claim))
       (contract_claims contract))"

section \<open>Lemmas\<close>

lemma repeated_identity_iff:
  "repeated_identity seen as \<longleftrightarrow>
     \<not> distinct (map assertion_key as) \<or> (\<exists>a \<in> set as. assertion_key a \<in> set seen)"
  by (induction as arbitrary: seen) (auto simp: image_iff, metis)

lemma integrity_of_assertions:
  assumes "ea_bindingCapability d = Bind_assertion"
  shows "assessAssertionEvidenceIntegrity (Some (Extracted d)) = Integrity_valid \<longleftrightarrow>
     list_all (\<lambda>x. ae_providerId x = ea_providerId d \<and> ae_assertionProvider x = ea_providerId d) (ea_assertions d) \<and>
     distinct (map ae_localId (ea_assertions d))"
proof -
  have env: "envelopeFailure d = None \<longleftrightarrow>
      list_all (\<lambda>x. ae_providerId x = ea_providerId d \<and> ae_assertionProvider x = ea_providerId d) (ea_assertions d)"
  proof -
    let ?P = "\<lambda>a. ae_providerId a \<noteq> ea_providerId d \<or> ae_assertionProvider a \<noteq> ea_providerId d"
    have "envelopeFailure d = None \<longleftrightarrow> List.find ?P (ea_assertions d) = None"
      unfolding envelopeFailure_def by (cases "List.find ?P (ea_assertions d)") (simp_all only: option.case option.distinct refl)
    then show ?thesis by (simp add: find_None_iff_all)
  qed
  have dup: "duplicateIdentityFailure d = None \<longleftrightarrow> distinct (map assertion_key (ea_assertions d))"
    by (simp add: duplicateIdentityFailure_def repeated_identity_iff)
  have fails: "envelopeFailure d \<noteq> Some Integrity_valid" "duplicateIdentityFailure d \<noteq> Some Integrity_valid"
    by (auto simp: envelopeFailure_def duplicateIdentityFailure_def split: option.split)
  have "distinct (map assertion_key (ea_assertions d)) = distinct (map ae_localId (ea_assertions d))"
    if "list_all (\<lambda>x. ae_providerId x = ea_providerId d \<and> ae_assertionProvider x = ea_providerId d) (ea_assertions d)"
    using that by (auto simp: distinct_map list_all_iff assertion_key_def inj_on_def)
  then show ?thesis
    using env dup fails assms
    by (auto simp: assessAssertionEvidenceIntegrity_def or_else_def split: option.splits)
qed

lemma bound_iff:
  "bindAssertionEvidence (Req_assertion check a) checkId x = Bound e i \<longleftrightarrow>
     checkId = check \<and>
     (\<exists>d. x = Some (Extracted d) \<and> ea_bindingCapability d = Bind_assertion \<and> ea_providerId d = ai_providerId a \<and>
        assessAssertionEvidenceIntegrity x = Integrity_valid \<and> ea_attemptId d = i \<and>
        List.find (\<lambda>e. ae_assertionProvider e = ai_providerId a \<and> ae_localId e = ai_localId a) (ea_assertions d) = Some e \<and>
        ae_providerId e = ai_providerId a)"
proof (cases "checkId = check \<and> (\<exists>d. x = Some (Extracted d) \<and> ea_bindingCapability d = Bind_assertion)")
  case True
  then obtain d where d: "x = Some (Extracted d)" "ea_bindingCapability d = Bind_assertion" "checkId = check"
    by blast
  then have "bindAssertionEvidence (Req_assertion check a) checkId x = matchAssertion a d"
    by (simp add: bindAssertionEvidence_def validatePreconditions_def)
  then show ?thesis
    by (auto simp: d matchAssertion_def Let_def split: integrity.splits option.splits if_splits)
next
  case False
  then have "\<exists>code detail. validatePreconditions (Req_assertion check a) checkId x = Some (Rejected code detail)"
  proof (cases "checkId = check")
    case True
    have refused: "\<exists>code detail. (case i of Integrity_invalid code detail \<Rightarrow> Some (Rejected code detail)
        | Integrity_valid \<Rightarrow> Some (Rejected c t)) = Some (Rejected code detail)" for i c t
      by (cases i) simp_all
    show ?thesis
    proof (cases x)
      case (Some y)
      then show ?thesis using True False by (cases y) (simp_all add: validatePreconditions_def refused)
    qed (simp add: validatePreconditions_def refused True)
  qed (simp add: validatePreconditions_def)
  then obtain code detail where "validatePreconditions (Req_assertion check a) checkId x = Some (Rejected code detail)"
    by blast
  then have "bindAssertionEvidence (Req_assertion check a) checkId x = Rejected code detail"
    by (simp add: bindAssertionEvidence_def)
  then show ?thesis using False by auto
qed

lemma find_unique:
  assumes "distinct (map f xs)" and "x \<in> set xs" and "P x" and "\<And>y. P y \<Longrightarrow> f y = f x"
  shows "List.find P xs = Some x"
  using assms(1,2)
proof (induction xs)
  case (Cons y xs)
  show ?case
  proof (cases "y = x")
    case False
    then have x: "x \<in> set xs" using Cons.prems(2) by simp
    then have "f y \<noteq> f x" using Cons.prems(1) by (auto simp: image_iff)
    then have "\<not> P y" using assms(4) by blast
    then show ?thesis using Cons.IH Cons.prems(1) x by simp
  qed (simp add: assms(3))
qed simp

section \<open>Properties\<close>

text \<open>A claim is falsified only by its own assertion. For a requirement that names an assertion the
  outcome is contradicted exactly when the executed check is the required one, its report is an
  assertion-level extraction of the required provider in which every entry belongs to that provider and
  no identity repeats, and the named assertion itself failed. Whether the check as a whole passed or
  failed, its exit code and any other failing assertion play no part (C35).\<close>

theorem contradiction_needs_named_failure:
  "fst (classifyClaimOutcome r (Req_assertion check a)) = Cx_contradicted \<longleftrightarrow>
     vr_checkId r = check \<and>
     (\<exists>d e. vr_assertionExtraction r = Some (Extracted d) \<and> ea_bindingCapability d = Bind_assertion \<and>
        ea_providerId d = ai_providerId a \<and>
        list_all (\<lambda>x. ae_providerId x = ea_providerId d \<and> ae_assertionProvider x = ea_providerId d) (ea_assertions d) \<and>
        distinct (map ae_localId (ea_assertions d)) \<and>
        e \<in> set (ea_assertions d) \<and> ae_localId e = ai_localId a \<and> ae_status e = A_failed)"
proof -
  have "fst (classifyClaimOutcome r (Req_assertion check a)) = Cx_contradicted \<longleftrightarrow>
      (\<exists>e i. bindAssertionEvidence (Req_assertion check a) (vr_checkId r) (vr_assertionExtraction r) = Bound e i \<and>
         ae_status e = A_failed)"
  proof (cases "vr_assertionExtraction r")
    case None
    then show ?thesis by (auto simp: classifyClaimOutcome_def bound_iff)
  next
    case (Some x)
    have failed: "assertion_outcome st = Cx_contradicted \<longleftrightarrow> st = A_failed" for st by (cases st) simp_all
    show ?thesis by (auto simp: classifyClaimOutcome_def Some failed split: binding_decision.split)
  qed
  also have "\<dots> \<longleftrightarrow> vr_checkId r = check \<and>
     (\<exists>d e. vr_assertionExtraction r = Some (Extracted d) \<and> ea_bindingCapability d = Bind_assertion \<and>
        ea_providerId d = ai_providerId a \<and>
        list_all (\<lambda>x. ae_providerId x = ea_providerId d \<and> ae_assertionProvider x = ea_providerId d) (ea_assertions d) \<and>
        distinct (map ae_localId (ea_assertions d)) \<and>
        e \<in> set (ea_assertions d) \<and> ae_localId e = ai_localId a \<and> ae_status e = A_failed)"
    (is "?bound \<longleftrightarrow> _ \<and> ?named")
  proof (intro iffI conjI)
    assume ?bound
    then show "vr_checkId r = check" by (auto simp: bound_iff)
    from \<open>?bound\<close> show ?named
      by (auto simp: bound_iff integrity_of_assertions dest!: find_SomeD)
  next
    assume *: "vr_checkId r = check \<and> ?named"
    then obtain d e where d: "vr_assertionExtraction r = Some (Extracted d)" "ea_bindingCapability d = Bind_assertion"
        "ea_providerId d = ai_providerId a"
        "list_all (\<lambda>x. ae_providerId x = ea_providerId d \<and> ae_assertionProvider x = ea_providerId d) (ea_assertions d)"
        "distinct (map ae_localId (ea_assertions d))"
      and e: "e \<in> set (ea_assertions d)" "ae_localId e = ai_localId a" "ae_status e = A_failed" by blast
    have "List.find (\<lambda>e. ae_assertionProvider e = ai_providerId a \<and> ae_localId e = ai_localId a) (ea_assertions d) = Some e"
      by (rule find_unique [OF d(5) e(1)]) (use d e in \<open>simp_all add: list_all_iff\<close>)
    then show ?bound
      using * d e by (auto simp: bound_iff integrity_of_assertions list_all_iff)
  qed
  finally show ?thesis .
qed

end
