(* ===== verification/Proof_Evaluation.thy ===== *)
theory Proof_Evaluation
  imports Evidence_Binding "HOL-Library.Product_Lexorder" "HOL-Library.AList"
begin

text \<open>The evaluator of the proof graph (\<open>audit/proofgraph/evaluate.ts\<close>), the independence of evidence roles
  (\<open>audit/proofgraph/evidence-role-independence.ts\<close>), the derivation of a session's projection
  (\<open>audit/proofgraph/derive.ts\<close>) and the qualification of a cached projection
  (\<open>audit/proofgraph/evidence-integrity.ts\<close>).

  \<open>evaluateProofGraph\<close> assigns every declared claim a state from the provider results and the selected
  counterexamples.  The properties say what \<open>PROVEN\<close> needs and what a falsification excludes.\<close>

section \<open>Freshness\<close>

text \<open>The epoch of \<open>executedAt\<close>; None is the \<open>-Infinity\<close> of an unparseable timestamp.\<close>
definition epochOfExecutedAt :: "string \<Rightarrow> int option" where
  "epochOfExecutedAt executedAt = Date_parse executedAt"

record evaluation_input =
  ei_claims :: "declared_claim list"
  ei_providerResults :: "provider_result list"
  ei_counterexamples :: "counterexample list"
  ei_currentImplementationDigest :: "string option"
  ei_currentPlanDigest :: "string option"
  ei_currentSurfaceDigests :: "(string \<times> string) list"

fun isFresh :: "provider_binding option \<Rightarrow> evaluation_input \<Rightarrow> bool" where
  "isFresh None input = False"
| "isFresh (Some (Bound_implementation d)) input = (ei_currentImplementationDigest input = Some d)"
| "isFresh (Some (Bound_plan d)) input = (ei_currentPlanDigest input = Some d)"
| "isFresh (Some (Bound_surface_set s d _)) input = (map_of (ei_currentSurfaceDigests input) s = Some d)"

definition bindingOf :: "provider_result \<Rightarrow> provider_binding option" where
  "bindingOf r = (case pr_outcome r of Unavailable _ _ \<Rightarrow> None | Executed _ e \<Rightarrow> Some (ee_binding e))"

definition has_status :: "executed_status \<Rightarrow> provider_result \<Rightarrow> bool" where
  "has_status st r = (case pr_outcome r of Unavailable _ _ \<Rightarrow> False | Executed st' _ \<Rightarrow> st' = st)"

definition is_unavailable :: "provider_result \<Rightarrow> bool" where
  "is_unavailable r = (case pr_outcome r of Unavailable _ _ \<Rightarrow> True | Executed _ _ \<Rightarrow> False)"

definition isFreshCounterexample :: "counterexample \<Rightarrow> string option \<Rightarrow> bool" where
  "isFreshCounterexample c current = (current = Some (cx_boundDigest c))"

definition computeFreshness ::
  "provider_result list \<Rightarrow> evaluation_input \<Rightarrow> string \<Rightarrow> freshness option" where
  "computeFreshness passing input evaluatedAt =
     (let bound = filter (\<lambda>r. bindingOf r \<noteq> None) passing;
          fresh = List.find (\<lambda>r. isFresh (bindingOf r) input) bound
      in case or_else fresh (at bound 0) of
           None \<Rightarrow> None
         | Some chosen \<Rightarrow>
             map_option (\<lambda>b. \<lparr>fr_boundDigest = pb_digest b, fr_evaluatedAt = evaluatedAt, fr_stale = (fresh = None)\<rparr>)
               (bindingOf chosen))"

section \<open>Counterexamples\<close>

record adversarial =
  av_freshContradicted :: bool
  av_freshSupported :: bool
  av_freshBlocked :: bool
  av_hasStale :: bool
  av_hasFresh :: bool

definition analyze_step :: "string option \<Rightarrow> adversarial \<Rightarrow> counterexample \<Rightarrow> adversarial" where
  "analyze_step current av c =
     (case cx_outcome c of
        Cx_not_verified \<Rightarrow> av
      | Cx_blocked \<Rightarrow>
          if isFreshCounterexample c current then av\<lparr>av_freshBlocked := True, av_hasFresh := True\<rparr>
          else av\<lparr>av_hasStale := True\<rparr>
      | Cx_contradicted \<Rightarrow>
          if isFreshCounterexample c current then av\<lparr>av_hasFresh := True, av_freshContradicted := True\<rparr>
          else av\<lparr>av_hasStale := True\<rparr>
      | Cx_supported \<Rightarrow>
          if isFreshCounterexample c current then av\<lparr>av_hasFresh := True, av_freshSupported := True\<rparr>
          else av\<lparr>av_hasStale := True\<rparr>)"

definition analyzeCounterexamples :: "counterexample list \<Rightarrow> string option \<Rightarrow> adversarial" where
  "analyzeCounterexamples cxs current =
     foldl (analyze_step current)
       \<lparr>av_freshContradicted = False, av_freshSupported = False, av_freshBlocked = False,
        av_hasStale = False, av_hasFresh = False\<rparr> cxs"

text \<open>One group of attempts, newest first: the current one, or None for a conflict.\<close>
definition resolveAttemptHistory :: "counterexample list \<Rightarrow> counterexample option" where
  "resolveAttemptHistory history =
     (case history of
        [] \<Rightarrow> None
      | latest # older \<Rightarrow>
          if older \<noteq> [] \<and> cx_executedAt (hd older) = cx_executedAt latest \<and>
             1 < length (remdups (map cx_outcome (filter (\<lambda>c. cx_executedAt c = cx_executedAt latest) history)))
          then None
          else if cx_outcome latest = Cx_contradicted then Some latest
          else if list_ex (\<lambda>c. cx_outcome c = Cx_contradicted) older then None
          else Some latest)"

text \<open>The sort key of \<open>(a, b) => epoch(b) - epoch(a)\<close>: newest first, undated last.\<close>
definition newest_key :: "counterexample \<Rightarrow> int \<times> int" where
  "newest_key c = (case epochOfExecutedAt (cx_executedAt c) of Some t \<Rightarrow> (0, - t) | None \<Rightarrow> (1, 0))"

definition attempt_key :: "counterexample \<Rightarrow> string" where
  "attempt_key c = cx_claimId c @ '':'' @ cx_checkId c @ '':'' @ cx_boundDigest c"

text \<open>\<open>Map\<close> of arrays: push onto the array of a key, in order of first insertion.\<close>
fun push_group :: "string \<Rightarrow> 'a \<Rightarrow> (string \<times> 'a list) list \<Rightarrow> (string \<times> 'a list) list" where
  "push_group k c [] = [(k, [c])]"
| "push_group k c ((l, cs) # gs) = (if k = l then (l, cs @ [c]) # gs else (l, cs) # push_group k c gs)"

definition group_attempts :: "counterexample list \<Rightarrow> (string \<times> counterexample list) list" where
  "group_attempts cxs = foldl (\<lambda>gs c. push_group (attempt_key c) c gs) [] cxs"

definition resolve_group :: "counterexample list \<Rightarrow> counterexample option" where
  "resolve_group g = (if length g = 1 then Some (hd g) else resolveAttemptHistory (sort_key newest_key g))"

record selection =
  sl_counterexamples :: "counterexample list"
  sl_conflicting :: bool

definition selectCurrentCounterexamples :: "counterexample list \<Rightarrow> selection" where
  "selectCurrentCounterexamples cxs =
     (let groups = map snd (group_attempts cxs)
      in \<lparr>sl_counterexamples = List.map_filter resolve_group groups,
          sl_conflicting = list_ex (\<lambda>g. resolve_group g = None) groups\<rparr>)"

section \<open>Independence of evidence roles\<close>

datatype independence = Independent | Role_collision | Not_verifiable

definition declaredEvidenceRolesCollide :: "string \<Rightarrow> counterexample_requirement option \<Rightarrow> bool" where
  "declaredEvidenceRolesCollide positiveCheckId req = opt_test (\<lambda>r. req_checkId r = positiveCheckId) req"

definition stable_id :: "provider_result \<Rightarrow> string" where
  "stable_id r = (case pr_outcome r of Executed _ e \<Rightarrow> ee_stableId e | Unavailable _ _ \<Rightarrow> [])"

fun independence_scan ::
  "string list \<Rightarrow> string list \<Rightarrow> bool \<Rightarrow> provider_result list \<Rightarrow> independence" where
  "independence_scan attempts checks missing [] = (if missing then Not_verifiable else Independent)"
| "independence_scan attempts checks missing (r # rs) =
     (if \<not> has_status St_pass r then independence_scan attempts checks missing rs
      else if opt_test (\<lambda>i. i \<in> set attempts) (pr_executionRecordId r) then Role_collision
      else if pr_providerKind r = Executed_test \<and> stable_id r \<in> set checks then Role_collision
      else independence_scan attempts checks
             (missing \<or> pr_providerKind r = Executed_test \<and> pr_executionRecordId r = None) rs)"

definition assessEvidenceRoleIndependence ::
  "counterexample_requirement option \<Rightarrow> bool \<Rightarrow> provider_result list \<Rightarrow> counterexample list \<Rightarrow> independence" where
  "assessEvidenceRoleIndependence req adversarialRequired results cxs =
     (if req = None \<and> \<not> adversarialRequired then Independent
      else independence_scan (map cx_attemptId cxs) (map cx_checkId cxs) False results)"

section \<open>Evaluation of a claim\<close>

definition EMPTY_REQUIRED :: required_evidence where
  "EMPTY_REQUIRED = \<lparr>re_positive = [], re_adversarial = []\<rparr>"

definition SPECIFIC_CARRYING_KINDS :: "provider_kind list" where
  "SPECIFIC_CARRYING_KINDS = [Structural_assertion, Schema_compare, Fault_injection]"

definition required_of :: "'a declared_claim_scheme \<Rightarrow> required_evidence" where
  "required_of claim = (case dc_requiredEvidence claim of None \<Rightarrow> EMPTY_REQUIRED | Some r \<Rightarrow> r)"

definition hasClaimCarryingBinding :: "'a declared_claim_scheme \<Rightarrow> bool" where
  "hasClaimCarryingBinding claim =
     (dc_counterexampleRequirement claim \<noteq> None \<or>
      list_ex (\<lambda>k. k \<in> set SPECIFIC_CARRYING_KINDS) (re_positive (required_of claim)))"

text \<open>Whether the adversarial and the positive classes are satisfied.\<close>
definition requirementsSatisfied ::
  "required_evidence \<Rightarrow> provider_kind list \<Rightarrow> adversarial \<Rightarrow> bool \<times> bool" where
  "requirementsSatisfied required freshPassKinds cx =
     (list_all (\<lambda>kind. kind = Adv_counterexample \<and> av_freshSupported cx) (re_adversarial required),
      if re_positive required \<noteq> [] then list_all (\<lambda>kind. kind \<in> set freshPassKinds) (re_positive required)
      else freshPassKinds \<noteq> [])"

definition role_independence ::
  "'a declared_claim_scheme \<Rightarrow> provider_result list \<Rightarrow> counterexample list \<Rightarrow> independence" where
  "role_independence claim results cxs =
     assessEvidenceRoleIndependence (dc_counterexampleRequirement claim)
       (Adv_counterexample \<in> set (re_adversarial (required_of claim))) results cxs"

definition hasIndependentEvidenceRoles ::
  "'a declared_claim_scheme \<Rightarrow> provider_result list \<Rightarrow> counterexample list \<Rightarrow> bool" where
  "hasIndependentEvidenceRoles claim passing cxs = (role_independence claim passing cxs = Independent)"

text \<open>The kinds with a fresh pass that is not self-reported.\<close>
definition fresh_pass_kinds :: "provider_result list \<Rightarrow> evaluation_input \<Rightarrow> provider_kind list" where
  "fresh_pass_kinds passing input =
     map pr_providerKind
       (filter (\<lambda>r. isFresh (bindingOf r) input)
         (filter (\<lambda>r. pr_attestation r \<noteq> External_self_reported) passing))"

definition deriveFromRequiredEvidence ::
  "'a declared_claim_scheme \<Rightarrow> provider_result list \<Rightarrow> counterexample list \<Rightarrow> adversarial \<Rightarrow> bool \<Rightarrow>
     evaluation_input \<Rightarrow> verification_state" where
  "deriveFromRequiredEvidence claim passing cxs cx hasStaleBound input =
     (if dc_claimScope claim = Some Specific_behavior \<and> \<not> hasClaimCarryingBinding claim then NOT_VERIFIED
      else if \<not> hasIndependentEvidenceRoles claim passing cxs then NOT_VERIFIED
      else
        (let (adversarial, positive) =
               requirementsSatisfied (required_of claim) (fresh_pass_kinds passing input) cx
         in if adversarial \<and> positive then if av_hasStale cx \<and> \<not> av_hasFresh cx then STALE else PROVEN
            else if \<not> adversarial then NOT_VERIFIED
            else if hasStaleBound then STALE else UNPROVEN))"

definition deriveVerificationState ::
  "'a declared_claim_scheme \<Rightarrow> provider_result list \<Rightarrow> counterexample list \<Rightarrow> counterexample list \<Rightarrow>
     evaluation_input \<Rightarrow> verification_state" where
  "deriveVerificationState claim results selected raw input =
     (if dc_provenance claim = None then NOT_VERIFIED
      else
        (let cx = analyzeCounterexamples selected (ei_currentImplementationDigest input)
         in if av_freshContradicted cx then CONTRADICTED
            else if av_freshBlocked cx then BLOCKED
            else if list_ex (\<lambda>r. has_status St_error r \<and> isFresh (bindingOf r) input) results then BLOCKED
            else if list_ex is_unavailable results then NOT_VERIFIED
            else if list_ex (\<lambda>r. has_status St_fail r \<and> isFresh (bindingOf r) input) results then UNPROVEN
            else deriveFromRequiredEvidence claim (filter (has_status St_pass) results) raw cx
                   (list_ex (\<lambda>r. bindingOf r \<noteq> None \<and> \<not> isFresh (bindingOf r) input) results) input))"

definition claim_results :: "string \<Rightarrow> provider_result list \<Rightarrow> provider_result list" where
  "claim_results i results = filter (\<lambda>r. pr_claimId r = i) results"

definition claim_counterexamples :: "string \<Rightarrow> counterexample list \<Rightarrow> counterexample list" where
  "claim_counterexamples i cxs = filter (\<lambda>c. cx_claimId c = i) cxs"

definition claim_state :: "'a declared_claim_scheme \<Rightarrow> evaluation_input \<Rightarrow> verification_state" where
  "claim_state claim input =
     (let results = claim_results (dc_claimId claim) (ei_providerResults input);
          raw = claim_counterexamples (dc_claimId claim) (ei_counterexamples input);
          sel = selectCurrentCounterexamples raw
      in if sl_conflicting sel then NOT_VERIFIED
         else deriveVerificationState claim results (sl_counterexamples sel) raw input)"

definition evaluateClaim :: "declared_claim \<Rightarrow> evaluation_input \<Rightarrow> string \<Rightarrow> proof_claim" where
  "evaluateClaim claim input evaluatedAt =
     declared_claim.extend claim
       (proof_claim.fields (claim_state claim input)
          (computeFreshness
             (filter (has_status St_pass) (claim_results (dc_claimId claim) (ei_providerResults input)))
             input evaluatedAt))"

text \<open>\<open>Object.fromEntries\<close> and \<open>record[key] = value\<close>: a later entry replaces an earlier one.\<close>
definition set_all :: "diagnostics \<Rightarrow> diagnostics \<Rightarrow> diagnostics" where
  "set_all new old = foldl (\<lambda>ds (i, code). AList.update i code ds) old new"

definition evaluateProofGraph :: "evaluation_input \<Rightarrow> string \<Rightarrow> projection" where
  "evaluateProofGraph input evaluatedAt =
     (let conflicts =
            filter (\<lambda>claim. sl_conflicting (selectCurrentCounterexamples
                       (claim_counterexamples (dc_claimId claim) (ei_counterexamples input))))
              (ei_claims input)
      in \<lparr>pj_claims = map (\<lambda>claim. evaluateClaim claim input evaluatedAt) (sort_key dc_claimId (ei_claims input)),
          pj_evaluatedAt = evaluatedAt,
          pj_claimDiagnostics =
            (if conflicts = [] then None
             else Some (set_all (map (\<lambda>claim. (dc_claimId claim, Counterexample_conflict)) conflicts) []))\<rparr>)"

section \<open>Lemmas\<close>

lemma map_of_push_group:
  "map_of (push_group k c gs) l =
     (if l = k then Some ((case map_of gs k of None \<Rightarrow> [] | Some g \<Rightarrow> g) @ [c]) else map_of gs l)"
  by (induction k c gs rule: push_group.induct) auto

lemma map_of_group_attempts:
  "map_of (group_attempts cxs) k =
     (let g = filter (\<lambda>c. attempt_key c = k) cxs in if g = [] then None else Some g)"
proof (induction cxs arbitrary: k rule: rev_induct)
  case Nil
  then show ?case by (simp add: group_attempts_def)
next
  case (snoc c cxs)
  have step: "group_attempts (cxs @ [c]) = push_group (attempt_key c) c (group_attempts cxs)"
    by (simp add: group_attempts_def)
  show ?case unfolding step map_of_push_group snoc.IH by (simp add: Let_def)
qed

lemma group_of_attempt:
  assumes "c \<in> set cxs"
  shows "filter (\<lambda>d. attempt_key d = attempt_key c) cxs \<in> snd ` set (group_attempts cxs)"
proof -
  have "map_of (group_attempts cxs) (attempt_key c) = Some (filter (\<lambda>d. attempt_key d = attempt_key c) cxs)"
    using assms by (auto simp: map_of_group_attempts filter_empty_conv)
  then show ?thesis by (force dest: map_of_SomeD)
qed

lemma distinct_push_group: "distinct (map fst gs) \<Longrightarrow> distinct (map fst (push_group k c gs)) \<and>
    fst ` set (push_group k c gs) = insert k (fst ` set gs)"
  by (induction k c gs rule: push_group.induct) auto

lemma distinct_group_attempts: "distinct (map fst (group_attempts cxs))"
proof (induction cxs rule: rev_induct)
  case (snoc c cxs)
  have "group_attempts (cxs @ [c]) = push_group (attempt_key c) c (group_attempts cxs)"
    by (simp add: group_attempts_def)
  then show ?case using distinct_push_group [OF snoc] by simp
qed (simp add: group_attempts_def)

lemma groups_are_filters:
  assumes "g \<in> snd ` set (group_attempts cxs)"
  obtains k where "g = filter (\<lambda>d. attempt_key d = k) cxs" and "g \<noteq> []"
proof -
  from assms obtain k where "(k, g) \<in> set (group_attempts cxs)" by auto
  then have "map_of (group_attempts cxs) k = Some g"
    by (rule map_of_is_SomeI [OF distinct_group_attempts])
  then show ?thesis by (intro that [of k]) (simp_all add: map_of_group_attempts Let_def split: if_splits)
qed

lemma sort_key_cases:
  assumes "g \<noteq> []"
  obtains latest older where "sort_key f g = latest # older" and "set g = insert latest (set older)"
proof -
  have "set (sort_key f g) = set g" by simp
  then show ?thesis using assms that by (cases "sort_key f g") force+
qed

lemma resolve_history_first: "resolveAttemptHistory (l # ls) = None \<or> resolveAttemptHistory (l # ls) = Some l"
  by (simp add: resolveAttemptHistory_def)

lemma resolve_history_contradicted:
  "c \<in> insert l (set ls) \<Longrightarrow> cx_outcome c = Cx_contradicted \<Longrightarrow>
     resolveAttemptHistory (l # ls) = None \<or> cx_outcome l = Cx_contradicted"
  by (auto simp: resolveAttemptHistory_def list_ex_iff)

text \<open>A group with a falsification is in conflict or is represented by a falsification.\<close>
lemma resolve_group_contradicted:
  assumes "c \<in> set g" and "cx_outcome c = Cx_contradicted"
  shows "resolve_group g = None \<or> (\<exists>d \<in> set g. resolve_group g = Some d \<and> cx_outcome d = Cx_contradicted)"
proof (cases "length g = 1")
  case True
  then obtain d where "g = [d]" by (cases g) auto
  then show ?thesis using assms by (simp add: resolve_group_def)
next
  case False
  obtain l ls where s: "sort_key newest_key g = l # ls" and set_g: "set g = insert l (set ls)"
    using assms(1) by (rule_tac sort_key_cases [of g newest_key]) auto
  have "resolve_group g = resolveAttemptHistory (l # ls)" using False by (simp add: resolve_group_def s)
  moreover have "resolveAttemptHistory (l # ls) = None \<or> cx_outcome l = Cx_contradicted"
    using resolve_history_contradicted assms unfolding set_g by blast
  moreover have "l \<in> set g" by (simp add: set_g)
  ultimately show ?thesis using resolve_history_first [of l ls] by metis
qed

lemma resolve_group_in:
  assumes "g \<noteq> []" and "resolve_group g = Some d"
  shows "d \<in> set g"
proof (cases "length g = 1")
  case True
  then obtain e where "g = [e]" by (cases g) auto
  then show ?thesis using assms(2) by (simp add: resolve_group_def)
next
  case False
  obtain l ls where s: "sort_key newest_key g = l # ls" and set_g: "set g = insert l (set ls)"
    by (rule sort_key_cases [OF assms(1), of newest_key])
  have "resolveAttemptHistory (l # ls) = Some d" using assms(2) False by (simp add: resolve_group_def s)
  then have "d = l" using resolve_history_first [of l ls] by simp
  then show ?thesis by (simp add: set_g)
qed

lemma analyze_flags:
  "av_freshContradicted (foldl (analyze_step cur) av cxs) \<longleftrightarrow>
     av_freshContradicted av \<or> (\<exists>c \<in> set cxs. cx_outcome c = Cx_contradicted \<and> isFreshCounterexample c cur)"
  "av_freshBlocked (foldl (analyze_step cur) av cxs) \<longleftrightarrow>
     av_freshBlocked av \<or> (\<exists>c \<in> set cxs. cx_outcome c = Cx_blocked \<and> isFreshCounterexample c cur)"
  "av_freshSupported (foldl (analyze_step cur) av cxs) \<longleftrightarrow>
     av_freshSupported av \<or> (\<exists>c \<in> set cxs. cx_outcome c = Cx_supported \<and> isFreshCounterexample c cur)"
proof (induction cxs arbitrary: av)
  case (Cons c cxs)
  {
    case 1
    show ?case by (simp add: Cons.IH) (auto simp: analyze_step_def split: counterexample_outcome.splits)
  next
    case 2
    show ?case by (simp add: Cons.IH) (auto simp: analyze_step_def split: counterexample_outcome.splits)
  next
    case 3
    show ?case by (simp add: Cons.IH) (auto simp: analyze_step_def split: counterexample_outcome.splits)
  }
qed simp_all

lemmas analyze_iff = analyze_flags [where av = "\<lparr>av_freshContradicted = False, av_freshSupported = False,
    av_freshBlocked = False, av_hasStale = False, av_hasFresh = False\<rparr>", folded analyzeCounterexamples_def, simplified]

lemma last_segment_unique:
  assumes "xs @ c # s = ys @ c # t" and "c \<notin> set s" and "c \<notin> set t"
  shows "s = t"
proof -
  have "takeWhile (\<lambda>x. x \<noteq> c) (rev s @ c # rev xs) = rev s" "takeWhile (\<lambda>x. x \<noteq> c) (rev t @ c # rev ys) = rev t"
    using assms(2,3) by (subst takeWhile_append2; auto)+
  then show ?thesis using arg_cong [OF assms(1), of "\<lambda>l. takeWhile (\<lambda>x. x \<noteq> c) (rev l)"] by simp
qed

lemma attempt_key_digest:
  assumes "attempt_key c = attempt_key d" and "CHR '':'' \<notin> set (cx_boundDigest c)" and "CHR '':'' \<notin> set (cx_boundDigest d)"
  shows "cx_boundDigest c = cx_boundDigest d"
  by (rule last_segment_unique [of "cx_claimId c @ '':'' @ cx_checkId c" "CHR '':''" _ "cx_claimId d @ '':'' @ cx_checkId d"])
    (use assms in \<open>simp_all add: attempt_key_def\<close>)

text \<open>An evaluated claim keeps its declaration, and its state is \<open>claim_state\<close>.\<close>

lemma evaluateClaim_simps [simp]:
  "dc_claimId (evaluateClaim c input t) = dc_claimId c" "dc_provenance (evaluateClaim c input t) = dc_provenance c"
  "dc_claimScope (evaluateClaim c input t) = dc_claimScope c"
  "dc_requiredEvidence (evaluateClaim c input t) = dc_requiredEvidence c"
  "dc_counterexampleRequirement (evaluateClaim c input t) = dc_counterexampleRequirement c"
  "pc_verificationState (evaluateClaim c input t) = claim_state c input"
  by (simp_all add: evaluateClaim_def declared_claim.defs proof_claim.defs)

lemma claim_state_declared: "claim_state (evaluateClaim c input t) input' = claim_state c input'"
  by (simp add: claim_state_def deriveVerificationState_def deriveFromRequiredEvidence_def required_of_def
      hasClaimCarryingBinding_def hasIndependentEvidenceRoles_def role_independence_def Let_def)

lemma evaluated_claim_state:
  assumes "claim \<in> set (pj_claims (evaluateProofGraph input t))"
  shows "pc_verificationState claim = claim_state claim input"
  using assms by (auto simp: evaluateProofGraph_def Let_def claim_state_declared)

lemma in_evaluated:
  "c \<in> set (ei_claims input) \<Longrightarrow> evaluateClaim c input t \<in> set (pj_claims (evaluateProofGraph input t))"
  by (auto simp: evaluateProofGraph_def Let_def)

lemma set_map_filter: "y \<in> set (List.map_filter f xs) \<longleftrightarrow> (\<exists>x \<in> set xs. f x = Some y)"
  by (induction xs) (auto simp: map_filter_simps split: option.split)

lemma set_selected:
  "\<not> sl_conflicting (selectCurrentCounterexamples cxs) \<Longrightarrow> g \<in> snd ` set (group_attempts cxs) \<Longrightarrow>
     \<exists>d. resolve_group g = Some d \<and> d \<in> set (sl_counterexamples (selectCurrentCounterexamples cxs))"
  by (force simp: selectCurrentCounterexamples_def Let_def list_ex_iff set_map_filter)

lemma selected_in: "d \<in> set (sl_counterexamples (selectCurrentCounterexamples cxs)) \<Longrightarrow> d \<in> set cxs"
proof -
  assume "d \<in> set (sl_counterexamples (selectCurrentCounterexamples cxs))"
  then obtain g where g: "g \<in> snd ` set (group_attempts cxs)" "resolve_group g = Some d"
    unfolding selectCurrentCounterexamples_def by (auto simp: Let_def set_map_filter)
  obtain k where "g = filter (\<lambda>d. attempt_key d = k) cxs" "g \<noteq> []" by (rule groups_are_filters [OF g(1)])
  then show "d \<in> set cxs" using resolve_group_in [OF _ g(2)] by auto
qed

lemma status_cases: "is_unavailable r \<or> has_status St_pass r \<or> has_status St_fail r \<or> has_status St_error r"
proof (cases "pr_outcome r")
  case (Executed st e)
  then show ?thesis by (cases st) (simp_all add: has_status_def)
qed (simp add: is_unavailable_def)

lemma independence_scan_iff:
  "independence_scan attempts checks missing rs = Independent \<longleftrightarrow>
     \<not> missing \<and> list_all (\<lambda>r. \<not> has_status St_pass r \<or>
       (\<forall>i. pr_executionRecordId r = Some i \<longrightarrow> i \<notin> set attempts) \<and>
       (pr_providerKind r \<noteq> Executed_test \<or> stable_id r \<notin> set checks \<and> pr_executionRecordId r \<noteq> None)) rs"
  by (induction rs arbitrary: missing) (auto simp: opt_test_iff)

lemma derive_PROVEN:
  assumes "deriveVerificationState claim results selected raw input = PROVEN"
  shows "dc_provenance claim \<noteq> None" and "\<not> list_ex is_unavailable results"
    and "\<not> list_ex (\<lambda>r. has_status St_error r \<and> isFresh (bindingOf r) input) results"
    and "\<not> list_ex (\<lambda>r. has_status St_fail r \<and> isFresh (bindingOf r) input) results"
    and "dc_claimScope claim = Some Specific_behavior \<Longrightarrow> hasClaimCarryingBinding claim"
    and "hasIndependentEvidenceRoles claim (filter (has_status St_pass) results) raw"
    and "requirementsSatisfied (required_of claim) (fresh_pass_kinds (filter (has_status St_pass) results) input)
           (analyzeCounterexamples selected (ei_currentImplementationDigest input)) = (True, True)"
proof -
  note d = assms [unfolded deriveVerificationState_def Let_def]
  show *: "dc_provenance claim \<noteq> None" using d by (simp split: if_splits)
  show "\<not> list_ex is_unavailable results"
    and "\<not> list_ex (\<lambda>r. has_status St_error r \<and> isFresh (bindingOf r) input) results"
    and "\<not> list_ex (\<lambda>r. has_status St_fail r \<and> isFresh (bindingOf r) input) results"
    using d by (simp_all split: if_splits)
  have e: "deriveFromRequiredEvidence claim (filter (has_status St_pass) results) raw
      (analyzeCounterexamples selected (ei_currentImplementationDigest input))
      (list_ex (\<lambda>r. bindingOf r \<noteq> None \<and> \<not> isFresh (bindingOf r) input) results) input = PROVEN"
    using d by (simp split: if_splits)
  show "dc_claimScope claim = Some Specific_behavior \<Longrightarrow> hasClaimCarryingBinding claim"
    and "hasIndependentEvidenceRoles claim (filter (has_status St_pass) results) raw"
    using e unfolding deriveFromRequiredEvidence_def by (simp_all split: if_splits)
  show "requirementsSatisfied (required_of claim) (fresh_pass_kinds (filter (has_status St_pass) results) input)
      (analyzeCounterexamples selected (ei_currentImplementationDigest input)) = (True, True)"
    using e unfolding deriveFromRequiredEvidence_def by (simp add: Let_def split: if_splits prod.splits)
qed

lemma all_adversarial: "x = Adv_counterexample"
  by (cases x) simp

text \<open>Unless its group is in conflict, a falsification of a revision keeps one in the selection.\<close>

lemma selected_falsification:
  assumes "c \<in> set cxs" and "cx_outcome c = Cx_contradicted"
    and "\<not> sl_conflicting (selectCurrentCounterexamples cxs)"
    and "list_all (\<lambda>d. CHR '':'' \<notin> set (cx_boundDigest d)) cxs"
  shows "\<exists>d \<in> set (sl_counterexamples (selectCurrentCounterexamples cxs)).
           cx_outcome d = Cx_contradicted \<and> cx_boundDigest d = cx_boundDigest c"
proof -
  let ?g = "filter (\<lambda>d. attempt_key d = attempt_key c) cxs"
  have c: "c \<in> set ?g" using assms(1) by simp
  obtain d where d: "resolve_group ?g = Some d" "d \<in> set (sl_counterexamples (selectCurrentCounterexamples cxs))"
    using set_selected [OF assms(3) group_of_attempt [OF assms(1)]] by blast
  have "d \<in> set ?g" and "cx_outcome d = Cx_contradicted"
    using resolve_group_contradicted [OF c assms(2)] d(1) by auto
  moreover have "cx_boundDigest d = cx_boundDigest c"
    using \<open>d \<in> set ?g\<close> assms(1,4) by (intro attempt_key_digest) (auto simp: list_all_iff)
  ultimately show ?thesis using d(2) by blast
qed

section \<open>Properties\<close>

text \<open>A sample: a test and a schema comparison pass on the revision \<open>i1\<close>; what the second check observed is
  the argument.\<close>

definition sample_result :: "string \<Rightarrow> provider_kind \<Rightarrow> string \<Rightarrow> provider_result" where
  "sample_result attempt kind check =
     \<lparr>pr_claimId = ''c1'', pr_providerKind = kind, pr_providerId = ''p'', pr_providerVersion = ''v'',
      pr_executionRecordId = Some attempt, pr_executedAt = ''2024-02-29T12:30:05Z'', pr_detail = None,
      pr_attestation = Flowguard_executed,
      pr_outcome = Executed St_pass \<lparr>ee_input = Input_command ''npm test'', ee_location = ''l'', ee_stableId = check,
        ee_binding = Bound_implementation ''i1'', ee_resultDigest = ''r''\<rparr>\<rparr>"

definition sample_attempt :: "string \<Rightarrow> string \<Rightarrow> counterexample_outcome \<Rightarrow> counterexample" where
  "sample_attempt attempt at_time outcome =
     \<lparr>cx_claimId = ''c1'', cx_attemptId = attempt, cx_checkId = ''build'', cx_scenario = ''s'',
      cx_outcome = outcome, cx_boundDigest = ''i1'', cx_executedAt = at_time\<rparr>"

definition sample_input :: "counterexample list \<Rightarrow> evaluation_input" where
  "sample_input cxs =
     \<lparr>ei_claims = [sample_claim],
      ei_providerResults = [sample_result ''a1'' Executed_test ''test'', sample_result ''a3'' Schema_compare ''schema''],
      ei_counterexamples = cxs, ei_currentImplementationDigest = Some ''i1'', ei_currentPlanDigest = None,
      ei_currentSurfaceDigests = []\<rparr>"

text \<open>A falsification of the current revision cannot be undone. Once a counterexample bound to the
  current implementation contradicted a claim, the claim is contradicted whatever passes, retries and
  later attempts were recorded, and not verified when it has no governing source or when the attempts of
  one of its checks disagree; it is never proven on that revision. The attempt key joins its parts with
  colons, so the digests are assumed to contain none, as hexadecimal digests do (C33).\<close>

theorem fresh_falsification_blocks:
  assumes "c \<in> set (ei_counterexamples input)" and "cx_outcome c = Cx_contradicted"
    and "ei_currentImplementationDigest input = Some (cx_boundDigest c)"
    and "list_all (\<lambda>d. CHR '':'' \<notin> set (cx_boundDigest d)) (ei_counterexamples input)"
    and "claim \<in> set (pj_claims (evaluateProofGraph input t))" and "dc_claimId claim = cx_claimId c"
  shows "pc_verificationState claim =
     (if dc_provenance claim = None \<or>
         sl_conflicting (selectCurrentCounterexamples (claim_counterexamples (cx_claimId c) (ei_counterexamples input)))
      then NOT_VERIFIED else CONTRADICTED)"
proof -
  let ?cxs = "claim_counterexamples (cx_claimId c) (ei_counterexamples input)"
  have c: "c \<in> set ?cxs" "list_all (\<lambda>d. CHR '':'' \<notin> set (cx_boundDigest d)) ?cxs"
    using assms(1,4) by (auto simp: claim_counterexamples_def list_all_iff)
  have "av_freshContradicted (analyzeCounterexamples (sl_counterexamples (selectCurrentCounterexamples ?cxs))
      (ei_currentImplementationDigest input))" if "\<not> sl_conflicting (selectCurrentCounterexamples ?cxs)"
    using selected_falsification [OF c(1) assms(2) that c(2)]
    by (auto simp: analyze_iff isFreshCounterexample_def assms(3))
  then show ?thesis
    by (simp add: evaluated_claim_state [OF assms(5)] claim_state_def deriveVerificationState_def assms(6) Let_def)
qed

theorem fresh_falsification_blocks_witness:
  "pc_verificationState (evaluateClaim sample_claim
       (sample_input [sample_attempt ''a2'' ''2024-02-29T12:30:05Z'' Cx_contradicted]) ''t'') = CONTRADICTED \<and>
   pc_verificationState (evaluateClaim sample_claim
       (sample_input [sample_attempt ''a2'' ''2024-02-29T12:30:05Z'' Cx_contradicted,
                      sample_attempt ''a4'' ''2024-02-29T12:30:06Z'' Cx_supported]) ''t'') = NOT_VERIFIED"
proof
  let ?c = "sample_attempt ''a2'' ''2024-02-29T12:30:05Z'' Cx_contradicted"
  let ?one = "sample_input [?c]"
  let ?two = "sample_input [?c, sample_attempt ''a4'' ''2024-02-29T12:30:06Z'' Cx_supported]"
  have in_one: "evaluateClaim sample_claim ?one ''t'' \<in> set (pj_claims (evaluateProofGraph ?one ''t''))"
    and in_two: "evaluateClaim sample_claim ?two ''t'' \<in> set (pj_claims (evaluateProofGraph ?two ''t''))"
    by (rule in_evaluated, simp add: sample_input_def)+
  have "dc_claimId (evaluateClaim sample_claim ?one ''t'') = cx_claimId ?c"
    and "dc_claimId (evaluateClaim sample_claim ?two ''t'') = cx_claimId ?c"
    by (simp_all add: sample_claim_def sample_attempt_def)
  note here = fresh_falsification_blocks [OF _ _ _ _ in_one this(1)] fresh_falsification_blocks [OF _ _ _ _ in_two this(2)]
  have "sl_conflicting (selectCurrentCounterexamples (claim_counterexamples (cx_claimId ?c) (ei_counterexamples ?two)))"
    "\<not> sl_conflicting (selectCurrentCounterexamples (claim_counterexamples (cx_claimId ?c) (ei_counterexamples ?one)))"
    by code_simp+
  then show "pc_verificationState (evaluateClaim sample_claim ?one ''t'') = CONTRADICTED"
    and "pc_verificationState (evaluateClaim sample_claim ?two ''t'') = NOT_VERIFIED"
    by (subst here; simp add: sample_input_def sample_attempt_def sample_claim_def)+
qed

text \<open>What a proven claim rests on. A proven claim has a governing source; none of its provider results
  is unavailable and every result bound to the current revision is a pass; each evidence class its
  contract requires has a fresh pass that is not self-reported, and there is one even if none is required;
  a claim about specific behaviour names an assertion or a specific provider; a required counterexample
  was attempted on the current revision and did not hold; and when the claim has an adversarial role, no
  passing test shares its attempt or its check with any of its counterexamples (C34).\<close>

theorem proven_claims_are_evidenced:
  assumes "claim \<in> set (pj_claims (evaluateProofGraph input t))" and "pc_verificationState claim = PROVEN"
  defines "results \<equiv> claim_results (dc_claimId claim) (ei_providerResults input)"
    and "cxs \<equiv> claim_counterexamples (dc_claimId claim) (ei_counterexamples input)"
  shows "dc_provenance claim \<noteq> None \<and>
     list_all (\<lambda>r. \<not> is_unavailable r \<and> (\<not> isFresh (bindingOf r) input \<or> has_status St_pass r)) results \<and>
     (let good = filter (\<lambda>r. has_status St_pass r \<and> isFresh (bindingOf r) input \<and>
                             pr_attestation r \<noteq> External_self_reported) results
      in good \<noteq> [] \<and> set (re_positive (required_of claim)) \<subseteq> pr_providerKind ` set good) \<and>
     (dc_claimScope claim \<noteq> Some Specific_behavior \<or> hasClaimCarryingBinding claim) \<and>
     (re_adversarial (required_of claim) = [] \<or>
       list_ex (\<lambda>c. cx_outcome c = Cx_supported \<and> isFreshCounterexample c (ei_currentImplementationDigest input)) cxs) \<and>
     (dc_counterexampleRequirement claim = None \<and> re_adversarial (required_of claim) = [] \<or>
       list_all (\<lambda>r. \<not> has_status St_pass r \<or> pr_providerKind r \<noteq> Executed_test \<or>
                     (pr_executionRecordId r \<noteq> None \<and>
                      list_all (\<lambda>c. pr_executionRecordId r \<noteq> Some (cx_attemptId c) \<and> stable_id r \<noteq> cx_checkId c) cxs))
         results)"
proof -
  have st: "claim_state claim input = PROVEN" using assms(2) evaluated_claim_state [OF assms(1)] by simp
  then have der: "deriveVerificationState claim results (sl_counterexamples (selectCurrentCounterexamples cxs)) cxs input = PROVEN"
    by (simp add: claim_state_def results_def cxs_def Let_def split: if_splits)
  note d = derive_PROVEN [OF der]
  let ?good = "filter (\<lambda>r. has_status St_pass r \<and> isFresh (bindingOf r) input \<and>
    pr_attestation r \<noteq> External_self_reported) results"
  have kinds: "set (fresh_pass_kinds (filter (has_status St_pass) results) input) = pr_providerKind ` set ?good"
    by (auto simp: fresh_pass_kinds_def)
  have "list_all (\<lambda>r. \<not> is_unavailable r \<and> (\<not> isFresh (bindingOf r) input \<or> has_status St_pass r)) results"
    unfolding list_all_iff
  proof
    fix r assume r: "r \<in> set results"
    then have "\<not> is_unavailable r" and "isFresh (bindingOf r) input \<Longrightarrow> \<not> has_status St_error r \<and> \<not> has_status St_fail r"
      using d(2-4) by (auto simp: list_ex_iff)
    then show "\<not> is_unavailable r \<and> (\<not> isFresh (bindingOf r) input \<or> has_status St_pass r)"
      using status_cases [of r] by blast
  qed
  moreover have "?good \<noteq> [] \<and> set (re_positive (required_of claim)) \<subseteq> pr_providerKind ` set ?good"
  proof -
    have "if re_positive (required_of claim) \<noteq> [] then set (re_positive (required_of claim)) \<subseteq> pr_providerKind ` set ?good
        else pr_providerKind ` set ?good \<noteq> {}"
      using d(7) unfolding kinds [symmetric] by (simp add: requirementsSatisfied_def list_all_iff subset_iff split: if_splits)
    then show ?thesis by (cases "re_positive (required_of claim)"; cases ?good) simp_all
  qed
  moreover have "re_adversarial (required_of claim) = [] \<or>
      list_ex (\<lambda>c. cx_outcome c = Cx_supported \<and> isFreshCounterexample c (ei_currentImplementationDigest input)) cxs"
    using d(7) by (cases "re_adversarial (required_of claim)")
      (auto simp: requirementsSatisfied_def analyze_iff list_ex_iff dest: selected_in)
  moreover have "dc_counterexampleRequirement claim = None \<and> re_adversarial (required_of claim) = [] \<or>
       list_all (\<lambda>r. \<not> has_status St_pass r \<or> pr_providerKind r \<noteq> Executed_test \<or>
                     (pr_executionRecordId r \<noteq> None \<and>
                      list_all (\<lambda>c. pr_executionRecordId r \<noteq> Some (cx_attemptId c) \<and> stable_id r \<noteq> cx_checkId c) cxs))
         results"
  proof (cases "dc_counterexampleRequirement claim = None \<and> re_adversarial (required_of claim) = []")
    case False
    then have "dc_counterexampleRequirement claim \<noteq> None \<or> Adv_counterexample \<in> set (re_adversarial (required_of claim))"
      using all_adversarial by (metis list.set_sel(1))
    then have "independence_scan (map cx_attemptId cxs) (map cx_checkId cxs) False (filter (has_status St_pass) results) = Independent"
      using d(6) by (auto simp: hasIndependentEvidenceRoles_def role_independence_def assessEvidenceRoleIndependence_def)
    then show ?thesis unfolding independence_scan_iff by (auto simp: list_all_iff)
  qed simp
  ultimately show ?thesis using d(1,5) by (auto simp: Let_def)
qed

theorem proven_claims_are_evidenced_witness:
  "pc_verificationState (evaluateClaim sample_claim
       (sample_input [sample_attempt ''a2'' ''2024-02-29T12:30:05Z'' Cx_supported]) ''t'') = PROVEN \<and>
   list_ex (\<lambda>c. cx_outcome c = Cx_supported \<and> isFreshCounterexample c (Some ''i1''))
     [sample_attempt ''a2'' ''2024-02-29T12:30:05Z'' Cx_supported]"
proof
  let ?cxs = "[sample_attempt ''a2'' ''2024-02-29T12:30:05Z'' Cx_supported]"
  let ?in = "sample_input ?cxs"
  show st: "pc_verificationState (evaluateClaim sample_claim ?in ''t'') = PROVEN" by code_simp
  have inp: "evaluateClaim sample_claim ?in ''t'' \<in> set (pj_claims (evaluateProofGraph ?in ''t''))"
    by (rule in_evaluated) (simp add: sample_input_def)
  have "re_adversarial (required_of (evaluateClaim sample_claim ?in ''t'')) \<noteq> []"
    and "claim_counterexamples (dc_claimId (evaluateClaim sample_claim ?in ''t'')) (ei_counterexamples ?in) = ?cxs"
    and "ei_currentImplementationDigest ?in = Some ''i1''"
    by code_simp+
  then show "list_ex (\<lambda>c. cx_outcome c = Cx_supported \<and> isFreshCounterexample c (Some ''i1'')) ?cxs"
    using proven_claims_are_evidenced [OF inp st] by simp
qed

end
