(* ===== verification/Plan_Certificate.thy ===== *)
theory Plan_Certificate
  imports Proof_Claims Review_Assurance
begin

text \<open>Plan lineage and plan approval: the plan record and its refinement (\<open>state/evidence-plan.ts\<close>), the
  approval certificate with its review binding and attestation (\<open>state/proofgraph-plan-certificate.ts\<close>), the
  authority a current certificate gives (\<open>state/proofgraph-approval.ts\<close>) and the minting of certificates
  (\<open>rails/plan-review-evidence.ts\<close>).

  \<open>hash\<close> is the platform hash \<open>hashText\<close>.  Review findings stay JSON values.\<close>

section \<open>Decisions\<close>

text \<open>\<open>ReviewVerdict\<close>, \<open>LoopVerdict\<close>, \<open>RevisionDelta\<close> and \<open>ReviewCompletion\<close> of \<open>state/evidence-primitives.ts\<close>.\<close>

datatype review_verdict = Approve | Approve_with_override | Verdict_changes | Reject

definition isApprovalVerdict :: "review_verdict \<Rightarrow> bool" where
  "isApprovalVerdict v = (v = Approve \<or> v = Approve_with_override)"

datatype loop_verdict = Accept | Loop_changes | Unable_to_review

datatype revision_delta = Delta_none | Delta_minor | Delta_major

datatype review_completion = Reviewer_accepted | Review_exhausted | Completion_pending

datatype actor_source = Src_env | Src_git | Src_claim | Src_oidc | Src_unknown

text \<open>The tiers of \<open>shared/actor-assurance.ts\<close>, in increasing order.\<close>
datatype actor_assurance = Best_effort | Claim_validated | Idp_verified

record decision_identity =
  di_actorId :: string
  di_actorEmail :: "string option"
  di_actorDisplayName :: "string option option"
  di_actorSource :: actor_source
  di_actorAssurance :: actor_assurance

record review_decision =
  rd_verdict :: review_verdict
  rd_rationale :: string
  rd_decidedAt :: string
  rd_decisionIdentity :: decision_identity

fun verdict_name :: "review_verdict \<Rightarrow> string" where
  "verdict_name Approve = ''approve''"
| "verdict_name Approve_with_override = ''approve_with_governance_override''"
| "verdict_name Verdict_changes = ''changes_requested''"
| "verdict_name Reject = ''reject''"

fun source_name :: "actor_source \<Rightarrow> string" where
  "source_name Src_env = ''env''"
| "source_name Src_git = ''git''"
| "source_name Src_claim = ''claim''"
| "source_name Src_oidc = ''oidc''"
| "source_name Src_unknown = ''unknown''"

fun assurance_name :: "actor_assurance \<Rightarrow> string" where
  "assurance_name Best_effort = ''best_effort''"
| "assurance_name Claim_validated = ''claim_validated''"
| "assurance_name Idp_verified = ''idp_verified''"

definition identity_members :: "decision_identity \<Rightarrow> jsobject" where
  "identity_members d =
     [(''actorId'', JStr (di_actorId d)), (''actorEmail'', nullable JStr (di_actorEmail d)),
      (''actorDisplayName'', undefinable (nullable JStr) (di_actorDisplayName d)),
      (''actorSource'', JStr (source_name (di_actorSource d))),
      (''actorAssurance'', JStr (assurance_name (di_actorAssurance d)))]"

definition decision_members :: "review_decision \<Rightarrow> jsobject" where
  "decision_members d =
     [(''verdict'', JStr (verdict_name (rd_verdict d))), (''rationale'', JStr (rd_rationale d)),
      (''decidedAt'', JStr (rd_decidedAt d)),
      (''decisionIdentity'', JObj (identity_members (rd_decisionIdentity d)))]"

section \<open>Plan records\<close>

record plan_evidence =
  pe_body :: string
  pe_digest :: string
  pe_sections :: "string list"
  pe_createdAt :: string
  pe_revisionId :: string
  pe_recordDigest :: string
  pe_planVersion :: nat
  pe_supersedesRecordDigest :: "string option"
  pe_originatingReviewObligationId :: "string option"
  pe_revisionReason :: "string option"

definition PLAN_RECORD_DOMAIN :: string where
  "PLAN_RECORD_DOMAIN = ''flowguard.plan-record.v1''"

definition record_members :: "plan_evidence \<Rightarrow> jsobject" where
  "record_members p =
     [(''contentDigest'', JStr (pe_digest p)), (''planVersion'', JNum (int (pe_planVersion p))),
      (''supersedesRecordDigest'', nullable JStr (pe_supersedesRecordDigest p)),
      (''originatingReviewObligationId'', nullable JStr (pe_originatingReviewObligationId p)),
      (''revisionReason'', nullable JStr (pe_revisionReason p)), (''revisionId'', JStr (pe_revisionId p))]"

definition computeRecordDigest :: "(string \<Rightarrow> string) \<Rightarrow> plan_evidence \<Rightarrow> string" where
  "computeRecordDigest hash p =
     hash (PLAN_RECORD_DOMAIN @ CHR 0x0A # canonicalJsonStringify (JObj (record_members p)))"

record rejected_claim =
  rj_claimRef :: string
  rj_statement :: string
  rj_critical :: bool
  rj_blocking :: bool
  rj_code :: string
  rj_reason :: string
  rj_recovery :: "string list"

record submission_diagnostics =
  sd_submittedDigest :: string
  sd_acceptedDigest :: string
  sd_rejectedClaims :: "rejected_claim list"

section \<open>Certificates\<close>

datatype review_binding =
    Current_review (rb_obligationId: string) (rb_evidenceDigest: string) (rb_reviewedSubject: string)
  | Exhausted_override (rb_obligationId: string) (rb_evidenceDigest: string) (rb_reviewedSubject: string) string

fun binding_members :: "review_binding \<Rightarrow> jsobject" where
  "binding_members (Current_review ob ev subj) =
     [(''kind'', JStr ''current_review''), (''reviewObligationId'', JStr ob),
      (''reviewEvidenceDigest'', JStr ev), (''reviewedSubjectDigest'', JStr subj)]"
| "binding_members (Exhausted_override ob ev subj appr) =
     [(''kind'', JStr ''review_exhausted_override''), (''lastReviewObligationId'', JStr ob),
      (''lastReviewEvidenceDigest'', JStr ev), (''reviewedSubjectDigest'', JStr subj),
      (''approvedSubjectDigest'', JStr appr)]"

text \<open>\<open>refineReviewBinding\<close>: true when no issue is added.\<close>
fun refineReviewBinding_ok :: "string \<Rightarrow> review_binding \<Rightarrow> bool" where
  "refineReviewBinding_ok authority (Current_review _ _ subj) = (subj = authority)"
| "refineReviewBinding_ok authority (Exhausted_override _ _ subj appr) = (appr = authority \<and> subj = appr)"

record approval_context =
  ac_flowguardSessionId :: string
  ac_bindingDigest :: string
  ac_policyHash :: string
  ac_policyHashVersion :: string

text \<open>\<open>PlanApprovalContext\<close>: the binding of the session, with what its policy says of human gates.\<close>
record plan_context =
  px_binding :: approval_context
  px_requireHumanGates :: bool

datatype plan_attestation =
    Explicit_decision review_decision (at_context: approval_context)
  | Policy_auto string (at_context: approval_context)

definition context_members :: "approval_context \<Rightarrow> jsobject" where
  "context_members c =
     [(''flowguardSessionId'', JStr (ac_flowguardSessionId c)), (''bindingDigest'', JStr (ac_bindingDigest c)),
      (''policyHash'', JStr (ac_policyHash c)), (''policyHashVersion'', JStr (ac_policyHashVersion c))]"

fun attestation_members :: "plan_attestation \<Rightarrow> jsobject" where
  "attestation_members (Explicit_decision d c) =
     [(''kind'', JStr ''explicit_decision''), (''decision'', JObj (decision_members d))] @ context_members c"
| "attestation_members (Policy_auto decidedAt c) =
     [(''kind'', JStr ''policy_auto''), (''decidedAt'', JStr decidedAt)] @ context_members c"

record plan_certificate =
  ce_authorityDigest :: string
  ce_claimDeclarationsDigest :: string
  ce_decisionAttestationDigest :: string
  ce_approvedAt :: string
  ce_certificateId :: string
  ce_planVersion :: nat
  ce_planRecordDigest :: string
  ce_reviewBinding :: review_binding
  ce_approvalAttestation :: plan_attestation

definition certificate_members :: "plan_certificate \<Rightarrow> jsobject" where
  "certificate_members c =
     [(''schemaVersion'', JStr ''plan-approval-certificate.v1''),
      (''authorityDigest'', JStr (ce_authorityDigest c)),
      (''claimDeclarationsDigest'', JStr (ce_claimDeclarationsDigest c)),
      (''decisionAttestationDigest'', JStr (ce_decisionAttestationDigest c)),
      (''planVersion'', JNum (int (ce_planVersion c))), (''planRecordDigest'', JStr (ce_planRecordDigest c)),
      (''reviewBinding'', JObj (binding_members (ce_reviewBinding c))),
      (''approvedAt'', JStr (ce_approvedAt c))]"

definition planApprovalCertificateIdentity :: "(string \<Rightarrow> string) \<Rightarrow> plan_certificate \<Rightarrow> string" where
  "planApprovalCertificateIdentity hash c =
     digestToId (hash (canonicalJsonStringify (JObj (certificate_members c)))) 4"

definition isCanonicalPlanCertificateIdentity :: "(string \<Rightarrow> string) \<Rightarrow> plan_certificate \<Rightarrow> bool" where
  "isCanonicalPlanCertificateIdentity hash c = (ce_certificateId c = planApprovalCertificateIdentity hash c)"

definition attestation_digest :: "(string \<Rightarrow> string) \<Rightarrow> plan_attestation \<Rightarrow> string" where
  "attestation_digest hash a = hash (canonicalJsonStringify (JObj (attestation_members a)))"

text \<open>The refinement of \<open>PlanApprovalCertificate\<close>.\<close>
definition plan_certificate_ok :: "(string \<Rightarrow> string) \<Rightarrow> plan_certificate \<Rightarrow> bool" where
  "plan_certificate_ok hash c =
     (refineReviewBinding_ok (ce_authorityDigest c) (ce_reviewBinding c) \<and>
      ce_decisionAttestationDigest c = attestation_digest hash (ce_approvalAttestation c) \<and>
      isCanonicalPlanCertificateIdentity hash c \<and>
      (case ce_approvalAttestation c of
         Explicit_decision d _ \<Rightarrow> ce_approvedAt c = rd_decidedAt d \<and> isApprovalVerdict (rd_verdict d)
       | Policy_auto decidedAt _ \<Rightarrow>
           ce_approvedAt c = decidedAt \<and>
           (case ce_reviewBinding c of Current_review _ _ _ \<Rightarrow> True | Exhausted_override _ _ _ _ \<Rightarrow> False)))"

section \<open>Claim declarations\<close>

definition plan_claim_members :: "plan_claim \<Rightarrow> jsobject" where
  "plan_claim_members d =
     [(''claimId'', JStr (pl_claimId d)), (''statement'', JStr (pl_statement d)),
      (''critical'', JBool (pl_critical d)), (''authoritySectionId'', JStr (pl_authoritySectionId d)),
      (''claimScope'', JStr (scope_name (pl_claimScope d))), (''expectedCheckId'', JStr (pl_expectedCheckId d)),
      (''expectedAssertion'', undefinable identity_json (pl_expectedAssertion d)),
      (''counterexampleRequirement'', undefinable (JObj \<circ> requirement_members) (pl_counterexampleRequirement d)),
      (''structuralSurface'', undefinable JStr (pl_structuralSurface d)),
      (''mutationProfile'', undefinable JStr (pl_mutationProfile d)),
      (''coversRiskTriggers'', undefinable (\<lambda>ts. JArr (map (JStr \<circ> trigger_name) ts)) (pl_coversRiskTriggers d))]"

definition declarations_members :: "plan_claim list \<Rightarrow> jsobject" where
  "declarations_members ds =
     [(''flow'', JStr ''plan''), (''version'', JStr ''v2''), (''claims'', JArr (map (JObj \<circ> plan_claim_members) ds))]"

text \<open>\<open>plan.claimDeclarations ?? emptyClaimDeclarations('plan')\<close>, digested.\<close>
definition declarations_digest :: "(string \<Rightarrow> string) \<Rightarrow> plan_claim list option \<Rightarrow> string" where
  "declarations_digest hash ds =
     hash (canonicalJsonStringify (JObj (declarations_members (case ds of None \<Rightarrow> [] | Some ds \<Rightarrow> ds))))"

record plan_record =
  pn_current :: plan_evidence
  pn_history :: "plan_evidence list"
  pn_reviewFindings :: "jsval list"
  pn_claimDeclarations :: "plan_claim list option"
  pn_claimSubmissionDiagnostics :: "submission_diagnostics option"
  pn_claimSubmissionHistory :: "(nat \<times> submission_diagnostics) list option"
  pn_approvalCertificate :: "plan_certificate option"
  pn_reviewCompletion :: review_completion

definition revision_chain :: "plan_record \<Rightarrow> plan_evidence list" where
  "revision_chain r = sort_key pe_planVersion (pn_history r @ [pn_current r])"

text \<open>The loop over the chain: \<open>index\<close> and the record digest of the predecessor.\<close>
fun chain_ok :: "(string \<Rightarrow> string) \<Rightarrow> nat \<Rightarrow> string option \<Rightarrow> plan_evidence list \<Rightarrow> bool" where
  "chain_ok hash index pred [] = True"
| "chain_ok hash index pred (p # ps) =
     (pe_digest p = hash (pe_body p) \<and> pe_recordDigest p = computeRecordDigest hash p \<and>
      pe_planVersion p = index + 1 \<and> pe_supersedesRecordDigest p = pred \<and>
      chain_ok hash (index + 1) (Some (pe_recordDigest p)) ps)"

text \<open>The refinement of \<open>PlanRecord\<close>.\<close>
definition plan_record_ok :: "(string \<Rightarrow> string) \<Rightarrow> plan_record \<Rightarrow> bool" where
  "plan_record_ok hash r =
     (chain_ok hash 0 None (revision_chain r) \<and>
      pe_planVersion (pn_current r) = length (revision_chain r) \<and>
      (case pn_approvalCertificate r of None \<Rightarrow> True | Some c \<Rightarrow> plan_certificate_ok hash c))"

definition resolvePlanReviewCompletion :: "nat \<Rightarrow> nat \<Rightarrow> revision_delta \<Rightarrow> loop_verdict \<Rightarrow> review_completion" where
  "resolvePlanReviewCompletion iteration maxIterations delta verdict =
     (if verdict = Unable_to_review then Completion_pending
      else if delta = Delta_none \<and> verdict = Accept then Reviewer_accepted
      else if maxIterations \<le> iteration then Review_exhausted else Completion_pending)"

section \<open>Authority of a certificate\<close>

definition approvalAttestationMatchesContext :: "plan_attestation \<Rightarrow> plan_context \<Rightarrow> bool" where
  "approvalAttestationMatchesContext a ctx =
     (let b = px_binding ctx; t = at_context a
      in ac_flowguardSessionId t = ac_flowguardSessionId b \<and> ac_bindingDigest t = ac_bindingDigest b \<and>
         ac_policyHash t = ac_policyHash b \<and> ac_policyHashVersion t = ac_policyHashVersion b \<and>
         \<not> ((case a of Policy_auto _ _ \<Rightarrow> True | Explicit_decision _ _ \<Rightarrow> False) \<and> px_requireHumanGates ctx))"

fun reviewBindingMatchesPlan :: "review_binding \<Rightarrow> string \<Rightarrow> bool" where
  "reviewBindingMatchesPlan (Current_review _ _ subj) digest = (subj = digest)"
| "reviewBindingMatchesPlan (Exhausted_override _ _ subj appr) digest = (appr = digest \<and> subj = appr)"

definition declared_claims :: "plan_record \<Rightarrow> plan_claim list" where
  "declared_claims p = (case pn_claimDeclarations p of None \<Rightarrow> [] | Some ds \<Rightarrow> ds)"

text \<open>The certificate, if there is one and the declared claim ids are unique.\<close>
definition approvalCertificateOf :: "plan_record option \<Rightarrow> plan_certificate option" where
  "approvalCertificateOf plan =
     (case plan of
        None \<Rightarrow> None
      | Some p \<Rightarrow> if uniqueClaimIds (map pl_claimId (declared_claims p)) = None then None
                  else pn_approvalCertificate p)"

definition hasCurrentPlanApprovalCertificate ::
  "(string \<Rightarrow> string) \<Rightarrow> plan_record option \<Rightarrow> plan_context \<Rightarrow> bool" where
  "hasCurrentPlanApprovalCertificate hash plan ctx =
     (case (approvalCertificateOf plan, plan) of
        (Some c, Some p) \<Rightarrow>
          ce_authorityDigest c = pe_digest (pn_current p) \<and>
          ce_planVersion c = pe_planVersion (pn_current p) \<and>
          ce_planRecordDigest c = pe_recordDigest (pn_current p) \<and>
          isCanonicalPlanCertificateIdentity hash c \<and>
          approvalAttestationMatchesContext (ce_approvalAttestation c) ctx \<and>
          reviewBindingMatchesPlan (ce_reviewBinding c) (pe_digest (pn_current p)) \<and>
          ce_claimDeclarationsDigest c = declarations_digest hash (pn_claimDeclarations p)
      | _ \<Rightarrow> False)"

record claim_binding =
  cb_authorityId :: string
  cb_authorityDigest :: string
  cb_certificateId :: string
  cb_claimDeclarationsDigest :: string
  cb_decisionAttestationDigest :: string
  cb_declarationId :: string
  cb_certifiedClaimDigest :: string

text \<open>\<open>AuthorizedCriticalPlanClaimIds\<close>: ids, coverage and bindings of the authorised claims.\<close>
datatype plan_authorization =
    Authorized "string list" "(string \<times> risk_trigger list) list" "(string \<times> claim_binding) list"
  | Certificate_missing
  | Certificate_invalid

definition claim_binding_of :: "(string \<Rightarrow> string) \<Rightarrow> plan_certificate \<Rightarrow> plan_claim \<Rightarrow> claim_binding" where
  "claim_binding_of hash c d =
     \<lparr>cb_authorityId = ''plan'', cb_authorityDigest = ce_authorityDigest c, cb_certificateId = ce_certificateId c,
      cb_claimDeclarationsDigest = ce_claimDeclarationsDigest c,
      cb_decisionAttestationDigest = ce_decisionAttestationDigest c, cb_declarationId = pl_claimId d,
      cb_certifiedClaimDigest = certifiedClaimDigest hash d\<rparr>"

definition authorizedCriticalPlanClaimIds ::
  "(string \<Rightarrow> string) \<Rightarrow> plan_record option \<Rightarrow> plan_context \<Rightarrow> plan_authorization" where
  "authorizedCriticalPlanClaimIds hash plan ctx =
     (let claims = (case plan of None \<Rightarrow> [] | Some p \<Rightarrow> declared_claims p)
      in case Option.bind plan pn_approvalCertificate of
           None \<Rightarrow> if list_ex pl_critical claims then Certificate_missing else Authorized [] [] []
         | Some c \<Rightarrow>
             if \<not> hasCurrentPlanApprovalCertificate hash plan ctx then Certificate_invalid
             else
               (let critical = filter pl_critical claims
                in Authorized (map pl_claimId critical)
                     (map (\<lambda>d. (pl_claimId d, case pl_coversRiskTriggers d of None \<Rightarrow> [] | Some ts \<Rightarrow> ts)) critical)
                     (map (\<lambda>d. (pl_claimId d, claim_binding_of hash c d)) critical)))"

section \<open>Minting\<close>

record review_evidence =
  rv_obligationId :: string
  rv_invocationId :: string
  rv_findingsHash :: string
  rv_subjectDigest :: string
  rv_claimDeclarationsDigest :: "string option"
  rv_reviewerVerdict :: "string option"

definition buildPlanReviewBinding :: "review_completion \<Rightarrow> review_evidence \<Rightarrow> string \<Rightarrow> review_binding option" where
  "buildPlanReviewBinding completion e approved =
     (case completion of
        Reviewer_accepted \<Rightarrow> Some (Current_review (rv_obligationId e) (rv_findingsHash e) (rv_subjectDigest e))
      | Review_exhausted \<Rightarrow>
          Some (Exhausted_override (rv_obligationId e) (rv_findingsHash e) (rv_subjectDigest e) approved)
      | Completion_pending \<Rightarrow> None)"

definition certificate_for ::
  "(string \<Rightarrow> string) \<Rightarrow> plan_record \<Rightarrow> string \<Rightarrow> plan_attestation \<Rightarrow> review_binding \<Rightarrow> plan_certificate" where
  "certificate_for hash p approvedAt attestation binding =
     (let c = \<lparr>ce_authorityDigest = pe_digest (pn_current p),
                ce_claimDeclarationsDigest = declarations_digest hash (pn_claimDeclarations p),
                ce_decisionAttestationDigest = attestation_digest hash attestation,
                ce_approvedAt = approvedAt, ce_certificateId = [],
                ce_planVersion = pe_planVersion (pn_current p),
                ce_planRecordDigest = pe_recordDigest (pn_current p), ce_reviewBinding = binding,
                ce_approvalAttestation = attestation\<rparr>
      in c\<lparr>ce_certificateId := planApprovalCertificateIdentity hash c\<rparr>)"

definition createPlanApprovalCertificate ::
  "(string \<Rightarrow> string) \<Rightarrow> plan_context \<Rightarrow> plan_record \<Rightarrow> review_decision \<Rightarrow> review_binding \<Rightarrow> plan_certificate" where
  "createPlanApprovalCertificate hash ctx p d binding =
     certificate_for hash p (rd_decidedAt d) (Explicit_decision d (px_binding ctx)) binding"

definition createAutomaticPlanApprovalCertificate ::
  "(string \<Rightarrow> string) \<Rightarrow> plan_context \<Rightarrow> plan_record \<Rightarrow> string \<Rightarrow> review_binding \<Rightarrow> plan_certificate option" where
  "createAutomaticPlanApprovalCertificate hash ctx p now binding =
     (if pn_reviewCompletion p \<noteq> Reviewer_accepted \<or> px_requireHumanGates ctx then None
      else Some (certificate_for hash p now (Policy_auto now (px_binding ctx)) binding))"

section \<open>Lemmas\<close>

lemma nullable_JStr_eq: "member_value (nullable JStr x) = member_value (nullable JStr y) \<longleftrightarrow> x = y"
  by (rule member_value_nullable) (simp_all add: member_value_simps)

lemma member_value_JNum: "member_value (JNum n) = Some (JNum n)"
  by (simp add: member_value_def)

lemma record_members_eq:
  "json_normal (JObj (record_members p)) = json_normal (JObj (record_members q)) \<longleftrightarrow>
     pe_digest p = pe_digest q \<and> pe_planVersion p = pe_planVersion q \<and>
     pe_supersedesRecordDigest p = pe_supersedesRecordDigest q \<and>
     pe_originatingReviewObligationId p = pe_originatingReviewObligationId q \<and>
     pe_revisionReason p = pe_revisionReason q \<and> pe_revisionId p = pe_revisionId q"
  unfolding record_members_def
  by (subst json_normal_same_keys) (simp_all add: nullable_JStr_eq member_value_simps(1) member_value_JNum)

definition record_text :: "plan_evidence \<Rightarrow> string" where
  "record_text p = PLAN_RECORD_DOMAIN @ CHR 0x0A # canonicalJsonStringify (JObj (record_members p))"

lemma record_text_eq:
  "record_text p = record_text q \<longleftrightarrow> json_normal (JObj (record_members p)) = json_normal (JObj (record_members q))"
  by (simp add: record_text_def canonicalJsonStringify_eq_iff)

lemma chain_ok_snoc:
  "chain_ok hash i pred (ps @ [p]) \<longleftrightarrow>
     chain_ok hash i pred ps \<and> pe_digest p = hash (pe_body p) \<and> pe_recordDigest p = computeRecordDigest hash p \<and>
     pe_planVersion p = i + length ps + 1 \<and>
     pe_supersedesRecordDigest p = (if ps = [] then pred else Some (pe_recordDigest (last ps)))"
  by (induction hash i pred ps rule: chain_ok.induct) auto

lemma chain_versions: "chain_ok hash i pred ps \<Longrightarrow> map pe_planVersion ps = [i + 1..<i + 1 + length ps]"
  by (induction hash i pred ps rule: chain_ok.induct) (auto simp: upt_conv_Cons)

lemma current_is_head:
  assumes "plan_record_ok hash r"
  shows "revision_chain r \<noteq> [] \<and> last (revision_chain r) = pn_current r"
proof -
  let ?c = "revision_chain r"
  have ok: "chain_ok hash 0 None ?c" and v: "pe_planVersion (pn_current r) = length ?c"
    using assms by (simp_all add: plan_record_ok_def)
  have in_chain: "pn_current r \<in> set ?c" by (simp add: revision_chain_def)
  then obtain i where i: "i < length ?c" "?c ! i = pn_current r" by (auto simp: in_set_conv_nth)
  have "map pe_planVersion ?c ! i = [1..<1 + length ?c] ! i" using chain_versions [OF ok] by simp
  then have "pe_planVersion (?c ! i) = i + 1" using i(1) by (simp add: nth_upt del: upt_Suc)
  then have "i = length ?c - 1" using i v by simp
  then show ?thesis using i in_chain by (metis empty_iff empty_set last_conv_nth)
qed

text \<open>What a record digest stands for.\<close>
definition lineage ::
  "plan_evidence \<Rightarrow> (string \<times> string) \<times> (string \<times> string) \<times> nat \<times> string option \<times> string option \<times> string option" where
  "lineage p = ((pe_body p, pe_digest p), (pe_revisionId p, pe_recordDigest p), pe_planVersion p,
     pe_supersedesRecordDigest p, pe_originatingReviewObligationId p, pe_revisionReason p)"

definition chain_texts :: "plan_evidence list \<Rightarrow> string set" where
  "chain_texts ps = pe_body ` set ps \<union> record_text ` set ps"

lemma head_determines_chain:
  assumes "chain_ok hash 0 None ps" and "chain_ok hash 0 None qs"
    and "inj_on hash (chain_texts ps \<union> chain_texts qs)"
    and "ps \<noteq> []" and "qs \<noteq> []" and "pe_recordDigest (last ps) = pe_recordDigest (last qs)"
  shows "map lineage ps = map lineage qs"
  using assms
proof (induction ps arbitrary: qs rule: rev_induct)
  case (snoc p ps)
  from snoc.prems(5) obtain rs q where qs: "qs = rs @ [q]" by (cases qs rule: rev_cases) auto
  have inj: "inj_on hash (chain_texts (ps @ [p]) \<union> chain_texts (rs @ [q]))" using snoc.prems(3) qs by simp
  have texts: "pe_body p \<in> chain_texts (ps @ [p])" "record_text p \<in> chain_texts (ps @ [p])"
    "pe_body q \<in> chain_texts (rs @ [q])" "record_text q \<in> chain_texts (rs @ [q])"
    by (simp_all add: chain_texts_def)
  note P = snoc.prems(1) [unfolded chain_ok_snoc] and Q = snoc.prems(2) [unfolded qs chain_ok_snoc]
  have dig: "pe_recordDigest p = pe_recordDigest q" using snoc.prems(6) qs by simp
  then have "hash (record_text p) = hash (record_text q)"
    using P Q by (simp add: computeRecordDigest_def record_text_def)
  then have "record_text p = record_text q" using inj_onD [OF inj] texts by blast
  then have same: "pe_digest p = pe_digest q" "pe_planVersion p = pe_planVersion q"
      "pe_supersedesRecordDigest p = pe_supersedesRecordDigest q"
      "pe_originatingReviewObligationId p = pe_originatingReviewObligationId q"
      "pe_revisionReason p = pe_revisionReason q" "pe_revisionId p = pe_revisionId q"
    by (simp_all add: record_text_eq record_members_eq)
  have "hash (pe_body p) = hash (pe_body q)" using P Q same(1) by simp
  then have "pe_body p = pe_body q" using inj_onD [OF inj] texts by blast
  then have pq: "lineage p = lineage q" by (simp add: lineage_def same dig)
  have len: "length ps = length rs" using P Q same(2) by simp
  show ?case
  proof (cases "ps = []")
    case True
    then show ?thesis using len qs pq by simp
  next
    case False
    then have ne: "rs \<noteq> []" using len by auto
    have "pe_recordDigest (last ps) = pe_recordDigest (last rs)" using P Q same(3) False ne by simp
    moreover have "inj_on hash (chain_texts ps \<union> chain_texts rs)"
      by (rule inj_on_subset [OF inj]) (auto simp: chain_texts_def)
    ultimately have "map lineage ps = map lineage rs" using snoc.IH [of rs] P Q False ne by blast
    then show ?thesis using qs pq by simp
  qed
qed simp

lemma JStr_list_eq: "map JStr xs = map JStr ys \<longleftrightarrow> xs = ys"
  by (simp add: inj_map_eq_map inj_def)

lemma trigger_list_eq:
  "member_value (JArr (map (JStr \<circ> trigger_name) xs)) = member_value (JArr (map (JStr \<circ> trigger_name) ys)) \<longleftrightarrow> xs = ys"
proof -
  have "inj (JStr \<circ> trigger_name)" by (auto simp: inj_def trigger_name_inj)
  then show ?thesis by (simp add: member_value_simps comp_def inj_map_eq_map)
qed

lemma plan_claim_members_eq:
  "json_normal (JObj (plan_claim_members c)) = json_normal (JObj (plan_claim_members d)) \<longleftrightarrow> c = d"
proof -
  have str: "member_value (undefinable JStr x) = member_value (undefinable JStr y) \<longleftrightarrow> x = y" for x y
    by (rule member_value_undefinable) (simp_all add: member_value_simps)
  have ident: "member_value (undefinable identity_json x) = member_value (undefinable identity_json y) \<longleftrightarrow> x = y" for x y
    by (rule member_value_undefinable [OF identity_json_eq]) (simp add: identity_json_def)
  have req: "member_value (undefinable (JObj \<circ> requirement_members) x) =
      member_value (undefinable (JObj \<circ> requirement_members) y) \<longleftrightarrow> x = y" for x y
    by (rule member_value_undefinable) (simp_all add: requirement_members_eq)
  have trig: "member_value (undefinable (\<lambda>ts. JArr (map (JStr \<circ> trigger_name) ts)) x) =
      member_value (undefinable (\<lambda>ts. JArr (map (JStr \<circ> trigger_name) ts)) y) \<longleftrightarrow> x = y" for x y
    by (rule member_value_undefinable [OF trigger_list_eq]) simp
  have "json_normal (JObj (plan_claim_members c)) = json_normal (JObj (plan_claim_members d)) \<longleftrightarrow>
      pl_claimId c = pl_claimId d \<and> pl_statement c = pl_statement d \<and> pl_critical c = pl_critical d \<and>
      pl_authoritySectionId c = pl_authoritySectionId d \<and> pl_claimScope c = pl_claimScope d \<and>
      pl_expectedCheckId c = pl_expectedCheckId d \<and> pl_expectedAssertion c = pl_expectedAssertion d \<and>
      pl_counterexampleRequirement c = pl_counterexampleRequirement d \<and>
      pl_structuralSurface c = pl_structuralSurface d \<and> pl_mutationProfile c = pl_mutationProfile d \<and>
      pl_coversRiskTriggers c = pl_coversRiskTriggers d"
    unfolding plan_claim_members_def
    by (subst json_normal_same_keys)
      (simp_all only: list.map prod.sel comp_apply list.inject simp_thms member_value_simps(1,3) option.inject
        jsval.inject str ident req trig scope_name_inj, simp_all)
  then show ?thesis by (auto intro: plan_claim.equality)
qed

lemma declarations_members_eq:
  "json_normal (JObj (declarations_members cs)) = json_normal (JObj (declarations_members ds)) \<longleftrightarrow> cs = ds"
proof -
  have inj: "inj (\<lambda>c. json_normal (JObj (plan_claim_members c)))" by (simp add: inj_def plan_claim_members_eq)
  have "member_value (JArr (map (JObj \<circ> plan_claim_members) cs)) = member_value (JArr (map (JObj \<circ> plan_claim_members) ds)) \<longleftrightarrow> cs = ds"
    using inj_map_eq_map [OF inj, of cs ds] by (simp add: member_value_simps comp_def)
  then show ?thesis
    unfolding declarations_members_def by (subst json_normal_same_keys) simp_all
qed

lemma approved_subject:
  "buildPlanReviewBinding completion e digest = Some b \<Longrightarrow> rv_subjectDigest e = digest \<Longrightarrow>
     refineReviewBinding_ok digest b \<and> reviewBindingMatchesPlan b digest"
  by (cases completion) (auto simp: buildPlanReviewBinding_def)

lemma certificate_for_simps [simp]:
  "ce_authorityDigest (certificate_for hash p t a b) = pe_digest (pn_current p)"
  "ce_claimDeclarationsDigest (certificate_for hash p t a b) = declarations_digest hash (pn_claimDeclarations p)"
  "ce_decisionAttestationDigest (certificate_for hash p t a b) = attestation_digest hash a"
  "ce_approvedAt (certificate_for hash p t a b) = t"
  "ce_planVersion (certificate_for hash p t a b) = pe_planVersion (pn_current p)"
  "ce_planRecordDigest (certificate_for hash p t a b) = pe_recordDigest (pn_current p)"
  "ce_reviewBinding (certificate_for hash p t a b) = b"
  "ce_approvalAttestation (certificate_for hash p t a b) = a"
  by (simp_all add: certificate_for_def Let_def)

lemma certificate_for_canonical: "isCanonicalPlanCertificateIdentity hash (certificate_for hash p t a b)"
  by (simp add: certificate_for_def Let_def isCanonicalPlanCertificateIdentity_def
      planApprovalCertificateIdentity_def certificate_members_def)

lemma certificate_for_current:
  assumes "distinct (map pl_claimId (declared_claims p))" and "reviewBindingMatchesPlan b (pe_digest (pn_current p))"
    and "approvalAttestationMatchesContext a ctx"
  shows "hasCurrentPlanApprovalCertificate hash (Some (p\<lparr>pn_approvalCertificate := Some (certificate_for hash p t a b)\<rparr>)) ctx"
proof -
  have "uniqueClaimIds (map pl_claimId (declared_claims (p\<lparr>pn_approvalCertificate := x\<rparr>))) \<noteq> None" for x
    using assms(1) by (simp add: uniqueClaimIds_def distinct_remdups_id declared_claims_def)
  then show ?thesis
    using assms(2,3) by (simp add: hasCurrentPlanApprovalCertificate_def approvalCertificateOf_def certificate_for_canonical)
qed

lemma explicit_matches: "approvalAttestationMatchesContext (Explicit_decision d (px_binding ctx)) ctx"
  by (simp add: approvalAttestationMatchesContext_def)

section \<open>Properties\<close>

text \<open>The head of a plan commits to its whole history. Two plan records the schema accepts whose current
  revisions have the same record digest have the same number of revisions, and every revision agrees in
  its text, digests, minted identity, version, predecessor, originating obligation and revision reason,
  as long as the hash keeps the texts of these revisions apart. A certificate or an obligation that names
  the record digest of a plan therefore fixes everything the plan went through (C32).\<close>

theorem plan_head_commits_history:
  assumes "plan_record_ok hash r" and "plan_record_ok hash s"
    and "pe_recordDigest (pn_current r) = pe_recordDigest (pn_current s)"
    and "inj_on hash (chain_texts (revision_chain r) \<union> chain_texts (revision_chain s))"
  shows "map lineage (revision_chain r) = map lineage (revision_chain s)"
  using assms current_is_head [OF assms(1)] current_is_head [OF assms(2)]
  by (intro head_determines_chain) (simp_all add: plan_record_ok_def)

definition sample_revision :: "string \<Rightarrow> nat \<Rightarrow> string option \<Rightarrow> plan_evidence" where
  "sample_revision body version pred =
     (let p = \<lparr>pe_body = body, pe_digest = CHR ''h'' # body, pe_sections = [], pe_createdAt = ''t'',
                pe_revisionId = ''r'', pe_recordDigest = [], pe_planVersion = version,
                pe_supersedesRecordDigest = pred, pe_originatingReviewObligationId = None,
                pe_revisionReason = None\<rparr>
      in p\<lparr>pe_recordDigest := computeRecordDigest (\<lambda>s. CHR ''h'' # s) p\<rparr>)"

definition sample_plan :: plan_record where
  "sample_plan =
     (let first = sample_revision ''one'' 1 None
      in \<lparr>pn_current = sample_revision ''two'' 2 (Some (pe_recordDigest first)), pn_history = [first],
          pn_reviewFindings = [], pn_claimDeclarations = Some [sample_declaration],
          pn_claimSubmissionDiagnostics = None, pn_claimSubmissionHistory = None,
          pn_approvalCertificate = None, pn_reviewCompletion = Reviewer_accepted\<rparr>)"

theorem plan_head_commits_history_witness:
  "plan_record_ok (\<lambda>s. CHR ''h'' # s) sample_plan \<and>
   map lineage (revision_chain sample_plan) =
     map lineage (revision_chain (sample_plan\<lparr>pn_claimDeclarations := None\<rparr>))"
proof
  show ok: "plan_record_ok (\<lambda>s. CHR ''h'' # s) sample_plan" by code_simp
  moreover have "plan_record_ok (\<lambda>s. CHR ''h'' # s) (sample_plan\<lparr>pn_claimDeclarations := None\<rparr>)" by code_simp
  ultimately show "map lineage (revision_chain sample_plan) =
      map lineage (revision_chain (sample_plan\<lparr>pn_claimDeclarations := None\<rparr>))"
    by (rule plan_head_commits_history) (simp_all add: inj_on_def)
qed

text \<open>A minted certificate is a current one. When the review evidence covers exactly the plan text and
  the declared claims have distinct ids, the certificate minted for an approving decision is accepted by
  the schema and is the current certificate of that plan in that session, whose critical claims it
  authorises in order; and so is the one the automatic path mints, which exists only for an accepted
  review under a policy without human gates (C30).\<close>

theorem minted_certificate_is_current:
  fixes hash :: "string \<Rightarrow> string" and ctx :: plan_context and now :: string
  assumes "buildPlanReviewBinding (pn_reviewCompletion p) e (pe_digest (pn_current p)) = Some b"
    and "rv_subjectDigest e = pe_digest (pn_current p)"
    and "distinct (map pl_claimId (declared_claims p))"
    and "isApprovalVerdict (rd_verdict d)"
  defines "c \<equiv> createPlanApprovalCertificate hash ctx p d b"
    and "auto_c \<equiv> createAutomaticPlanApprovalCertificate hash ctx p now b"
  shows "(plan_certificate_ok hash c \<and>
      hasCurrentPlanApprovalCertificate hash (Some (p\<lparr>pn_approvalCertificate := Some c\<rparr>)) ctx \<and>
      (\<exists>coverage bindings.
         authorizedCriticalPlanClaimIds hash (Some (p\<lparr>pn_approvalCertificate := Some c\<rparr>)) ctx =
         Authorized (map pl_claimId (filter pl_critical (declared_claims p))) coverage bindings)) \<and>
    (auto_c \<noteq> None) = (pn_reviewCompletion p = Reviewer_accepted \<and> \<not> px_requireHumanGates ctx) \<and>
    (auto_c = None \<or>
      plan_certificate_ok hash (the auto_c) \<and>
      hasCurrentPlanApprovalCertificate hash (Some (p\<lparr>pn_approvalCertificate := auto_c\<rparr>)) ctx)"
proof -
  note subj = approved_subject [OF assms(1,2)]
  note cur = certificate_for_current [OF assms(3) conjunct2 [OF subj]]
  have current: "hasCurrentPlanApprovalCertificate hash (Some (p\<lparr>pn_approvalCertificate := Some c\<rparr>)) ctx"
    by (simp add: c_def createPlanApprovalCertificate_def cur explicit_matches)
  have "plan_certificate_ok hash c"
    using subj assms(4) by (simp add: c_def createPlanApprovalCertificate_def plan_certificate_ok_def certificate_for_canonical)
  moreover have "\<exists>coverage bindings. authorizedCriticalPlanClaimIds hash (Some (p\<lparr>pn_approvalCertificate := Some c\<rparr>)) ctx =
      Authorized (map pl_claimId (filter pl_critical (declared_claims p))) coverage bindings"
    using current by (simp add: authorizedCriticalPlanClaimIds_def declared_claims_def Let_def)
  moreover have "plan_certificate_ok hash (the auto_c) \<and>
      hasCurrentPlanApprovalCertificate hash (Some (p\<lparr>pn_approvalCertificate := auto_c\<rparr>)) ctx" if "auto_c \<noteq> None"
  proof -
    have conds: "pn_reviewCompletion p = Reviewer_accepted" "\<not> px_requireHumanGates ctx"
      and auto_c: "auto_c = Some (certificate_for hash p now (Policy_auto now (px_binding ctx)) b)"
      using that by (simp_all add: auto_c_def createAutomaticPlanApprovalCertificate_def split: if_splits)
    have "case b of Current_review _ _ _ \<Rightarrow> True | Exhausted_override _ _ _ _ \<Rightarrow> False"
      using assms(1) conds(1) by (auto simp: buildPlanReviewBinding_def)
    then show ?thesis
      using subj conds(2) unfolding auto_c
      by (simp add: plan_certificate_ok_def certificate_for_canonical cur approvalAttestationMatchesContext_def)
  qed
  ultimately show ?thesis
    using current by (auto simp: auto_c_def createAutomaticPlanApprovalCertificate_def)
qed

definition sample_context :: "bool \<Rightarrow> plan_context" where
  "sample_context human =
     \<lparr>px_binding = \<lparr>ac_flowguardSessionId = ''s'', ac_bindingDigest = ''b'', ac_policyHash = ''p'',
        ac_policyHashVersion = ''policy-digest.v4''\<rparr>, px_requireHumanGates = human\<rparr>"

definition sample_evidence :: review_evidence where
  "sample_evidence =
     \<lparr>rv_obligationId = ''o'', rv_invocationId = ''i'', rv_findingsHash = ''f'',
      rv_subjectDigest = pe_digest (pn_current sample_plan), rv_claimDeclarationsDigest = None,
      rv_reviewerVerdict = Some ''accept''\<rparr>"

definition sample_decision :: review_decision where
  "sample_decision =
     \<lparr>rd_verdict = Approve, rd_rationale = [], rd_decidedAt = ''t'',
      rd_decisionIdentity = \<lparr>di_actorId = ''a'', di_actorEmail = None, di_actorDisplayName = None,
        di_actorSource = Src_git, di_actorAssurance = Best_effort\<rparr>\<rparr>"

theorem minted_certificate_is_current_witness:
  "hasCurrentPlanApprovalCertificate (\<lambda>s. CHR ''h'' # s)
     (Some (sample_plan\<lparr>pn_approvalCertificate := Some
       (createPlanApprovalCertificate (\<lambda>s. CHR ''h'' # s) (sample_context True) sample_plan sample_decision
          (Current_review ''o'' ''f'' (pe_digest (pn_current sample_plan))))\<rparr>)) (sample_context True)"
proof -
  have "buildPlanReviewBinding (pn_reviewCompletion sample_plan) sample_evidence (pe_digest (pn_current sample_plan)) =
      Some (Current_review ''o'' ''f'' (pe_digest (pn_current sample_plan)))"
    by (simp add: buildPlanReviewBinding_def sample_evidence_def sample_plan_def Let_def)
  moreover have "rv_subjectDigest sample_evidence = pe_digest (pn_current sample_plan)"
    by (simp add: sample_evidence_def)
  moreover have "distinct (map pl_claimId (declared_claims sample_plan))"
    by (simp add: declared_claims_def sample_plan_def Let_def)
  moreover have "isApprovalVerdict (rd_verdict sample_decision)"
    by (simp add: sample_decision_def isApprovalVerdict_def)
  ultimately show ?thesis
    using minted_certificate_is_current [where hash = "\<lambda>s. CHR ''h'' # s" and ctx = "sample_context True"] by blast
qed

text \<open>A certificate authorises one plan in one session. If the same certificate is current for two plans,
  in whatever sessions and policies, then the plans have the same current text digest, version and record
  digest, the same claim declarations (none and the empty list counting as the same), as long as the hash
  keeps the two declaration texts apart, and the sessions share identity, binding and policy; an
  automatic one is never current under a policy with human gates. A revised plan, an edited or added claim
  and another session or policy each need their own approval (C31).\<close>

theorem certificate_binds_plan:
  assumes "hasCurrentPlanApprovalCertificate hash (Some p) ctx"
    and "hasCurrentPlanApprovalCertificate hash (Some q) ctx'"
    and "pn_approvalCertificate p = pn_approvalCertificate q"
    and "inj_on hash {canonicalJsonStringify (JObj (declarations_members (declared_claims p))),
                      canonicalJsonStringify (JObj (declarations_members (declared_claims q)))}"
  shows "pe_digest (pn_current p) = pe_digest (pn_current q) \<and>
     pe_planVersion (pn_current p) = pe_planVersion (pn_current q) \<and>
     pe_recordDigest (pn_current p) = pe_recordDigest (pn_current q) \<and>
     declared_claims p = declared_claims q \<and> px_binding ctx = px_binding ctx' \<and>
     (\<exists>c. pn_approvalCertificate p = Some c \<and>
        ((\<exists>d b. ce_approvalAttestation c = Explicit_decision d b) \<or> \<not> px_requireHumanGates ctx))"
proof -
  obtain c where c: "pn_approvalCertificate p = Some c" "pn_approvalCertificate q = Some c"
    using assms(1,3) by (cases "pn_approvalCertificate p")
      (auto simp: hasCurrentPlanApprovalCertificate_def approvalCertificateOf_def split: if_splits option.splits)
  have cur: "ce_authorityDigest c = pe_digest (pn_current r) \<and> ce_planVersion c = pe_planVersion (pn_current r) \<and>
      ce_planRecordDigest c = pe_recordDigest (pn_current r) \<and>
      approvalAttestationMatchesContext (ce_approvalAttestation c) x \<and>
      ce_claimDeclarationsDigest c = hash (canonicalJsonStringify (JObj (declarations_members (declared_claims r))))"
    if "hasCurrentPlanApprovalCertificate hash (Some r) x" and "pn_approvalCertificate r = Some c" for r x
    using that by (simp add: hasCurrentPlanApprovalCertificate_def approvalCertificateOf_def declarations_digest_def
        declared_claims_def split: if_splits)
  note P = cur [OF assms(1) c(1)] and Q = cur [OF assms(2) c(2)]
  have "canonicalJsonStringify (JObj (declarations_members (declared_claims p))) =
      canonicalJsonStringify (JObj (declarations_members (declared_claims q)))"
    by (rule inj_onD [OF assms(4)]) (use P Q in simp_all)
  then have "declared_claims p = declared_claims q"
    by (simp only: canonicalJsonStringify_eq_iff declarations_members_eq)
  moreover have "px_binding ctx = px_binding ctx'"
    using P Q by (intro approval_context.equality) (simp_all add: approvalAttestationMatchesContext_def Let_def)
  moreover have "(\<exists>d b. ce_approvalAttestation c = Explicit_decision d b) \<or> \<not> px_requireHumanGates ctx"
    using P by (cases "ce_approvalAttestation c") (auto simp: approvalAttestationMatchesContext_def Let_def)
  ultimately show ?thesis using P Q c by auto
qed

theorem certificate_binds_plan_witness:
  "declared_claims sample_plan = [sample_declaration] \<and>
   px_binding (sample_context True) = px_binding (sample_context False)"
proof
  let ?h = "\<lambda>s. CHR ''h'' # s"
  let ?c = "createPlanApprovalCertificate ?h (sample_context True) sample_plan sample_decision
    (Current_review ''o'' ''f'' (pe_digest (pn_current sample_plan)))"
  let ?p = "sample_plan\<lparr>pn_approvalCertificate := Some ?c\<rparr>"
  show decl: "declared_claims sample_plan = [sample_declaration]"
    by (simp add: declared_claims_def sample_plan_def Let_def)
  have "hasCurrentPlanApprovalCertificate ?h (Some ?p) (sample_context human)" for human
    unfolding createPlanApprovalCertificate_def
    by (rule certificate_for_current)
      (simp_all add: decl sample_declaration_def approvalAttestationMatchesContext_def sample_context_def)
  note current = this [of True] this [of False]
  show "px_binding (sample_context True) = px_binding (sample_context False)"
    using certificate_binds_plan [OF current] by simp
qed

end
