(* ===== verification/Proof_Gate.thy ===== *)
theory Proof_Gate
  imports Proof_Evaluation Plan_Certificate
begin

text \<open>The evidence gate: the derivation of a session's projection (\<open>audit/proofgraph/derive.ts\<close>), the
  qualification of a cached projection by the integrity of its evidence
  (\<open>audit/proofgraph/evidence-integrity.ts\<close>), the coverage of the declared contract
  (\<open>audit/proofgraph/summary.ts\<close>), the enforcement projection
  (\<open>audit/proofgraph/enforcement-projection.ts\<close>, \<open>audit/proofgraph/reason-code-mapping.ts\<close>) and the gate
  decision (\<open>audit/proofgraph/gate.ts\<close>).

  Peer review claims enter \<open>deriveProofGraph\<close> as a list, the values of the map the source collects.\<close>

section \<open>Deriving the projection\<close>

datatype coverage_cause =
    Missing_declarations | Missing_certificate | Invalid_certificate | Missing_implementation
  | Missing_expected_check | Unverified_mutation_profile | Invalid_counterexample_contract
  | Aggregate_counterexample_unsupported | Role_collision_cause

record coverage_gap =
  cg_claimId :: "string option"
  cg_cause :: coverage_cause

definition roleIndependenceDiagnostics ::
  "declared_claim list \<Rightarrow> provider_result list \<Rightarrow> counterexample list \<Rightarrow> diagnostics" where
  "roleIndependenceDiagnostics claims results cxs =
     foldl (\<lambda>ds claim.
              case role_independence claim (claim_results (dc_claimId claim) results)
                     (claim_counterexamples (dc_claimId claim) cxs) of
                Role_collision \<Rightarrow> AList.update (dc_claimId claim) Evidence_role_collision ds
              | Not_verifiable \<Rightarrow> AList.update (dc_claimId claim) Evidence_missing ds
              | Independent \<Rightarrow> ds)
       [] claims"

definition mergeRoleDiagnostics :: "diagnostics \<Rightarrow> diagnostics \<Rightarrow> diagnostics" where
  "mergeRoleDiagnostics provided computed =
     foldl (\<lambda>ds (i, code).
              if code = Evidence_role_collision \<or> map_of ds i = None then AList.update i code ds else ds)
       provided computed"

definition coverageGapDiagnostics :: "coverage_gap list option \<Rightarrow> diagnostics" where
  "coverageGapDiagnostics gaps =
     foldl (\<lambda>ds gap.
              case (cg_cause gap, cg_claimId gap) of
                (Role_collision_cause, Some i) \<Rightarrow> AList.update i Evidence_role_collision ds
              | _ \<Rightarrow> ds)
       [] (case gaps of None \<Rightarrow> [] | Some gs \<Rightarrow> gs)"

record derive_input =
  de_contract :: "proof_contract option"
  de_coverage :: "coverage_gap list option"
  de_peerClaims :: "declared_claim list"
  de_implementationDigest :: "string option"
  de_planDigest :: "string option"
  de_surfaceDigests :: "(string \<times> string) list"
  de_claimDiagnostics :: diagnostics

definition deriveProofGraph ::
  "derive_input \<Rightarrow> provider_result list \<Rightarrow> counterexample list \<Rightarrow> string \<Rightarrow> projection" where
  "deriveProofGraph input results cxs evaluatedAt =
     (let claims = contract_claims (de_contract input) @ de_peerClaims input;
          base = evaluateProofGraph
            \<lparr>ei_claims = claims, ei_providerResults = results, ei_counterexamples = cxs,
             ei_currentImplementationDigest = de_implementationDigest input,
             ei_currentPlanDigest = de_planDigest input,
             ei_currentSurfaceDigests = de_surfaceDigests input\<rparr> evaluatedAt;
          ds = mergeRoleDiagnostics
                 (set_all (coverageGapDiagnostics (de_coverage input)) (de_claimDiagnostics input))
                 (roleIndependenceDiagnostics claims results cxs)
      in if ds \<noteq> [] then base\<lparr>pj_claimDiagnostics := Some ds\<rparr> else base)"

section \<open>Integrity of the evidence\<close>

record integrity_input =
  ii_contract :: "proof_contract option"
  ii_validationAttempts :: "validation_attempt list"
  ii_implementationDigest :: "string option"

definition attempt_refs :: "'a declared_claim_scheme \<Rightarrow> string list" where
  "attempt_refs claim =
     List.map_filter (\<lambda>r. case r of Validation_attempt_ref i \<Rightarrow> Some i | _ \<Rightarrow> None)
       (dc_evidenceRefs claim @ dc_counterexampleRefs claim)"

text \<open>The defect an attempt of the current implementation shows for a claim that refers to it.\<close>
definition attempt_defect :: "'a declared_claim_scheme \<Rightarrow> string option \<Rightarrow> validation_attempt \<Rightarrow> binding_code option" where
  "attempt_defect claim implementation a =
     (if implementation_scope a = None \<or> implementation_scope a \<noteq> implementation \<or>
         va_attemptId a \<notin> set (attempt_refs claim) then None
      else (case assessAssertionEvidenceIntegrity (vr_assertionExtraction (va_result a)) of
              Integrity_invalid code _ \<Rightarrow> Some code | Integrity_valid \<Rightarrow> None))"

definition integrity_step :: "declared_claim \<Rightarrow> string option \<Rightarrow> diagnostics \<Rightarrow> validation_attempt \<Rightarrow> diagnostics" where
  "integrity_step claim implementation ds a =
     (case attempt_defect claim implementation a of
        None \<Rightarrow> ds
      | Some code \<Rightarrow>
          if map_of ds (dc_claimId claim) = Some Provider_mismatch then ds
          else AList.update (dc_claimId claim) code ds)"

definition integrityFailures :: "projection \<Rightarrow> integrity_input \<Rightarrow> diagnostics" where
  "integrityFailures p input =
     foldl (\<lambda>ds claim. foldl (integrity_step claim (ii_implementationDigest input)) ds (ii_validationAttempts input))
       [] (contract_claims (ii_contract input) @ map declared_claim.truncate (pj_claims p))"

definition rejectedProvider :: "string \<Rightarrow> string \<Rightarrow> provider_result" where
  "rejectedProvider claimId evaluatedAt =
     unavailable_test claimId evaluatedAt
       ''referenced assertion evidence failed its identity-integrity contract''"

definition reevaluate :: "integrity_input \<Rightarrow> counterexample list \<Rightarrow> string \<Rightarrow> proof_claim \<Rightarrow> proof_claim list" where
  "reevaluate input cxs evaluatedAt claim =
     pj_claims (evaluateProofGraph
       \<lparr>ei_claims = [declared_claim.truncate claim],
        ei_providerResults = [rejectedProvider (dc_claimId claim) evaluatedAt], ei_counterexamples = cxs,
        ei_currentImplementationDigest = ii_implementationDigest input, ei_currentPlanDigest = None,
        ei_currentSurfaceDigests = []\<rparr> evaluatedAt)"

definition assessProofGraphEvidence :: "projection \<Rightarrow> integrity_input \<Rightarrow> projection \<times> diagnostics" where
  "assessProofGraphEvidence p input =
     (let failures = integrityFailures p input
      in if failures = [] then (p, failures)
         else
           (let cxs = fst (bindCounterexamples (ii_contract input) (ii_validationAttempts input)
                             (ii_implementationDigest input) (pj_evaluatedAt p))
            in (p\<lparr>pj_claims := concat (map (\<lambda>claim.
                     if map_of failures (dc_claimId claim) \<noteq> None
                     then reevaluate input cxs (pj_evaluatedAt p) claim else [claim]) (pj_claims p)),
                  pj_claimDiagnostics :=
                    Some (set_all failures (case pj_claimDiagnostics p of None \<Rightarrow> [] | Some ds \<Rightarrow> ds))\<rparr>,
                failures)))"

section \<open>Coverage of the declared contract\<close>

datatype coverage = Cov_not_declared | Cov_not_verified | Cov_proven

definition hasUndeclaredGoverningClaim :: "proof_claim list \<Rightarrow> string list \<Rightarrow> bool" where
  "hasUndeclaredGoverningClaim claims declared =
     list_ex (\<lambda>c. dc_claimId c \<notin> set declared \<and> dc_provenance c \<noteq> None) claims"

definition contractCoverage :: "proof_contract option \<Rightarrow> proof_claim list \<Rightarrow> coverage" where
  "contractCoverage contract claims =
     (case contract of
        None \<Rightarrow> Cov_not_declared
      | Some ct \<Rightarrow>
          if ct_claims ct = [] then Cov_not_verified
          else
            (case uniqueClaimIds (map dc_claimId (ct_claims ct)) of
               None \<Rightarrow> Cov_not_verified
             | Some declared \<Rightarrow>
                 if \<not> claimsMatchDeclaredSet (map dc_claimId claims) declared then Cov_not_verified
                 else if hasUndeclaredGoverningClaim claims declared then Cov_not_verified
                 else if list_all (\<lambda>c. pc_verificationState c = PROVEN)
                           (filter (\<lambda>c. dc_claimId c \<in> set declared) claims)
                 then Cov_proven else Cov_not_verified))"

record graph_summary =
  gs_coverage :: coverage
  gs_claimCount :: nat
  gs_provenCount :: nat
  gs_unprovenCount :: nat
  gs_contractClaimCount :: nat
  gs_hypothesisCount :: nat

definition summarizePersistedProofGraph :: "projection \<Rightarrow> integrity_input \<Rightarrow> graph_summary" where
  "summarizePersistedProofGraph p input =
     (let claims = pj_claims (fst (assessProofGraphEvidence p input));
          proven = length (filter (\<lambda>c. pc_verificationState c = PROVEN) claims)
      in \<lparr>gs_coverage = contractCoverage (ii_contract input) claims, gs_claimCount = length claims,
          gs_provenCount = proven, gs_unprovenCount = length claims - proven,
          gs_contractClaimCount = length (contract_claims (ii_contract input)),
          gs_hypothesisCount = length (filter (\<lambda>c. dc_signalClass c = Hypothesis) claims)\<rparr>)"

section \<open>Reason codes\<close>

datatype enforcement_code =
    Binding_code binding_code
  | Proven_code | Counterexample_observed | Evidence_stale_code | Evidence_unproven | Provider_execution_error
  | Provenance_missing | Evaluation_unavailable_code | Risk_assessment_stale_code | Certificate_invalid_code
  | Certified_claim_mismatch_code | Critical_fact_required_code | Risk_trigger_uncovered_code

fun mapBindingReasonToRegistryCode :: "binding_code \<Rightarrow> string" where
  "mapBindingReasonToRegistryCode Evidence_missing = ''PROOFGRAPH_ASSERTION_EVIDENCE_MISSING''"
| "mapBindingReasonToRegistryCode Aggregate_check_mismatch = ''PROOFGRAPH_AGGREGATE_CHECK_MISMATCH''"
| "mapBindingReasonToRegistryCode Aggregate_candidate_mismatch = ''PROOFGRAPH_AGGREGATE_CHECK_MISMATCH''"
| "mapBindingReasonToRegistryCode Aggregate_scope_unattested = ''PROOFGRAPH_AGGREGATE_SCOPE_UNATTESTED''"
| "mapBindingReasonToRegistryCode Aggregate_extraction_missing = ''PROOFGRAPH_AGGREGATE_EXTRACTION_MISSING''"
| "mapBindingReasonToRegistryCode Aggregate_capability_missing = ''PROOFGRAPH_AGGREGATE_CAPABILITY_MISSING''"
| "mapBindingReasonToRegistryCode Provider_mismatch = ''PROOFGRAPH_ASSERTION_PROVIDER_MISMATCH''"
| "mapBindingReasonToRegistryCode Assertion_mismatch = ''PROOFGRAPH_ASSERTION_IDENTITY_MISMATCH''"
| "mapBindingReasonToRegistryCode Assertion_identity_ambiguous = ''PROOFGRAPH_ASSERTION_IDENTITY_AMBIGUOUS''"
| "mapBindingReasonToRegistryCode Check_mismatch = ''PROOFGRAPH_ASSERTION_EVIDENCE_MISSING''"
| "mapBindingReasonToRegistryCode Check_only_evidence = ''PROOFGRAPH_ASSERTION_BINDING_UNAVAILABLE''"
| "mapBindingReasonToRegistryCode Evidence_role_collision = ''PROOFGRAPH_EVIDENCE_ROLE_COLLISION''"
| "mapBindingReasonToRegistryCode Counterexample_conflict = ''PROOFGRAPH_COUNTEREXAMPLE_CONFLICT''"

fun mapEnforcementReasonToRegistryCode :: "enforcement_code \<Rightarrow> string" where
  "mapEnforcementReasonToRegistryCode (Binding_code c) = mapBindingReasonToRegistryCode c"
| "mapEnforcementReasonToRegistryCode Proven_code = ''PROOFGRAPH_EVIDENCE_PROVEN''"
| "mapEnforcementReasonToRegistryCode Counterexample_observed = ''PROOFGRAPH_COUNTEREXAMPLE_OBSERVED''"
| "mapEnforcementReasonToRegistryCode Evidence_stale_code = ''PROOFGRAPH_EVIDENCE_STALE''"
| "mapEnforcementReasonToRegistryCode Evidence_unproven = ''PROOFGRAPH_CRITICAL_FACTS_UNPROVEN''"
| "mapEnforcementReasonToRegistryCode Provider_execution_error = ''PROOFGRAPH_PROVIDER_EXECUTION_ERROR''"
| "mapEnforcementReasonToRegistryCode Provenance_missing = ''PROOFGRAPH_ASSERTION_EVIDENCE_MISSING''"
| "mapEnforcementReasonToRegistryCode Evaluation_unavailable_code = ''PROOFGRAPH_EVALUATION_UNAVAILABLE''"
| "mapEnforcementReasonToRegistryCode Risk_assessment_stale_code = ''PROOFGRAPH_RISK_ASSESSMENT_STALE''"
| "mapEnforcementReasonToRegistryCode Certificate_invalid_code = ''PROOFGRAPH_CERTIFICATE_INVALID''"
| "mapEnforcementReasonToRegistryCode Certified_claim_mismatch_code = ''PROOFGRAPH_CERTIFIED_CLAIM_MISMATCH''"
| "mapEnforcementReasonToRegistryCode Critical_fact_required_code = ''PROOFGRAPH_CRITICAL_FACT_REQUIRED''"
| "mapEnforcementReasonToRegistryCode Risk_trigger_uncovered_code = ''PROOFGRAPH_RISK_TRIGGER_UNCOVERED''"

section \<open>Enforcement\<close>

datatype decision_kind =
    Clear | Evaluation_unavailable | Risk_assessment_stale | Certificate_invalid_kind
  | Certified_claim_mismatch | Critical_fact_required | Risk_trigger_uncovered | Facts_unproven

record claim_enforcement =
  ne_claimId :: string
  ne_statement :: string
  ne_critical :: bool
  ne_signalClass :: signal_class
  ne_verificationState :: verification_state
  ne_reasonCodes :: "enforcement_code list"
  ne_registryCode :: string

record blocking_claim =
  bk_claimId :: string
  bk_state :: verification_state
  bk_reasonCode :: enforcement_code
  bk_registryCode :: string

record enforcement =
  en_claims :: "claim_enforcement list"
  en_blockingClaims :: "blocking_claim list"
  en_satisfied :: bool
  en_decisionKind :: decision_kind
  en_reasonCode :: enforcement_code
  en_reason :: string
  en_uncoveredTriggers :: "risk_trigger list"

definition isGateEligible :: "'a declared_claim_scheme \<Rightarrow> bool" where
  "isGateEligible claim =
     (dc_critical claim \<and> dc_signalClass claim = Fact \<and>
      (case dc_provenance claim of Some (Canonical_authority _ _ (Some _)) \<Rightarrow> True | _ \<Rightarrow> False))"

definition state_code :: "binding_code option \<Rightarrow> verification_state \<Rightarrow> enforcement_code" where
  "state_code diag st =
     (case st of
        PROVEN \<Rightarrow> Proven_code
      | CONTRADICTED \<Rightarrow> Counterexample_observed
      | NOT_VERIFIED \<Rightarrow> Binding_code (case diag of None \<Rightarrow> Evidence_missing | Some c \<Rightarrow> c)
      | STALE \<Rightarrow> Evidence_stale_code
      | BLOCKED \<Rightarrow> Provider_execution_error
      | UNPROVEN \<Rightarrow> Evidence_unproven)"

definition claimReasonCodes :: "proof_claim \<Rightarrow> diagnostics \<Rightarrow> enforcement_code list" where
  "claimReasonCodes claim ds =
     (if dc_provenance claim = None then [Provenance_missing] else []) @
     [state_code (map_of ds (dc_claimId claim)) (pc_verificationState claim)]"

definition primaryReason :: "enforcement_code list \<Rightarrow> enforcement_code" where
  "primaryReason codes = (case codes of [] \<Rightarrow> Binding_code Evidence_missing | c # _ \<Rightarrow> c)"

definition primaryRegistryCode :: "enforcement_code list \<Rightarrow> binding_code option \<Rightarrow> string" where
  "primaryRegistryCode codes diag =
     (case diag of Some c \<Rightarrow> mapBindingReasonToRegistryCode c
                 | None \<Rightarrow> mapEnforcementReasonToRegistryCode (primaryReason codes))"

record enforcement_input =
  ni_contract :: "proof_contract option"
  ni_projection :: "projection option"
  ni_authorizedIds :: "string list"
  ni_certificateValid :: bool
  ni_riskAssessmentStale :: bool
  ni_riskTriggers :: "risk_trigger list"
  ni_coverage :: "(string \<times> risk_trigger list) list"
  ni_bindings :: "(string \<times> claim_binding) list"
  ni_claimDiagnostics :: diagnostics

definition projected_claims :: "enforcement_input \<Rightarrow> proof_claim list" where
  "projected_claims input = (case ni_projection input of None \<Rightarrow> [] | Some p \<Rightarrow> pj_claims p)"

definition matchesAuthorizedBinding ::
  "(string \<Rightarrow> string) \<Rightarrow> 'a declared_claim_scheme \<Rightarrow> claim_binding \<Rightarrow> bool" where
  "matchesAuthorizedBinding hash claim expected =
     (case dc_provenance claim of
        Some (Canonical_authority authority digest (Some a)) \<Rightarrow>
          authority = cb_authorityId expected \<and> digest = cb_authorityDigest expected \<and>
          ab_certificateId a = cb_certificateId expected \<and>
          ab_claimDeclarationsDigest a = cb_claimDeclarationsDigest expected \<and>
          ab_decisionAttestationDigest a = cb_decisionAttestationDigest expected \<and>
          ab_declarationId a = cb_declarationId expected \<and>
          map_option cp_digest (dc_certifiedPlan claim) = Some (cb_certifiedClaimDigest expected) \<and>
          materializedClaimDigest hash claim = Some (cb_certifiedClaimDigest expected)
      | _ \<Rightarrow> False)"

definition uncoveredRiskTriggers :: "enforcement_input \<Rightarrow> proof_claim list \<Rightarrow> risk_trigger list" where
  "uncoveredRiskTriggers input eligible =
     (let covered = concat (map snd (filter (\<lambda>(i, _). i \<in> dc_claimId ` set eligible) (ni_coverage input)))
      in filter (\<lambda>t. t \<notin> set covered) (ni_riskTriggers input))"

definition missingAuthorizedClaimIds ::
  "(string \<Rightarrow> string) \<Rightarrow> enforcement_input \<Rightarrow> proof_claim list \<Rightarrow> string list" where
  "missingAuthorizedClaimIds hash input eligible =
     (let occurrences = claimOccurrences (map dc_claimId (projected_claims input));
          source = contract_claims (ni_contract input)
      in filter (\<lambda>i.
           case last_by dc_claimId eligible i of
             None \<Rightarrow> True
           | Some claim \<Rightarrow>
               occurrences i \<noteq> 1 \<or>
               (case map_of (ni_bindings input) i of
                  None \<Rightarrow> True
                | Some expected \<Rightarrow>
                    \<not> matchesAuthorizedBinding hash claim expected \<or>
                    claimOccurrences (map dc_claimId source) i \<noteq> 1 \<or>
                    (case last_by dc_claimId source i of
                       None \<Rightarrow> True
                     | Some s \<Rightarrow> \<not> isGateEligible s \<or> \<not> matchesAuthorizedBinding hash s expected)))
         (ni_authorizedIds input))"

definition certified_mismatch :: "(string \<Rightarrow> string) \<Rightarrow> string \<Rightarrow> claim_binding \<Rightarrow> 'a declared_claim_scheme \<Rightarrow> bool" where
  "certified_mismatch hash i expected claim =
     (dc_claimId claim = i \<and> isGateEligible claim \<and> dc_certifiedPlan claim \<noteq> None \<and>
      materializedClaimDigest hash claim \<noteq> Some (cb_certifiedClaimDigest expected))"

definition refusal :: "decision_kind \<Rightarrow> enforcement_code \<Rightarrow> string \<Rightarrow> string list \<Rightarrow> risk_trigger list \<Rightarrow> enforcement" where
  "refusal kind code reason ids uncovered =
     \<lparr>en_claims = [],
      en_blockingClaims =
        map (\<lambda>i. \<lparr>bk_claimId = i, bk_state = NOT_VERIFIED, bk_reasonCode = code,
                   bk_registryCode = mapEnforcementReasonToRegistryCode code\<rparr>) ids,
      en_satisfied = False, en_decisionKind = kind, en_reasonCode = code, en_reason = reason,
      en_uncoveredTriggers = uncovered\<rparr>"

definition certifiedMismatchDecision ::
  "(string \<Rightarrow> string) \<Rightarrow> enforcement_input \<Rightarrow> proof_claim list \<Rightarrow> enforcement option" where
  "certifiedMismatchDecision hash input eligible =
     (let mismatches = filter (\<lambda>i.
            i \<in> dc_claimId ` set eligible \<and>
            (case map_of (ni_bindings input) i of
               None \<Rightarrow> False
             | Some expected \<Rightarrow>
                 list_ex (certified_mismatch hash i expected) (contract_claims (ni_contract input)) \<or>
                 list_ex (certified_mismatch hash i expected) (projected_claims input)))
            (ni_authorizedIds input)
      in if mismatches = [] then None
         else Some (refusal Certified_claim_mismatch Certified_claim_mismatch_code
                ''Materialized claim semantics differ from their certified declaration.'' mismatches []))"

definition evaluatePreconditions ::
  "(string \<Rightarrow> string) \<Rightarrow> enforcement_input \<Rightarrow> proof_claim list \<Rightarrow> enforcement option" where
  "evaluatePreconditions hash input eligible =
     (if \<not> ni_certificateValid input
      then Some (refusal Certificate_invalid_kind Certificate_invalid_code
             ''The plan approval certificate is missing, stale, or does not bind the current plan.'' [] [])
      else
        (let missing = missingAuthorizedClaimIds hash input eligible
         in case certifiedMismatchDecision hash input eligible of
              Some d \<Rightarrow> Some d
            | None \<Rightarrow>
                if missing \<noteq> []
                then Some (refusal Evaluation_unavailable Evaluation_unavailable_code
                  (''Certificate-authorized critical plan claim(s) have no unique, '' @
                   ''correctly bound source and ProofGraph evaluation.'') missing [])
                else if ni_riskAssessmentStale input
                then Some (refusal Risk_assessment_stale Risk_assessment_stale_code
                  (''The implementation risk assessment is missing, stale, '' @
                   ''or predates trigger classification.'') [] [])
                else if eligible = [] \<and> ni_riskTriggers input \<noteq> []
                then Some (refusal Critical_fact_required Critical_fact_required_code
                  (''A critical, certificate-authorized fact claim is required '' @
                   ''for the current risk triggers.'') [] [])
                else
                  (let uncovered = uncoveredRiskTriggers input eligible
                   in if uncovered \<noteq> []
                      then Some (refusal Risk_trigger_uncovered Risk_trigger_uncovered_code
                        (''Risk trigger(s) have no certificate-authorized critical claim coverage: '' @
                         join '', '' (map trigger_name uncovered) @ ''.'') [] uncovered)
                      else None)))"

definition claim_row :: "diagnostics \<Rightarrow> proof_claim \<Rightarrow> claim_enforcement" where
  "claim_row ds claim =
     (let codes = claimReasonCodes claim ds
      in \<lparr>ne_claimId = dc_claimId claim, ne_statement = dc_statement claim, ne_critical = dc_critical claim,
          ne_signalClass = dc_signalClass claim, ne_verificationState = pc_verificationState claim,
          ne_reasonCodes = codes, ne_registryCode = primaryRegistryCode codes (map_of ds (dc_claimId claim))\<rparr>)"

definition blocking_row :: "diagnostics \<Rightarrow> proof_claim \<Rightarrow> blocking_claim" where
  "blocking_row ds claim =
     (let codes = claimReasonCodes claim ds
      in \<lparr>bk_claimId = dc_claimId claim, bk_state = pc_verificationState claim, bk_reasonCode = primaryReason codes,
          bk_registryCode = primaryRegistryCode codes (map_of ds (dc_claimId claim))\<rparr>)"

definition computeProofGraphEnforcement :: "(string \<Rightarrow> string) \<Rightarrow> enforcement_input \<Rightarrow> enforcement" where
  "computeProofGraphEnforcement hash input =
     (let eligible = filter isGateEligible (projected_claims input)
      in case evaluatePreconditions hash input eligible of
           Some d \<Rightarrow> d
         | None \<Rightarrow>
             (let ds = ni_claimDiagnostics input;
                  open_claims = filter (\<lambda>c. pc_verificationState c \<noteq> PROVEN) eligible
              in \<lparr>en_claims = map (claim_row ds) eligible, en_blockingClaims = map (blocking_row ds) open_claims,
                  en_satisfied = (open_claims = []),
                  en_decisionKind = (if open_claims = [] then Clear else Facts_unproven),
                  en_reasonCode = (if open_claims = [] then Proven_code else Evidence_unproven),
                  en_reason = (if open_claims = [] then ''All critical fact claims are PROVEN.''
                               else show_nat (length open_claims) @ '' critical fact claim(s) are not PROVEN.''),
                  en_uncoveredTriggers = []\<rparr>))"

section \<open>The gate\<close>

record implementation_risk =
  ir_implementationDigest :: string
  ir_riskTriggers :: "risk_trigger list"

definition isRiskAssessmentCurrent :: "'a implementation_risk_scheme option \<Rightarrow> string option \<Rightarrow> bool" where
  "isRiskAssessmentCurrent assessment implementation =
     (case assessment of None \<Rightarrow> False | Some r \<Rightarrow> implementation = Some (ir_implementationDigest r))"

definition relevantTriggers :: "'a implementation_risk_scheme option \<Rightarrow> risk_trigger list" where
  "relevantTriggers assessment = (case assessment of None \<Rightarrow> [] | Some r \<Rightarrow> filter specific (ir_riskTriggers r))"

record gate_decision =
  gd_gated :: bool
  gd_blockingClaims :: "blocking_claim list"
  gd_reasonCode :: enforcement_code
  gd_reason :: string
  gd_kind :: decision_kind
  gd_relevantTriggers :: "risk_trigger list"
  gd_uncoveredTriggers :: "risk_trigger list"

text \<open>Projection diagnostics first, identity failures last.\<close>
definition mergeClaimDiagnostics :: "projection \<Rightarrow> diagnostics \<Rightarrow> diagnostics" where
  "mergeClaimDiagnostics p identity =
     set_all identity (set_all (case pj_claimDiagnostics p of None \<Rightarrow> [] | Some ds \<Rightarrow> ds) [])"

text \<open>\<open>evaluateProofGraphGate\<close> on the inputs \<open>evaluateProofGraphGateFromState\<close> gives it.\<close>
definition evaluateProofGraphGate ::
  "(string \<Rightarrow> string) \<Rightarrow> integrity_input \<Rightarrow> projection \<Rightarrow> plan_authorization \<Rightarrow> 'a implementation_risk_scheme option \<Rightarrow>
     gate_decision" where
  "evaluateProofGraphGate hash input p authorization risk =
     (let (assessed, identity) = assessProofGraphEvidence p input;
          triggers = relevantTriggers risk;
          stale = (ii_implementationDigest input \<noteq> None \<and>
                   \<not> isRiskAssessmentCurrent risk (ii_implementationDigest input));
          (valid, ids, coverage, bindings) =
            (case authorization of Authorized ids cov bs \<Rightarrow> (True, ids, cov, bs) | _ \<Rightarrow> (False, [], [], []));
          e = computeProofGraphEnforcement hash
            \<lparr>ni_contract = ii_contract input, ni_projection = Some assessed, ni_authorizedIds = ids,
             ni_certificateValid = valid, ni_riskAssessmentStale = stale, ni_riskTriggers = triggers,
             ni_coverage = coverage, ni_bindings = bindings,
             ni_claimDiagnostics = mergeClaimDiagnostics p identity\<rparr>
      in \<lparr>gd_gated = (\<not> en_satisfied e), gd_blockingClaims = en_blockingClaims e,
          gd_reasonCode = en_reasonCode e, gd_reason = en_reason e, gd_kind = en_decisionKind e,
          gd_relevantTriggers = triggers, gd_uncoveredTriggers = en_uncoveredTriggers e\<rparr>)"

section \<open>Lemmas\<close>

lemma foldl_const: "foldl (\<lambda>x _. x) a xs = a"
  by (induction xs) simp_all

lemma keys_update: "map_of (AList.update k v m) i \<noteq> None \<longleftrightarrow> i = k \<or> map_of m i \<noteq> None"
  by (simp add: update_conv')

text \<open>Which claims an integrity failure is recorded for.\<close>

lemma integrity_step_keys:
  "map_of (integrity_step claim impl ds a) i \<noteq> None \<longleftrightarrow>
     map_of ds i \<noteq> None \<or> i = dc_claimId claim \<and> attempt_defect claim impl a \<noteq> None"
  by (auto simp: integrity_step_def keys_update [simplified] split: option.split)

lemma integrity_steps_keys:
  "map_of (foldl (integrity_step claim impl) ds as) i \<noteq> None \<longleftrightarrow>
     map_of ds i \<noteq> None \<or> i = dc_claimId claim \<and> list_ex (\<lambda>a. attempt_defect claim impl a \<noteq> None) as"
  by (induction as arbitrary: ds) (auto simp: integrity_step_keys [simplified])

lemma integrity_claims_keys:
  "map_of (foldl (\<lambda>ds claim. foldl (integrity_step claim impl) ds as) ds cs) i \<noteq> None \<longleftrightarrow>
     map_of ds i \<noteq> None \<or>
     list_ex (\<lambda>claim. i = dc_claimId claim \<and> list_ex (\<lambda>a. attempt_defect claim impl a \<noteq> None) as) cs"
  by (induction cs arbitrary: ds) (auto simp: integrity_steps_keys [simplified])

lemma truncate_simps [simp]:
  "dc_claimId (declared_claim.truncate c) = dc_claimId c"
  "dc_evidenceRefs (declared_claim.truncate c) = dc_evidenceRefs c"
  "dc_counterexampleRefs (declared_claim.truncate c) = dc_counterexampleRefs c"
  by (simp_all add: declared_claim.defs)

lemma attempt_defect_truncate: "attempt_defect (declared_claim.truncate c) impl a = attempt_defect c impl a"
  by (simp add: attempt_defect_def attempt_refs_def)

lemma integrity_failure_of:
  assumes "c \<in> set (pj_claims p)" and "a \<in> set (ii_validationAttempts input)"
    and "attempt_defect c (ii_implementationDigest input) a \<noteq> None"
  shows "map_of (integrityFailures p input) (dc_claimId c) \<noteq> None"
  unfolding integrityFailures_def integrity_claims_keys
  using assms by (intro disjI2) (auto simp: list_ex_iff attempt_defect_truncate
      intro!: bexI [of _ "declared_claim.truncate c"] bexI [of _ a])

text \<open>The qualified projection has the same claims in the same order, and those re-evaluated are not proven.\<close>

definition reevaluated :: "integrity_input \<Rightarrow> counterexample list \<Rightarrow> string \<Rightarrow> proof_claim \<Rightarrow> proof_claim" where
  "reevaluated input cxs t c =
     evaluateClaim (declared_claim.truncate c)
       \<lparr>ei_claims = [declared_claim.truncate c], ei_providerResults = [rejectedProvider (dc_claimId c) t],
        ei_counterexamples = cxs, ei_currentImplementationDigest = ii_implementationDigest input,
        ei_currentPlanDigest = None, ei_currentSurfaceDigests = []\<rparr> t"

lemma reevaluate_eq: "reevaluate input cxs t c = [reevaluated input cxs t c]"
  by (simp add: reevaluate_def reevaluated_def evaluateProofGraph_def Let_def)

lemma reevaluated_not_proven: "pc_verificationState (reevaluated input cxs t c) \<noteq> PROVEN"
proof
  assume "pc_verificationState (reevaluated input cxs t c) = PROVEN"
  then obtain sel raw inp where "deriveVerificationState (declared_claim.truncate c)
      (claim_results (dc_claimId c) [rejectedProvider (dc_claimId c) t]) sel raw inp = PROVEN"
    by (auto simp: reevaluated_def claim_state_def Let_def split: if_splits)
  from derive_PROVEN(2) [OF this] show False
    by (simp add: claim_results_def rejectedProvider_def unavailable_test_def is_unavailable_def)
qed

lemma reevaluated_id [simp]: "dc_claimId (reevaluated input cxs t c) = dc_claimId c"
  by (simp add: reevaluated_def)

lemma assessed_claims:
  obtains f where "pj_claims (fst (assessProofGraphEvidence p input)) = map f (pj_claims p)"
    and "\<And>c. dc_claimId (f c) = dc_claimId c"
    and "\<And>c. pc_verificationState (f c) = PROVEN \<Longrightarrow>
           f c = c \<and> (integrityFailures p input = [] \<or> map_of (integrityFailures p input) (dc_claimId c) = None)"
proof (cases "integrityFailures p input = []")
  case True
  show ?thesis by (rule that [of "\<lambda>c. c"]) (simp_all add: assessProofGraphEvidence_def True)
next
  case False
  let ?cxs = "fst (bindCounterexamples (ii_contract input) (ii_validationAttempts input)
    (ii_implementationDigest input) (pj_evaluatedAt p))"
  let ?f = "\<lambda>c. if map_of (integrityFailures p input) (dc_claimId c) \<noteq> None
    then reevaluated input ?cxs (pj_evaluatedAt p) c else c"
  have singleton: "concat (map (\<lambda>c. if P c then reevaluate input cxs t c else [c]) cs) =
      map (\<lambda>c. if P c then reevaluated input cxs t c else c) cs" for P cxs t cs
    by (induction cs) (simp_all add: reevaluate_eq)
  show ?thesis
  proof (rule that [of ?f])
    show "pj_claims (fst (assessProofGraphEvidence p input)) = map ?f (pj_claims p)"
      by (simp add: assessProofGraphEvidence_def False singleton Let_def del: not_None_eq)
  qed (use reevaluated_not_proven in \<open>auto split: if_splits\<close>)
qed

lemma not_missing:
  assumes "i \<in> set (ni_authorizedIds input)" and "missingAuthorizedClaimIds hash input eligible = []"
  obtains claim s expected where "claim \<in> set eligible" and "dc_claimId claim = i"
    and "count_list (map dc_claimId (projected_claims input)) i = 1"
    and "map_of (ni_bindings input) i = Some expected" and "matchesAuthorizedBinding hash claim expected"
    and "s \<in> set (contract_claims (ni_contract input))" and "dc_claimId s = i" and "isGateEligible s"
    and "count_list (map dc_claimId (contract_claims (ni_contract input))) i = 1"
    and "matchesAuthorizedBinding hash s expected"
proof -
  have no: "\<not> (case last_by dc_claimId eligible i of None \<Rightarrow> True | Some claim \<Rightarrow>
      claimOccurrences (map dc_claimId (projected_claims input)) i \<noteq> 1 \<or>
      (case map_of (ni_bindings input) i of None \<Rightarrow> True | Some expected \<Rightarrow>
         \<not> matchesAuthorizedBinding hash claim expected \<or>
         claimOccurrences (map dc_claimId (contract_claims (ni_contract input))) i \<noteq> 1 \<or>
         (case last_by dc_claimId (contract_claims (ni_contract input)) i of None \<Rightarrow> True
          | Some s \<Rightarrow> \<not> isGateEligible s \<or> \<not> matchesAuthorizedBinding hash s expected)))"
    using assms unfolding missingAuthorizedClaimIds_def Let_def filter_empty_conv by blast
  from no obtain claim where claim: "last_by dc_claimId eligible i = Some claim"
    by (cases "last_by dc_claimId eligible i") simp_all
  from no claim obtain expected where expected: "map_of (ni_bindings input) i = Some expected"
    by (cases "map_of (ni_bindings input) i") simp_all
  from no claim expected obtain s where s: "last_by dc_claimId (contract_claims (ni_contract input)) i = Some s"
    by (cases "last_by dc_claimId (contract_claims (ni_contract input)) i") simp_all
  show ?thesis
    by (rule that [of claim expected s])
      (use no claim expected s last_by_SomeD [OF claim] last_by_SomeD [OF s] in \<open>simp_all add: claimOccurrences_def\<close>)
qed

lemma satisfied_enforcement:
  assumes "en_satisfied (computeProofGraphEnforcement hash input)"
  shows "ni_certificateValid input" and "\<not> ni_riskAssessmentStale input"
    and "missingAuthorizedClaimIds hash input (filter isGateEligible (projected_claims input)) = []"
    and "uncoveredRiskTriggers input (filter isGateEligible (projected_claims input)) = []"
    and "list_all (\<lambda>c. \<not> isGateEligible c \<or> pc_verificationState c = PROVEN) (projected_claims input)"
proof -
  let ?e = "filter isGateEligible (projected_claims input)"
  have none: "evaluatePreconditions hash input ?e = None"
  proof (rule ccontr)
    assume "evaluatePreconditions hash input ?e \<noteq> None"
    then obtain d where d: "evaluatePreconditions hash input ?e = Some d" by blast
    then have "\<not> en_satisfied d"
      by (auto simp: evaluatePreconditions_def certifiedMismatchDecision_def refusal_def Let_def
          split: if_splits option.splits)
    then show False using assms d by (simp add: computeProofGraphEnforcement_def)
  qed
  show "ni_certificateValid input" "\<not> ni_riskAssessmentStale input" "missingAuthorizedClaimIds hash input ?e = []"
    "uncoveredRiskTriggers input ?e = []"
    using none by (simp_all add: evaluatePreconditions_def Let_def split: if_splits option.splits)
  show "list_all (\<lambda>c. \<not> isGateEligible c \<or> pc_verificationState c = PROVEN) (projected_claims input)"
    using assms none by (auto simp: computeProofGraphEnforcement_def Let_def filter_empty_conv list_all_iff)
qed

lemma invalid_certificate_blocks:
  "\<not> ni_certificateValid input \<Longrightarrow> \<not> en_satisfied (computeProofGraphEnforcement hash input)"
  using satisfied_enforcement(1) by blast

lemma matches_digest:
  "matchesAuthorizedBinding hash c b \<Longrightarrow> materializedClaimDigest hash c = Some (cb_certifiedClaimDigest b)"
  by (auto simp: matchesAuthorizedBinding_def split: option.splits claim_authority.splits)

lemma critical_authorized:
  assumes "authorizedCriticalPlanClaimIds hash (Some plan) ctx = Authorized ids cov bindings"
    and "d \<in> set (declared_claims plan)" and "pl_critical d"
  obtains c where "pn_approvalCertificate plan = Some c" and "hasCurrentPlanApprovalCertificate hash (Some plan) ctx"
    and "pl_claimId d \<in> set ids" and "map_of bindings (pl_claimId d) = Some (claim_binding_of hash c d)"
    and "cov = map (\<lambda>d. (pl_claimId d, case pl_coversRiskTriggers d of None \<Rightarrow> [] | Some ts \<Rightarrow> ts))
                 (filter pl_critical (declared_claims plan))"
proof -
  obtain c where c: "pn_approvalCertificate plan = Some c"
    using assms by (cases "pn_approvalCertificate plan")
      (auto simp: authorizedCriticalPlanClaimIds_def Let_def list_ex_iff split: if_splits)
  have cur: "hasCurrentPlanApprovalCertificate hash (Some plan) ctx"
    using assms(1) c by (simp add: authorizedCriticalPlanClaimIds_def Let_def split: if_splits)
  then have "uniqueClaimIds (map pl_claimId (declared_claims plan)) \<noteq> None"
    by (auto simp: hasCurrentPlanApprovalCertificate_def approvalCertificateOf_def split: if_splits)
  then have dist: "distinct (map pl_claimId (declared_claims plan))"
    by (auto simp: uniqueClaimIds_def split: if_splits) (metis card_distinct length_map length_remdups_card_conv)
  let ?critical = "filter pl_critical (declared_claims plan)"
  have eqs: "ids = map pl_claimId ?critical" "bindings = map (\<lambda>d. (pl_claimId d, claim_binding_of hash c d)) ?critical"
    "cov = map (\<lambda>d. (pl_claimId d, case pl_coversRiskTriggers d of None \<Rightarrow> [] | Some ts \<Rightarrow> ts)) ?critical"
    using assms(1) c cur by (simp_all add: authorizedCriticalPlanClaimIds_def Let_def)
  have "distinct (map fst bindings)" using dist by (simp add: eqs comp_def distinct_map_filter)
  then have "map_of bindings (pl_claimId d) = Some (claim_binding_of hash c d)"
    by (rule map_of_is_SomeI) (use assms(2,3) in \<open>auto simp: eqs\<close>)
  then show ?thesis
    by (intro that [of c] c cur) (use assms(2,3) in \<open>auto simp: eqs\<close>)
qed

lemma covered_by_critical:
  assumes "ni_coverage input = map (\<lambda>d. (pl_claimId d, case pl_coversRiskTriggers d of None \<Rightarrow> [] | Some ts \<Rightarrow> ts))
                 (filter pl_critical ds)"
    and "uncoveredRiskTriggers input eligible = []"
  shows "set (ni_riskTriggers input) \<subseteq> (\<Union>e \<in> {e \<in> set ds. pl_critical e}. set_mset (covers (pl_coversRiskTriggers e)))"
proof
  fix t assume "t \<in> set (ni_riskTriggers input)"
  then obtain i ts where "(i, ts) \<in> set (ni_coverage input)" and t: "t \<in> set ts"
    using assms(2) by (auto simp: uncoveredRiskTriggers_def Let_def filter_empty_conv)
  then obtain e where e: "e \<in> set ds" "pl_critical e" "ts = (case pl_coversRiskTriggers e of None \<Rightarrow> [] | Some ts \<Rightarrow> ts)"
    using assms(1) by auto
  then have "t \<in> set_mset (covers (pl_coversRiskTriggers e))"
    using t by (simp add: covers_def split: option.splits)
  then show "t \<in> (\<Union>e \<in> {e \<in> set ds. pl_critical e}. set_mset (covers (pl_coversRiskTriggers e)))"
    using e by blast
qed

section \<open>Properties\<close>

text \<open>What a clear gate certifies. If the gate of a session with a declared plan is clear, then for every
  critical claim of the plan: the plan has a current approval certificate; the claim occurs exactly once
  in the projection and exactly once in the contract, and both occurrences are eligible and carry the
  semantics the certificate digested; the projected one is proven, and none of the attempts it refers to
  shows, for the current implementation, a foreign or ambiguous assertion report. The risk assessment is
  the one of the current implementation, and each specific trigger it found is covered by a critical
  claim of the certified plan (C29).\<close>

theorem clear_gate_certifies:
  assumes "\<not> gd_gated (evaluateProofGraphGate hash input p (authorizedCriticalPlanClaimIds hash (Some plan) ctx) risk)"
    and "d \<in> set (declared_claims plan)" and "pl_critical d"
  shows "hasCurrentPlanApprovalCertificate hash (Some plan) ctx \<and>
     count_list (map dc_claimId (pj_claims p)) (pl_claimId d) = 1 \<and>
     count_list (map dc_claimId (contract_claims (ii_contract input))) (pl_claimId d) = 1 \<and>
     list_ex (\<lambda>c. dc_claimId c = pl_claimId d \<and> isGateEligible c \<and>
         materializedClaimDigest hash c = Some (certifiedClaimDigest hash d) \<and> pc_verificationState c = PROVEN \<and>
         list_all (\<lambda>a. attempt_defect c (ii_implementationDigest input) a = None) (ii_validationAttempts input))
       (pj_claims p) \<and>
     list_ex (\<lambda>c. dc_claimId c = pl_claimId d \<and> isGateEligible c \<and>
         materializedClaimDigest hash c = Some (certifiedClaimDigest hash d)) (contract_claims (ii_contract input)) \<and>
     (ii_implementationDigest input = None \<or> isRiskAssessmentCurrent risk (ii_implementationDigest input)) \<and>
     set (relevantTriggers risk) \<subseteq>
       (\<Union>e \<in> {e \<in> set (declared_claims plan). pl_critical e}. set_mset (covers (pl_coversRiskTriggers e)))"
proof -
  obtain assessed identity where assess: "assessProofGraphEvidence p input = (assessed, identity)"
    by (cases "assessProofGraphEvidence p input")
  define ni where "ni = (\<lambda>valid ids cov bindings.
    \<lparr>ni_contract = ii_contract input, ni_projection = Some assessed, ni_authorizedIds = ids,
     ni_certificateValid = valid,
     ni_riskAssessmentStale = (ii_implementationDigest input \<noteq> None \<and>
        \<not> isRiskAssessmentCurrent risk (ii_implementationDigest input)),
     ni_riskTriggers = relevantTriggers risk, ni_coverage = cov, ni_bindings = bindings,
     ni_claimDiagnostics = mergeClaimDiagnostics p identity\<rparr>)"
  obtain ids cov bindings where auth: "authorizedCriticalPlanClaimIds hash (Some plan) ctx = Authorized ids cov bindings"
    and sat: "en_satisfied (computeProofGraphEnforcement hash (ni True ids cov bindings))"
  proof (cases "authorizedCriticalPlanClaimIds hash (Some plan) ctx")
    case (Authorized ids cov bindings)
    then show ?thesis using assms(1) by (intro that [of ids cov bindings])
        (simp_all add: evaluateProofGraphGate_def assess Let_def ni_def)
  qed (use assms(1) in \<open>simp_all add: evaluateProofGraphGate_def assess Let_def invalid_certificate_blocks\<close>)
  obtain c where c: "pn_approvalCertificate plan = Some c"
      and cur: "hasCurrentPlanApprovalCertificate hash (Some plan) ctx"
      and id: "pl_claimId d \<in> set ids"
      and binding: "map_of bindings (pl_claimId d) = Some (claim_binding_of hash c d)"
      and cov: "cov = map (\<lambda>d. (pl_claimId d, case pl_coversRiskTriggers d of None \<Rightarrow> [] | Some ts \<Rightarrow> ts))
                 (filter pl_critical (declared_claims plan))"
    by (rule critical_authorized [OF auth assms(2,3)])
  note S = satisfied_enforcement [OF sat]
  have proj: "projected_claims (ni True ids cov bindings) = pj_claims assessed"
    by (simp add: projected_claims_def ni_def)
  have fields: "ni_authorizedIds (ni True ids cov bindings) = ids" "ni_bindings (ni True ids cov bindings) = bindings"
    "ni_contract (ni True ids cov bindings) = ii_contract input"
    by (simp_all add: ni_def)
  obtain f where f: "pj_claims assessed = map f (pj_claims p)" "\<And>x. dc_claimId (f x) = dc_claimId x"
    and proven: "\<And>x. pc_verificationState (f x) = PROVEN \<Longrightarrow> f x = x \<and>
      (integrityFailures p input = [] \<or> map_of (integrityFailures p input) (dc_claimId x) = None)"
    using assessed_claims [of p input] assess by (metis fst_conv)
  obtain claim s expected where claim: "claim \<in> set (filter isGateEligible (pj_claims assessed))" "dc_claimId claim = pl_claimId d"
      "count_list (map dc_claimId (pj_claims assessed)) (pl_claimId d) = 1"
      "map_of bindings (pl_claimId d) = Some expected" "matchesAuthorizedBinding hash claim expected"
      and src: "s \<in> set (contract_claims (ii_contract input))" "dc_claimId s = pl_claimId d" "isGateEligible s"
      "count_list (map dc_claimId (contract_claims (ii_contract input))) (pl_claimId d) = 1"
      "matchesAuthorizedBinding hash s expected"
    by (rule not_missing [OF _ S(3), of "pl_claimId d"]) (use id in \<open>simp_all add: proj fields\<close>)
  have "expected = claim_binding_of hash c d" using claim(4) binding by simp
  then have expected: "cb_certifiedClaimDigest expected = certifiedClaimDigest hash d"
    by (simp add: claim_binding_of_def)
  obtain x where x: "x \<in> set (pj_claims p)" "claim = f x" using claim(1) f(1) by auto
  have "pc_verificationState claim = PROVEN"
    using S(5) claim(1) by (auto simp: proj list_all_iff)
  then have "pc_verificationState (f x) = PROVEN" using x(2) by simp
  from proven [OF this] have fx: "f x = x"
    and whole: "integrityFailures p input = [] \<or> map_of (integrityFailures p input) (dc_claimId x) = None"
    by (rule conjunct1, rule conjunct2)
  have intact: "list_all (\<lambda>a. attempt_defect x (ii_implementationDigest input) a = None) (ii_validationAttempts input)"
    using integrity_failure_of [OF x(1)] whole by (fastforce simp: list_all_iff)
  have "list_ex (\<lambda>c. dc_claimId c = pl_claimId d \<and> isGateEligible c \<and>
      materializedClaimDigest hash c = Some (certifiedClaimDigest hash d) \<and> pc_verificationState c = PROVEN \<and>
      list_all (\<lambda>a. attempt_defect c (ii_implementationDigest input) a = None) (ii_validationAttempts input)) (pj_claims p)"
    unfolding list_ex_iff
    using x fx claim(1,2) \<open>pc_verificationState claim = PROVEN\<close> intact matches_digest [OF claim(5)] expected
    by (intro bexI [of _ x]) simp_all
  moreover have "list_ex (\<lambda>c. dc_claimId c = pl_claimId d \<and> isGateEligible c \<and>
      materializedClaimDigest hash c = Some (certifiedClaimDigest hash d)) (contract_claims (ii_contract input))"
    unfolding list_ex_iff using src matches_digest [OF src(5)] expected by (intro bexI [of _ s]) simp_all
  moreover have "count_list (map dc_claimId (pj_claims p)) (pl_claimId d) = 1"
    using claim(3) f by (simp add: comp_def)
  moreover have "ii_implementationDigest input = None \<or> isRiskAssessmentCurrent risk (ii_implementationDigest input)"
    using S(2) by (simp add: ni_def)
  moreover have "set (relevantTriggers risk) \<subseteq>
       (\<Union>e \<in> {e \<in> set (declared_claims plan). pl_critical e}. set_mset (covers (pl_coversRiskTriggers e)))"
    using covered_by_critical [of "ni True ids cov bindings", OF _ S(4), of "declared_claims plan"] cov by (simp add: ni_def)
  ultimately show ?thesis using cur src(4) by blast
qed

text \<open>A sample session: the certificate of the sample plan, its claim materialised and proven.\<close>

definition sample_hash :: "string \<Rightarrow> string" where
  "sample_hash s = ''h''"

definition sample_draft :: plan_record where
  "sample_draft = sample_plan\<lparr>pn_current := (pn_current sample_plan)\<lparr>pe_digest := ''d'', pe_recordDigest := ''r''\<rparr>\<rparr>"

definition sample_certificate :: plan_certificate where
  "sample_certificate =
     createPlanApprovalCertificate sample_hash (sample_context True) sample_draft sample_decision
       (Current_review ''o'' ''f'' ''d'')"

definition sample_gate_plan :: plan_record where
  "sample_gate_plan = sample_draft\<lparr>pn_approvalCertificate := Some sample_certificate\<rparr>"

definition sample_gate_claim :: declared_claim where
  "sample_gate_claim =
     sample_claim\<lparr>dc_provenance := Some (Canonical_authority ''plan'' ''d'' (Some
        \<lparr>ab_certificateId = ce_certificateId sample_certificate,
         ab_claimDeclarationsDigest = ''h'', ab_decisionAttestationDigest = ''h'', ab_declarationId = ''c1''\<rparr>)),
       dc_certifiedPlan := Some (sample_origin\<lparr>cp_digest := ''h''\<rparr>)\<rparr>"

definition sample_gate_input :: integrity_input where
  "sample_gate_input =
     \<lparr>ii_contract = Some \<lparr>ct_claims = [sample_gate_claim]\<rparr>, ii_validationAttempts = [],
      ii_implementationDigest = Some ''i1''\<rparr>"

definition sample_projection :: projection where
  "sample_projection =
     \<lparr>pj_claims = [declared_claim.extend sample_gate_claim (proof_claim.fields PROVEN None)],
      pj_evaluatedAt = ''t'', pj_claimDiagnostics = None\<rparr>"

definition sample_risk :: implementation_risk where
  "sample_risk = \<lparr>ir_implementationDigest = ''i1'', ir_riskTriggers = [Migration, Ceremony_only]\<rparr>"

theorem clear_gate_certifies_witness:
  "hasCurrentPlanApprovalCertificate sample_hash (Some sample_gate_plan) (sample_context True) \<and>
   count_list (map dc_claimId (pj_claims sample_projection)) ''c1'' = 1"
proof -
  have decl: "declared_claims sample_gate_plan = [sample_declaration]"
    by (simp add: sample_gate_plan_def sample_draft_def sample_plan_def declared_claims_def Let_def)
  have cert: "ce_authorityDigest sample_certificate = ''d''" "ce_claimDeclarationsDigest sample_certificate = ''h''"
    "ce_decisionAttestationDigest sample_certificate = ''h''"
    by (simp_all add: sample_certificate_def createPlanApprovalCertificate_def declarations_digest_def
        attestation_digest_def sample_hash_def sample_draft_def)
  have "hasCurrentPlanApprovalCertificate sample_hash (Some sample_gate_plan) (sample_context True)"
    unfolding sample_gate_plan_def sample_certificate_def createPlanApprovalCertificate_def
    by (rule certificate_for_current)
      (simp_all add: sample_draft_def sample_plan_def declared_claims_def explicit_matches Let_def)
  then have auth: "authorizedCriticalPlanClaimIds sample_hash (Some sample_gate_plan) (sample_context True) =
      Authorized [''c1''] [(''c1'', [State_integrity, Migration])]
        [(''c1'', claim_binding_of sample_hash sample_certificate sample_declaration)]"
    unfolding authorizedCriticalPlanClaimIds_def
    by (simp add: decl Let_def sample_declaration_def) (simp add: sample_gate_plan_def)
  have assess: "assessProofGraphEvidence sample_projection sample_gate_input = (sample_projection, [])"
    by (simp add: assessProofGraphEvidence_def integrityFailures_def sample_gate_input_def foldl_const Let_def)
  let ?claim = "declared_claim.extend sample_gate_claim (proof_claim.fields PROVEN None)"
  have eligible: "isGateEligible ?claim" "isGateEligible sample_gate_claim" "dc_claimId ?claim = ''c1''"
    "dc_claimId sample_gate_claim = ''c1''" "pc_verificationState ?claim = PROVEN"
    by (simp_all add: isGateEligible_def sample_gate_claim_def sample_claim_def declared_claim.defs proof_claim.defs)
  have digest: "materializedClaimDigest sample_hash ?claim = Some ''h''"
    "materializedClaimDigest sample_hash sample_gate_claim = Some ''h''"
    by (simp_all add: materializedClaimDigest_def semanticDigest_def sample_hash_def sample_gate_claim_def
        sample_claim_def declared_claim.defs)
  have binding: "matchesAuthorizedBinding sample_hash ?claim (claim_binding_of sample_hash sample_certificate sample_declaration)"
    "matchesAuthorizedBinding sample_hash sample_gate_claim (claim_binding_of sample_hash sample_certificate sample_declaration)"
    using digest by (simp_all add: matchesAuthorizedBinding_def claim_binding_of_def cert certifiedClaimDigest_def
        semanticDigest_def sample_hash_def sample_gate_claim_def sample_claim_def sample_declaration_def declared_claim.defs)
  have parts: "pj_claims sample_projection = [?claim]" "ii_contract sample_gate_input = Some \<lparr>ct_claims = [sample_gate_claim]\<rparr>"
    "ii_implementationDigest sample_gate_input = Some ''i1''"
    by (simp_all add: sample_projection_def sample_gate_input_def)
  have dig: "cb_certifiedClaimDigest (claim_binding_of sample_hash sample_certificate sample_declaration) = ''h''"
    by (simp add: claim_binding_of_def certifiedClaimDigest_def semanticDigest_def sample_hash_def)
  have "\<not> gd_gated (evaluateProofGraphGate sample_hash sample_gate_input sample_projection
      (authorizedCriticalPlanClaimIds sample_hash (Some sample_gate_plan) (sample_context True)) (Some sample_risk))"
    unfolding evaluateProofGraphGate_def auth assess Let_def
    using eligible binding digest
    by (simp add: computeProofGraphEnforcement_def projected_claims_def parts evaluatePreconditions_def
        missingAuthorizedClaimIds_def last_by_def claimOccurrences_def contract_claims_def
        certifiedMismatchDecision_def certified_mismatch_def dig Let_def
        isRiskAssessmentCurrent_def sample_risk_def relevantTriggers_def specific_def uncoveredRiskTriggers_def)
  moreover have "sample_declaration \<in> set (declared_claims sample_gate_plan)" and "pl_critical sample_declaration"
    and "pl_claimId sample_declaration = ''c1''"
    by (simp_all add: decl sample_declaration_def)
  ultimately show ?thesis using clear_gate_certifies by metis
qed

end
