(* ===== verification/Spec2Isabelle.thy ===== *)
theory Spec2Isabelle
  imports Topology Hashing Risk_Declaration Path_Risk Mutation_Episodes Review_Execution Proof_Gate
begin

text \<open>A verification development of the governed workflow runtime.\<close>

end
